(* ===== verification/Stego_Prelude.thy ===== *)
theory Stego_Prelude
  imports Main "HOL-Library.Word"
begin

text \<open>
  Shared vocabulary of the steganography development: the types of channel values,
  pixel arrays and bit strings, the Python errors the engines can raise, an
  error-propagating fold for the engines' nested loops, Python's \<open>range\<close> with a
  step, the binary formatting and parsing the source does with \<open>f"{v:0{n}b}"\<close> and
  \<open>int(s, 2)\<close>, and the integer and word lemmas on bit masks that the pixel
  operations share.
\<close>

unbundle bit_operations_syntax

section \<open>Types\<close>

text \<open>
  A colour channel of the \<open>numpy\<close> array \<open>np.array(img)\<close> is an unsigned 8-bit
  value; the array of an RGB image of width \<open>W\<close> and height \<open>H\<close> has shape
  \<open>(H, W, 3)\<close> and is indexed \<open>pixels[y, x, channel]\<close>, modelled as a list of
  rows of pixels of channels.  The source's bit strings contain only the characters
  \<open>'0'\<close> and \<open>'1'\<close>; they are modelled as lists of booleans, \<open>True\<close> for \<open>'1'\<close>.
\<close>

type_synonym u8 = "8 word"
type_synonym pixels = "u8 list list list"
type_synonym bitstr = "bool list"

text \<open>
  The exceptions of the model.  The engines raise Python's \<open>ValueError\<close> at three
  sites: \<open>range(0, n, 0)\<close> (a zero block dimension), \<open>int('', 2)\<close> (an empty slice
  of the bit string) and \<open>reshape\<close> of a value array of the wrong size.  The GUIs
  add \<open>Image.open\<close> of a path that holds no image, \<open>int(s)\<close> of a string that is
  no decimal literal, unpacking too few or too many values into a pair, and the
  \<open>AttributeError\<close> of reading an attribute that was never assigned.
\<close>

datatype py_error = RangeZeroStep | EmptyBinLiteral | ReshapeSize | FileNotFound string
  | IntLiteral string | UnpackCount nat | UnpackTooMany | AttributeMissing string

named_theorems bits_simps "rewrite rules for binary formatting and parsing"

section \<open>A fold that stops at the first error\<close>

text \<open>A Python \<open>for\<close> loop whose body may raise: the first exception ends the loop.\<close>

fun fold_err :: "('a \<Rightarrow> 's \<Rightarrow> py_error + 's) \<Rightarrow> 'a list \<Rightarrow> 's \<Rightarrow> py_error + 's" where
  "fold_err f [] s = Inr s"
| "fold_err f (x # xs) s = (case f x s of Inl e \<Rightarrow> Inl e | Inr s' \<Rightarrow> fold_err f xs s')"

lemma fold_err_append:
  "fold_err f (xs @ ys) s = (case fold_err f xs s of Inl e \<Rightarrow> Inl e | Inr s' \<Rightarrow> fold_err f ys s')"
  by (induction xs arbitrary: s) (auto split: sum.splits)

lemma fold_err_concat:
  "fold_err f (concat xss) s = fold_err (fold_err f) xss s"
  by (induction xss arbitrary: s) (auto simp: fold_err_append split: sum.splits)

lemma fold_err_map: "fold_err f (map g xs) s = fold_err (f \<circ> g) xs s"
  by (induction xs arbitrary: s) (auto split: sum.splits)

lemma fold_err_concat_fun: "fold_err f (concat xss) = fold_err (fold_err f) xss"
  by (rule ext) (rule fold_err_concat)

lemma fold_err_map_fun: "fold_err f (map g xs) = fold_err (f \<circ> g) xs"
  by (rule ext) (rule fold_err_map)

lemma fold_err_if_single:
  "fold_err f (if b then [x] else []) s = (if b then f x s else Inr s)"
  by (auto split: sum.splits)

lemma fold_err_if_single_fun:
  "fold_err f (if b then [x] else []) = (\<lambda>s. if b then f x s else Inr s)"
  by (rule ext) (rule fold_err_if_single)

lemma fold_err_total:
  assumes "\<And>x s. x \<in> set xs \<Longrightarrow> f x s = Inr (g x s)"
  shows "fold_err f xs s = Inr (fold g xs s)"
  using assms by (induction xs arbitrary: s) auto

lemma fold_err_Inr: "fold_err (\<lambda>x s. Inr (g x s)) xs s = Inr (fold g xs s)"
  by (rule fold_err_total) simp

lemma fold_concat: "fold f (concat xss) = fold (fold f) xss"
  by (induction xss) simp_all

lemma fold_if_single: "fold f (if b then [x] else []) = (\<lambda>s. if b then f x s else s)"
  by auto

lemma fold_err_cong:
  assumes "\<And>x s. x \<in> set xs \<Longrightarrow> f x s = g x s"
  shows "fold_err f xs s = fold_err g xs s"
  using assms by (induction xs arbitrary: s) (auto split: sum.splits)

text \<open>A step that succeeds in one fold succeeds the same way in another.\<close>

lemma fold_err_Inr_mono:
  assumes "fold_err f xs s = Inr s'"
    and "\<And>x t t'. x \<in> set xs \<Longrightarrow> f x t = Inr t' \<Longrightarrow> g x t = Inr t'"
  shows "fold_err g xs s = Inr s'"
  using assms by (induction xs arbitrary: s) (auto split: sum.splits)

lemma fold_err_const:
  "(\<And>x. x \<in> set xs \<Longrightarrow> f x s = Inr s) \<Longrightarrow> fold_err f xs s = Inr s"
  by (induction xs) auto

text \<open>A fold whose every step keeps an invariant and succeeds on it succeeds.\<close>

lemma fold_err_ok_inv:
  assumes "P s"
    and "\<And>x t. x \<in> set xs \<Longrightarrow> P t \<Longrightarrow> \<exists>t'. f x t = Inr t' \<and> P t'"
  shows "\<exists>s'. fold_err f xs s = Inr s' \<and> P s'"
  using assms
proof (induction xs arbitrary: s)
  case (Cons x xs)
  obtain t where t: "f x s = Inr t" "P t" using Cons.prems(2) [of x s] Cons.prems(1) by auto
  have "\<exists>s'. fold_err f xs t = Inr s' \<and> P s'" using t(2) Cons.prems(2) by (intro Cons.IH) auto
  then show ?case using t(1) by simp
qed simp

text \<open>Two folds stay related when every pair of steps does.\<close>

lemma fold_rel:
  assumes "R a b" "\<And>x a b. x \<in> set xs \<Longrightarrow> R a b \<Longrightarrow> R (f x a) (g x b)"
  shows "R (fold f xs a) (fold g xs b)"
  using assms by (induction xs arbitrary: a b) simp_all

lemma fold_const: "(\<And>x. x \<in> set xs \<Longrightarrow> f x a = a) \<Longrightarrow> fold f xs a = a"
  by (induction xs) simp_all

lemma fold_err_invariant:
  assumes "fold_err f xs s = Inr s'" "P s"
    and "\<And>x t t'. x \<in> set xs \<Longrightarrow> P t \<Longrightarrow> f x t = Inr t' \<Longrightarrow> P t'"
  shows "P s'"
  using assms
proof (induction xs arbitrary: s)
  case Nil
  then show ?case by simp
next
  case (Cons x xs)
  then obtain t where t: "f x s = Inr t" and r: "fold_err f xs t = Inr s'"
    by (auto split: sum.splits)
  from Cons.prems(3) [of x s t] Cons.prems(2) t have pt: "P t" by simp
  have step: "\<And>y u u'. y \<in> set xs \<Longrightarrow> P u \<Longrightarrow> f y u = Inr u' \<Longrightarrow> P u'"
    using Cons.prems(3) by (metis list.set_intros(2))
  show ?case by (rule Cons.IH [OF r pt step])
qed

section \<open>Lists updated by index\<close>

lemma nth_list_update_if:
  "xs[i := v] ! j = (if i = j \<and> i < length xs then v else xs ! j)"
  by (cases "i < length xs") (auto simp: nth_list_update list_update_beyond not_less)

lemma distinct_concat_map_disjoint:
  assumes "distinct xs" "\<forall>x \<in> set xs. distinct (f x)"
    and "\<forall>x \<in> set xs. \<forall>y \<in> set xs. x \<noteq> y \<longrightarrow> set (f x) \<inter> set (f y) = {}"
  shows "distinct (concat (map f xs))"
  using assms by (induction xs) auto

lemma sorted_wrt_irrefl_distinct:
  "sorted_wrt R xs \<Longrightarrow> (\<And>x. \<not> R x x) \<Longrightarrow> distinct xs"
  by (induction xs) auto

lemma lt_div_mult_add: "0 < (b::nat) \<Longrightarrow> i < i div b * b + b"
  using div_mult_mod_eq [of i b] mod_less_divisor [of b i] by linarith

lemma dvd_less_add:
  fixes a b c :: nat
  assumes "c dvd a" "c dvd b" "a < b"
  shows "a + c \<le> b"
proof -
  obtain i j where "a = c * i" "b = c * j" using assms(1,2) by (auto elim!: dvdE)
  moreover from this assms(3) have "i < j" by (cases "c = 0") simp_all
  ultimately show ?thesis using mult_le_mono2 [of "Suc i" j c] by simp
qed

text \<open>The exception that ends a loop is raised by one of its iterations.\<close>

lemma fold_err_Inl_step: "fold_err f xs s = Inl e \<Longrightarrow> \<exists>x \<in> set xs. \<exists>t. f x t = Inl e"
  by (induction xs arbitrary: s) (auto split: sum.splits)

text \<open>A list comprehension whose element expression may raise.\<close>

fun map_err :: "('a \<Rightarrow> py_error + 'b) \<Rightarrow> 'a list \<Rightarrow> py_error + 'b list" where
  "map_err f [] = Inr []"
| "map_err f (x # xs) =
     (case f x of Inl e \<Rightarrow> Inl e | Inr y \<Rightarrow> (case map_err f xs of Inl e \<Rightarrow> Inl e | Inr ys \<Rightarrow> Inr (y # ys)))"

lemma map_err_Inl_step: "map_err f xs = Inl e \<Longrightarrow> \<exists>x \<in> set xs. f x = Inl e"
  by (induction xs) (auto split: sum.splits)

lemma map_err_total:
  "(\<And>x. x \<in> set xs \<Longrightarrow> f x = Inr (g x)) \<Longrightarrow> map_err f xs = Inr (map g xs)"
  by (induction xs) auto

lemma map_err_map: "map_err f (map g xs) = map_err (f \<circ> g) xs"
  by (induction xs) (auto split: sum.splits)

lemma map_err_length: "map_err f xs = Inr ys \<Longrightarrow> length ys = length xs"
  by (induction xs arbitrary: ys) (auto split: sum.splits)

lemma map_err_Inr_set:
  "map_err f xs = Inr ys \<Longrightarrow> y \<in> set ys \<Longrightarrow> \<exists>x \<in> set xs. f x = Inr y"
  by (induction xs arbitrary: ys) (auto split: sum.splits)

text \<open>Chunks of a concatenation of equally long lists.\<close>

lemma take_drop_agree:
  assumes "take m xs = take m ys" "k + n \<le> m"
  shows "take n (drop k xs) = take n (drop k ys)"
proof -
  have "take (n + k) xs = take (n + k) ys"
    using arg_cong [OF assms(1), of "take (n + k)"] assms(2) by (simp add: min_def)
  then show ?thesis by (simp add: take_drop)
qed

lemma take_drop_concat_uniform:
  assumes "\<forall>xs \<in> set xss. length xs = k" "i < length xss"
  shows "take k (drop (k * i) (concat xss @ ys)) = xss ! i"
  using assms
proof (induction xss arbitrary: i)
  case Nil
  then show ?case by simp
next
  case (Cons xs xss)
  show ?case
  proof (cases i)
    case 0
    with Cons.prems show ?thesis by simp
  next
    case (Suc i')
    with Cons.prems have "take k (drop (k * i') (concat xss @ ys)) = xss ! i'"
      by (intro Cons.IH) simp_all
    with Cons.prems Suc show ?thesis by (simp add: drop_append)
  qed
qed

lemma length_concat_uniform:
  "\<forall>xs \<in> set xss. length xs = k \<Longrightarrow> length (concat xss) = length xss * k"
  by (induction xss) auto

lemma nth_concat_uniform:
  assumes "\<forall>xs \<in> set xss. length xs = k" "i < length xss" "j < k"
  shows "concat xss ! (i * k + j) = xss ! i ! j"
  using assms
proof (induction xss arbitrary: i)
  case Nil
  then show ?case by simp
next
  case (Cons xs xss)
  show ?case
  proof (cases i)
    case 0
    with Cons.prems show ?thesis by (simp add: nth_append)
  next
    case (Suc i')
    with Cons.prems have "concat xss ! (i' * k + j) = xss ! i' ! j"
      by (intro Cons.IH) simp_all
    with Cons.prems Suc show ?thesis by (simp add: nth_append add.assoc)
  qed
qed

lemma sum_list_bounds:
  fixes xs :: "nat list"
  assumes "\<forall>x \<in> set xs. a \<le> x \<and> x \<le> b"
  shows "length xs * a \<le> sum_list xs \<and> sum_list xs \<le> length xs * b"
  using assms by (induction xs) (auto intro: add_mono)

section \<open>Python's range with a step\<close>

text \<open>\<open>range(start, stop, step)\<close> for a positive step; a zero step raises.\<close>

function range_list :: "nat \<Rightarrow> nat \<Rightarrow> nat \<Rightarrow> nat list" where
  "range_list a b s = (if s = 0 \<or> b \<le> a then [] else a # range_list (a + s) b s)"
  by pat_completeness auto
termination
  by (relation "measure (\<lambda>(a, b, s). b - a)") auto

declare range_list.simps [simp del]

definition py_range :: "nat \<Rightarrow> nat \<Rightarrow> nat \<Rightarrow> py_error + nat list" where
  "py_range start stop step =
     (if step = 0 then Inl RangeZeroStep else Inr (range_list start stop step))"

lemma py_range_pos [simp]: "0 < s \<Longrightarrow> py_range a b s = Inr (range_list a b s)"
  by (simp add: py_range_def)

lemma range_list_Nil [simp]: "b \<le> a \<Longrightarrow> range_list a b s = []"
  by (simp add: range_list.simps)

lemma range_list_Cons: "0 < s \<Longrightarrow> a < b \<Longrightarrow> range_list a b s = a # range_list (a + s) b s"
  by (simp add: range_list.simps [of a b s])

lemma set_range_list:
  "0 < s \<Longrightarrow> set (range_list a b s) = {i. a \<le> i \<and> i < b \<and> (\<exists>k. i = a + k * s)}"
proof (induction a b s rule: range_list.induct)
  case (1 a b s)
  show ?case
  proof (cases "b \<le> a")
    case True
    then show ?thesis by auto
  next
    case False
    with "1" have IH: "set (range_list (a + s) b s) = {i. a + s \<le> i \<and> i < b \<and> (\<exists>k. i = a + s + k * s)}"
      by simp
    have "{i. a \<le> i \<and> i < b \<and> (\<exists>k. i = a + k * s)}
          = insert a {i. a + s \<le> i \<and> i < b \<and> (\<exists>k. i = a + s + k * s)}"
    proof (intro set_eqI iffI)
      fix i assume "i \<in> {i. a \<le> i \<and> i < b \<and> (\<exists>k. i = a + k * s)}"
      then obtain k where "i < b" "i = a + k * s" by auto
      then show "i \<in> insert a {i. a + s \<le> i \<and> i < b \<and> (\<exists>k. i = a + s + k * s)}"
        by (cases k) auto
    next
      fix i assume "i \<in> insert a {i. a + s \<le> i \<and> i < b \<and> (\<exists>k. i = a + s + k * s)}"
      then show "i \<in> {i. a \<le> i \<and> i < b \<and> (\<exists>k. i = a + k * s)}"
        using False by (auto intro: exI [of _ "Suc _"])
    qed
    with False "1.prems" IH show ?thesis by (simp add: range_list_Cons)
  qed
qed

lemma range_list_bounds: "i \<in> set (range_list a b s) \<Longrightarrow> a \<le> i \<and> i < b"
proof (induction a b s rule: range_list.induct)
  case (1 a b s)
  then show ?case by (auto simp: range_list.simps [of a b s] split: if_splits)
qed

lemma sorted_range_list: "sorted_wrt (<) (range_list a b s)"
proof (induction a b s rule: range_list.induct)
  case (1 a b s)
  then show ?case
    by (auto simp: range_list.simps [of a b s] dest: range_list_bounds)
qed

lemma range_list_one: "range_list a b 1 = [a..<b]"
proof (induction a b "1::nat" rule: range_list.induct)
  case (1 a b)
  then show ?case by (cases "b \<le> a") (auto simp: range_list_Cons upt_conv_Cons)
qed

lemma range_list_map:
  "0 < s \<Longrightarrow> range_list a (a + n * s) s = map (\<lambda>k. a + k * s) [0..<n]"
proof (induction n arbitrary: a)
  case 0
  then show ?case by simp
next
  case (Suc n)
  have "range_list a (a + Suc n * s) s = a # range_list (a + s) (a + s + n * s) s"
    using Suc.prems by (simp add: range_list_Cons add.assoc)
  also have "\<dots> = a # map (\<lambda>k. a + s + k * s) [0..<n]"
    using Suc by simp
  also have "\<dots> = map (\<lambda>k. a + k * s) [0..<Suc n]"
    by (simp add: map_upt_Suc del: upt_Suc)
  finally show ?case .
qed

lemma range_list_multiple:
  "0 < s \<Longrightarrow> i \<in> set (range_list 0 b s) \<Longrightarrow> \<exists>k. i = k * s"
  by (auto simp: set_range_list)

lemma length_range_list: "0 < s \<Longrightarrow> length (range_list a (a + k * s) s) = k"
proof (induction k arbitrary: a)
  case 0
  then show ?case by simp
next
  case (Suc k)
  have "range_list a (a + Suc k * s) s = a # range_list (a + s) (a + s + k * s) s"
    using Suc.prems by (simp add: range_list_Cons add.assoc)
  then show ?case using Suc.IH [OF Suc.prems, of "a + s"] by simp
qed

section \<open>Binary formatting and parsing\<close>

text \<open>\<open>int(s, 2)\<close> on a non-empty string of binary digits, most significant first.\<close>

definition bits_to_nat :: "bitstr \<Rightarrow> nat" where
  "bits_to_nat bs = foldl (\<lambda>acc b. 2 * acc + of_bool b) 0 bs"

definition py_int_base2 :: "bitstr \<Rightarrow> py_error + nat" where
  "py_int_base2 bs = (if bs = [] then Inl EmptyBinLiteral else Inr (bits_to_nat bs))"

text \<open>Python's \<open>format(v, 'b')\<close>: the binary digits with no leading zero (\<open>'0'\<close> for 0).\<close>

fun bin_digits :: "nat \<Rightarrow> bitstr" where
  "bin_digits n = (if n < 2 then [n = 1] else bin_digits (n div 2) @ [odd n])"

declare bin_digits.simps [simp del]

text \<open>\<open>f"{v:0{w}b}"\<close>: the digits, padded on the left with zeros to width \<open>w\<close>.\<close>

definition format_bin :: "nat \<Rightarrow> nat \<Rightarrow> bitstr" where
  "format_bin w v = replicate (w - length (bin_digits v)) False @ bin_digits v"

lemma foldl_bits_acc:
  "foldl (\<lambda>acc b. 2 * acc + of_bool b) a bs = a * 2 ^ length bs + bits_to_nat bs"
  unfolding bits_to_nat_def
proof (induction bs arbitrary: a)
  case Nil
  then show ?case by simp
next
  case (Cons b bs)
  have "foldl (\<lambda>acc b. 2 * acc + of_bool b) (2 * a + of_bool b) bs
        = (2 * a + of_bool b) * 2 ^ length bs + foldl (\<lambda>acc b. (2::nat) * acc + of_bool b) 0 bs"
    by (rule Cons.IH)
  moreover have "foldl (\<lambda>acc b. 2 * acc + of_bool b) (of_bool b) bs
        = of_bool b * 2 ^ length bs + foldl (\<lambda>acc b. (2::nat) * acc + of_bool b) 0 bs"
    by (rule Cons.IH)
  ultimately show ?case by (simp add: algebra_simps)
qed

lemma bits_to_nat_Nil [simp, bits_simps]: "bits_to_nat [] = 0"
  by (simp add: bits_to_nat_def)

lemma bits_to_nat_Cons [bits_simps]:
  "bits_to_nat (b # bs) = of_bool b * 2 ^ length bs + bits_to_nat bs"
  using foldl_bits_acc [of "of_bool b" bs] by (simp add: bits_to_nat_def)

lemma bits_to_nat_append [bits_simps]:
  "bits_to_nat (xs @ ys) = bits_to_nat xs * 2 ^ length ys + bits_to_nat ys"
  using foldl_bits_acc [of "bits_to_nat xs" ys] by (simp add: bits_to_nat_def)

lemma bits_to_nat_less: "bits_to_nat bs < 2 ^ length bs"
proof (induction bs)
  case Nil
  then show ?case by simp
next
  case (Cons b bs)
  then show ?case by (cases b) (simp_all add: bits_to_nat_Cons)
qed

lemma bits_to_nat_replicate_False [simp, bits_simps]:
  "bits_to_nat (replicate k False @ bs) = bits_to_nat bs"
  by (induction k) (simp_all add: bits_to_nat_Cons)

lemma bits_to_nat_inj:
  "length xs = length ys \<Longrightarrow> bits_to_nat xs = bits_to_nat ys \<Longrightarrow> xs = ys"
proof (induction xs ys rule: list_induct2)
  case Nil
  then show ?case by simp
next
  case (Cons x xs y ys)
  have lx: "bits_to_nat xs < 2 ^ length xs" and ly: "bits_to_nat ys < 2 ^ length xs"
    using bits_to_nat_less [of xs] bits_to_nat_less [of ys] Cons.hyps by simp_all
  have "x = y"
    using Cons.prems Cons.hyps lx ly by (cases x; cases y) (simp_all add: bits_to_nat_Cons)
  with Cons show ?case by (simp add: bits_to_nat_Cons)
qed

lemma bin_digits_not_Nil [simp]: "bin_digits n \<noteq> []"
  by (subst bin_digits.simps) simp

lemma bits_to_nat_bin_digits [simp, bits_simps]: "bits_to_nat (bin_digits n) = n"
proof (induction n rule: bin_digits.induct)
  case (1 n)
  have "n div 2 * 2 + of_bool (odd n) = n"
    by (auto elim!: evenE oddE)
  with "1" show ?case
    by (subst bin_digits.simps) (auto simp: bits_to_nat_append bits_to_nat_Cons)
qed

lemma length_bin_digits_le: "n < 2 ^ w \<Longrightarrow> 0 < w \<Longrightarrow> length (bin_digits n) \<le> w"
proof (induction n arbitrary: w rule: bin_digits.induct)
  case (1 n)
  show ?case
  proof (cases "n < 2")
    case True
    with "1.prems" show ?thesis by (subst bin_digits.simps) simp
  next
    case False
    have w: "2 \<le> w"
    proof (rule ccontr)
      assume "\<not> 2 \<le> w"
      with "1.prems" have "w = 1" by simp
      with "1.prems" False show False by simp
    qed
    with "1.prems" have "n div 2 < 2 ^ (w - 1)"
      by (cases w) (auto simp: div_less_iff_less_mult)
    with False w "1.IH" have "length (bin_digits (n div 2)) \<le> w - 1"
      by simp
    with False w show ?thesis by (subst bin_digits.simps) simp
  qed
qed

lemma bits_to_nat_format_bin [simp, bits_simps]: "bits_to_nat (format_bin w v) = v"
  by (simp add: format_bin_def)

lemma length_format_bin: "v < 2 ^ w \<Longrightarrow> 0 < w \<Longrightarrow> length (format_bin w v) = w"
  using length_bin_digits_le [of v w] by (simp add: format_bin_def)

lemma format_bin_bits_to_nat [simp, bits_simps]:
  assumes "bs \<noteq> []"
  shows "format_bin (length bs) (bits_to_nat bs) = bs"
proof (rule bits_to_nat_inj)
  show "length (format_bin (length bs) (bits_to_nat bs)) = length bs"
    using assms by (simp add: length_format_bin bits_to_nat_less)
qed simp

lemma py_int_base2_Cons [simp, bits_simps]: "py_int_base2 (b # bs) = Inr (bits_to_nat (b # bs))"
  by (simp add: py_int_base2_def)

section \<open>Bit masks on integers and bytes\<close>

lemma int_and_not_mask: "(c::int) AND NOT (mask k) = push_bit k (drop_bit k c)"
  by (rule bit_eqI) (auto simp: bit_simps)

lemma int_push_bit_or_small:
  assumes "0 \<le> v" "(v::int) < 2 ^ k"
  shows "push_bit k a OR v = push_bit k a + v"
proof -
  have tv: "take_bit k v = v" using assms by (simp add: take_bit_int_eq_self_iff)
  have lo: "\<And>n. bit v n \<Longrightarrow> n < k"
  proof -
    fix n assume "bit v n"
    then have "bit (take_bit k v) n" by (simp add: tv)
    then show "n < k" by (simp add: bit_take_bit_iff)
  qed
  have "push_bit k a AND v = 0"
    by (rule bit_eqI) (auto simp: bit_and_iff bit_push_bit_iff dest: lo)
  then show ?thesis
    by (rule disjunctive_add_eq_or [symmetric])
qed

text \<open>Clearing the low \<open>k\<close> bits and or-ing in a \<open>k\<close>-bit value, on Python integers.\<close>

lemma set_low_bits_int:
  assumes "0 \<le> v" "v < 2 ^ k"
  shows "(c AND NOT (2 ^ k - 1)) OR v = (c div 2 ^ k) * 2 ^ k + (v::int)"
proof -
  have "(c AND NOT (2 ^ k - 1)) OR v = push_bit k (drop_bit k c) OR v"
    by (simp add: int_and_not_mask flip: mask_eq_exp_minus_1)
  also have "\<dots> = push_bit k (drop_bit k c) + v"
    using assms by (rule int_push_bit_or_small)
  finally show ?thesis
    by (simp add: push_bit_eq_mult drop_bit_eq_div)
qed

text \<open>The same, stored back into a byte: for \<open>k \<le> 8\<close> nothing wraps.\<close>

lemma unat_set_low_bits:
  fixes cur :: u8
  assumes "k \<le> 8" "v < 2 ^ k"
  shows "unat (word_of_int ((uint cur AND NOT (2 ^ k - 1)) OR int v) :: u8)
         = unat cur div 2 ^ k * 2 ^ k + v"
proof -
  let ?c = "unat cur"
  have "(uint cur AND NOT (2 ^ k - 1)) OR int v = (uint cur div 2 ^ k) * 2 ^ k + int v"
    using assms by (simp add: set_low_bits_int)
  also have "\<dots> = int (?c div 2 ^ k * 2 ^ k + v)"
    by (simp add: zdiv_int)
  finally have r: "(uint cur AND NOT (2 ^ k - 1)) OR int v = int (?c div 2 ^ k * 2 ^ k + v)" .
  have "?c < 2 ^ 8" using unsigned_less [of cur, where ?'a = nat] by simp
  then have "?c div 2 ^ k < 2 ^ (8 - k)"
    using assms(1) by (simp add: div_less_iff_less_mult flip: power_add)
  then have "?c div 2 ^ k + 1 \<le> 2 ^ (8 - k)" by simp
  then have "(?c div 2 ^ k + 1) * 2 ^ k \<le> 2 ^ (8 - k) * 2 ^ k" by (rule mult_right_mono) simp
  then have b: "?c div 2 ^ k * 2 ^ k + v < 2 ^ 8"
    using assms by (simp add: algebra_simps flip: power_add)
  have "unat (word_of_nat (?c div 2 ^ k * 2 ^ k + v) :: u8) = ?c div 2 ^ k * 2 ^ k + v"
    using b by (subst unat_of_nat) simp
  then show ?thesis by (simp only: r of_int_of_nat_eq)
qed

lemma nat_and_low_mask: "(a::nat) AND (2 ^ n - 1) = a mod 2 ^ n"
  by (simp add: take_bit_eq_mod [symmetric] take_bit_eq_mask mask_eq_exp_minus_1)

end
