(* ===== verification/Py_Builtins.thy ===== *)
theory Py_Builtins
  imports Stego_Prelude
begin

text \<open>
  The Python string builtins the two GUIs apply to what the user types and to the
  paths the file dialogs return: \<open>str.strip()\<close>, \<open>str.isdigit()\<close>, \<open>int(s)\<close> in
  base 10, \<open>str.split(sep)\<close> with a one-character separator, and
  \<open>os.path.basename\<close>.  A Tk entry holds a Python \<open>str\<close>; the model's strings are
  lists of 8-bit characters, i.e. the Latin-1 part of Unicode, and the character
  classes below are Python's on that range.  The lemmas give what the GUI
  validation relies on: \<open>strip\<close> is idempotent and leaves no surrounding white
  space, and the decimal rendering of a number is a digit string that \<open>int\<close>
  parses back to it.
\<close>

section \<open>Character classes\<close>

text \<open>\<open>str.isspace\<close> on Latin-1: tab to carriage return, the four separators
  \<open>\x1c\<close>..\<open>\x1f\<close>, space, NEL (\<open>\x85\<close>) and no-break space (\<open>\xa0\<close>).\<close>

definition py_isspace :: "char \<Rightarrow> bool" where
  "py_isspace c \<longleftrightarrow>
     (let n = of_char c :: nat in (9 \<le> n \<and> n \<le> 13) \<or> (28 \<le> n \<and> n \<le> 32) \<or> n = 133 \<or> n = 160)"

text \<open>A decimal digit (Unicode category Nd): on Latin-1 only \<open>0\<close>..\<open>9\<close>.\<close>

definition py_isdecimal :: "char \<Rightarrow> bool" where
  "py_isdecimal c \<longleftrightarrow> (let n = of_char c :: nat in 48 \<le> n \<and> n \<le> 57)"

text \<open>\<open>str.isdigit\<close> also accepts the superscripts \<open>\<^sup>2\<close>, \<open>\<^sup>3\<close> and \<open>\<^sup>1\<close> (U+00B2, U+00B3, U+00B9).\<close>

definition py_isdigit_char :: "char \<Rightarrow> bool" where
  "py_isdigit_char c \<longleftrightarrow> py_isdecimal c \<or> (let n = of_char c :: nat in n = 178 \<or> n = 179 \<or> n = 185)"

definition py_isdigit :: "string \<Rightarrow> bool" where
  "py_isdigit s \<longleftrightarrow> s \<noteq> [] \<and> list_all py_isdigit_char s"

section \<open>strip\<close>

definition py_strip :: "string \<Rightarrow> string" where
  "py_strip s = rev (dropWhile py_isspace (rev (dropWhile py_isspace s)))"

section \<open>int(s) in base 10\<close>

text \<open>
  The digits of a literal: decimal digits with single underscores between them.
  Their value ignores the underscores.
\<close>

fun no_double_underscore :: "string \<Rightarrow> bool" where
  "no_double_underscore (a # b # r) \<longleftrightarrow>
     \<not> (a = CHR ''_'' \<and> b = CHR ''_'') \<and> no_double_underscore (b # r)"
| "no_double_underscore _ \<longleftrightarrow> True"

definition dec_literal :: "string \<Rightarrow> bool" where
  "dec_literal r \<longleftrightarrow>
     r \<noteq> [] \<and> py_isdecimal (hd r) \<and> py_isdecimal (last r) \<and>
     list_all (\<lambda>c. py_isdecimal c \<or> c = CHR ''_'') r \<and> no_double_underscore r"

definition dec_value :: "string \<Rightarrow> nat" where
  "dec_value r = foldl (\<lambda>acc c. if c = CHR ''_'' then acc else 10 * acc + (of_char c - 48)) 0 r"

text \<open>
  \<open>int(s)\<close>: surrounding white space is ignored, one sign may precede the digits,
  anything else raises \<open>ValueError: invalid literal for int() with base 10\<close>.
\<close>

definition py_int :: "string \<Rightarrow> py_error + int" where
  "py_int s =
     (case py_strip s of
        [] \<Rightarrow> Inl (IntLiteral s)
      | c # r \<Rightarrow>
          if c = CHR ''-'' then (if dec_literal r then Inr (- int (dec_value r)) else Inl (IntLiteral s))
          else if c = CHR ''+'' then (if dec_literal r then Inr (int (dec_value r)) else Inl (IntLiteral s))
          else if dec_literal (c # r) then Inr (int (dec_value (c # r))) else Inl (IntLiteral s))"

section \<open>split and basename\<close>

text \<open>\<open>s.split(sep)\<close> for a one-character separator: every occurrence splits.\<close>

fun py_split :: "char \<Rightarrow> string \<Rightarrow> string list" where
  "py_split sep [] = [[]]"
| "py_split sep (c # cs) =
     (if c = sep then [] # py_split sep cs
      else (case py_split sep cs of [] \<Rightarrow> [[c]] | w # ws \<Rightarrow> (c # w) # ws))"

text \<open>\<open>os.path.basename\<close> (POSIX): what follows the last slash.\<close>

definition py_basename :: "string \<Rightarrow> string" where
  "py_basename p = rev (takeWhile (\<lambda>c. c \<noteq> CHR ''/'') (rev p))"

section \<open>Decimal rendering\<close>

text \<open>\<open>str(n)\<close> for a natural number, the text a user types as a length.\<close>

fun dec_string :: "nat \<Rightarrow> string" where
  "dec_string n =
     (if n < 10 then [char_of (48 + n)] else dec_string (n div 10) @ [char_of (48 + n mod 10)])"

declare dec_string.simps [simp del]

section \<open>Lemmas\<close>

lemma dropWhile_twice: "dropWhile P (dropWhile P xs) = dropWhile P xs"
  by (induction xs) auto

lemma dropWhile_no_hd: "xs \<noteq> [] \<Longrightarrow> \<not> P (hd xs) \<Longrightarrow> dropWhile P xs = xs"
  by (cases xs) simp_all

lemma dropWhile_keeps_hd: "dropWhile P (a # xs) = a # xs \<Longrightarrow> \<not> P a"
proof
  assume d: "dropWhile P (a # xs) = a # xs" and "P a"
  then have "dropWhile P xs = a # xs" by simp
  then have "length (a # xs) \<le> length xs" by (metis length_dropWhile_le)
  then show False by simp
qed

lemma rstrip_keeps_lstrip:
  assumes "dropWhile P t = t"
  shows "dropWhile P (rev (dropWhile P (rev t))) = rev (dropWhile P (rev t))"
proof (cases "rev (dropWhile P (rev t))")
  case (Cons a r)
  obtain u where u: "t = rev (dropWhile P (rev t)) @ u"
    using takeWhile_dropWhile_id [of P "rev t"] by (metis rev_append rev_rev_ident)
  with Cons have "dropWhile P (a # r @ u) = a # r @ u" using assms by simp
  then have "\<not> P a" by (rule dropWhile_keeps_hd)
  then show ?thesis using Cons by simp
next
  case Nil
  show ?thesis unfolding Nil by simp
qed

lemma py_strip_idem: "py_strip (py_strip s) = py_strip s"
proof -
  let ?t = "dropWhile py_isspace s"
  let ?v = "rev (dropWhile py_isspace (rev ?t))"
  have l: "dropWhile py_isspace ?v = ?v" by (rule rstrip_keeps_lstrip) (simp add: dropWhile_twice)
  have "dropWhile py_isspace (rev ?v) = dropWhile py_isspace (rev ?t)" by (simp add: dropWhile_twice)
  then show ?thesis using l by (simp add: py_strip_def)
qed

lemma digit_char_of:
  assumes "d < 10"
  shows "py_isdecimal (char_of (48 + d)) \<and> \<not> py_isspace (char_of (48 + d)) \<and>
         of_char (char_of (48 + d)) = (48 + d :: nat) \<and> char_of (48 + d) \<noteq> CHR ''_''"
proof -
  have o: "of_char (char_of (48 + d) :: char) = (48 + d :: nat)"
    using assms by (simp add: of_char_of)
  have "char_of (48 + d) \<noteq> CHR ''_''"
  proof
    assume "char_of (48 + d) = CHR ''_''"
    then have "of_char (char_of (48 + d) :: char) = (of_char CHR ''_'' :: nat)" by simp
    then show False using o assms by simp
  qed
  then show ?thesis using o assms by (simp add: py_isdecimal_def py_isspace_def)
qed

lemma dec_string_props:
  "dec_string n \<noteq> [] \<and> list_all py_isdecimal (dec_string n) \<and>
   list_all (\<lambda>c. \<not> py_isspace c \<and> c \<noteq> CHR ''_'') (dec_string n) \<and> dec_value (dec_string n) = n"
proof (induction n rule: dec_string.induct)
  case (1 n)
  show ?case
  proof (cases "n < 10")
    case True
    then show ?thesis using digit_char_of [OF True]
      by (simp add: dec_string.simps [of n] dec_value_def)
  next
    case False
    have m: "n mod 10 < 10" by simp
    have "dec_value (dec_string (n div 10) @ [char_of (48 + n mod 10)]) = 10 * (n div 10) + n mod 10"
      using "1.IH" [OF False] digit_char_of [OF m] by (simp add: dec_value_def)
    then show ?thesis using "1.IH" [OF False] digit_char_of [OF m] False
      by (simp add: dec_string.simps [of n])
  qed
qed

lemma no_double_underscore_free: "list_all (\<lambda>c. c \<noteq> CHR ''_'') r \<Longrightarrow> no_double_underscore r"
  by (induction r rule: no_double_underscore.induct) auto

lemma py_strip_no_space:
  assumes "s \<noteq> []" "\<not> py_isspace (hd s)" "\<not> py_isspace (last s)"
  shows "py_strip s = s"
proof -
  have l: "dropWhile py_isspace s = s" using assms(1,2) by (rule dropWhile_no_hd)
  have "rev s \<noteq> [] \<and> hd (rev s) = last s" using assms(1) by (simp add: hd_rev)
  then have "dropWhile py_isspace (rev s) = rev s" using assms(3) by (intro dropWhile_no_hd) simp_all
  then show ?thesis using l by (simp add: py_strip_def)
qed

lemma dec_string_literal:
  "dec_literal (dec_string n) \<and> \<not> py_isspace (hd (dec_string n)) \<and> \<not> py_isspace (last (dec_string n)) \<and>
   py_isdecimal (hd (dec_string n)) \<and> py_isdigit (dec_string n) \<and> CHR ''x'' \<notin> set (dec_string n)"
proof -
  let ?s = "dec_string n"
  have ne: "?s \<noteq> []" and dec: "\<forall>c \<in> set ?s. py_isdecimal c"
    and ns: "\<forall>c \<in> set ?s. \<not> py_isspace c \<and> c \<noteq> CHR ''_''"
    using dec_string_props [of n] by (simp_all add: list_all_iff)
  have hd_in: "hd ?s \<in> set ?s" and last_in: "last ?s \<in> set ?s" using ne by simp_all
  have "no_double_underscore ?s" using ns by (intro no_double_underscore_free) (simp add: list_all_iff)
  moreover have "list_all (\<lambda>c. py_isdecimal c \<or> c = CHR ''_'') ?s" using dec by (simp add: list_all_iff)
  ultimately have lit: "dec_literal ?s"
    unfolding dec_literal_def using ne dec hd_in last_in by blast
  have "\<not> py_isdecimal CHR ''x''" by (simp add: py_isdecimal_def)
  then have "CHR ''x'' \<notin> set ?s" using dec by blast
  moreover have "py_isdigit ?s"
    using ne dec by (simp add: py_isdigit_def py_isdigit_char_def list_all_iff)
  ultimately show ?thesis using lit ns dec hd_in last_in by blast
qed

text \<open>The decimal rendering of \<open>n\<close> passes \<open>isdigit\<close> and \<open>int\<close> reads it back as \<open>n\<close>; with a
  minus sign in front, as \<open>-n\<close>.\<close>

lemma py_int_dec_string:
  "py_strip (dec_string n) = dec_string n \<and> py_isdigit (dec_string n) \<and> py_int (dec_string n) = Inr (int n)"
proof -
  let ?s = "dec_string n"
  have ne: "?s \<noteq> []" and v: "dec_value ?s = n" using dec_string_props [of n] by simp_all
  have lit: "dec_literal ?s" and e: "\<not> py_isspace (hd ?s)" "\<not> py_isspace (last ?s)"
    and d: "py_isdecimal (hd ?s)" and dg: "py_isdigit ?s"
    using dec_string_literal [of n] by simp_all
  have strip: "py_strip ?s = ?s" using ne e by (rule py_strip_no_space)
  have sign: "hd ?s \<noteq> CHR ''-'' \<and> hd ?s \<noteq> CHR ''+''" using d by (auto simp: py_isdecimal_def)
  have "py_int ?s = Inr (int n)"
    using strip lit sign v ne unfolding py_int_def by (cases ?s) simp_all
  then show ?thesis using strip dg by simp
qed

lemma py_int_neg_dec_string:
  "py_strip (CHR ''-'' # dec_string n) = CHR ''-'' # dec_string n \<and> py_int (CHR ''-'' # dec_string n) = Inr (- int n)"
proof -
  let ?s = "dec_string n"
  have ne: "?s \<noteq> []" and v: "dec_value ?s = n" using dec_string_props [of n] by simp_all
  have lit: "dec_literal ?s" and e: "\<not> py_isspace (last ?s)" using dec_string_literal [of n] by simp_all
  have m: "\<not> py_isspace CHR ''-''" by (simp add: py_isspace_def)
  have strip: "py_strip (CHR ''-'' # ?s) = CHR ''-'' # ?s" using ne e m by (intro py_strip_no_space) simp_all
  then show ?thesis using lit v by (simp add: py_int_def)
qed

lemma py_split_ne: "py_split sep s \<noteq> []"
  by (induction s) (auto split: list.split)

lemma py_split_no_sep: "sep \<notin> set a \<Longrightarrow> py_split sep a = [a]"
  by (induction a) auto

lemma py_split_append: "sep \<notin> set a \<Longrightarrow> py_split sep (a @ sep # b) = a # py_split sep b"
  by (induction a) (auto split: list.split)

end
