(* ===== verification/Stego_Pixels.thy ===== *)
theory Stego_Pixels
  imports Stego_Prelude
begin

text \<open>
  The state both engines share: the configuration of \<open>EdgeDetectStego\<close>
  (\<open>__init__\<close>), the pixel array \<open>np.array(img)\<close> with its shape, and the two
  per-channel operations \<open>embed_bits\<close> and \<open>extract_bits\<close>, which are identical in
  \<open>text_steganography.py\<close> and \<open>image_steganography.py\<close>.  The lemmas say how a
  write changes the array (only the addressed channel, only its low bits) and what
  a read returns after a write: the written bits when the read is as wide as the
  write, and stale carrier bits in front of them when it is wider.
\<close>

unbundle bit_operations_syntax

section \<open>Configuration\<close>

record config =
  threshold :: int
  edge_bits :: nat
  non_edge_bits :: nat
  block_width :: nat
  block_height :: nat

text \<open>The constructor defaults, the same in both source files.\<close>

definition default_config :: config where
  "default_config =
     \<lparr>threshold = 128, edge_bits = 4, non_edge_bits = 1, block_width = 3, block_height = 3\<rparr>"

text \<open>
  The parameter ranges of the specification (section 3): both bit depths in
  \<open>1..8\<close>, positive block dimensions.  The code does not check them.
\<close>

definition valid_config :: "config \<Rightarrow> bool" where
  "valid_config c \<longleftrightarrow>
     1 \<le> edge_bits c \<and> edge_bits c \<le> 8 \<and> 1 \<le> non_edge_bits c \<and> non_edge_bits c \<le> 8 \<and>
     0 < block_width c \<and> 0 < block_height c"

lemma valid_default_config: "valid_config default_config"
  by (simp add: valid_config_def default_config_def)

section \<open>The pixel array\<close>

text \<open>\<open>pixels.shape[0]\<close> and \<open>pixels.shape[1]\<close>; \<open>img.size\<close> is \<open>(width, height)\<close>.\<close>

definition img_height :: "pixels \<Rightarrow> nat" where
  "img_height px = length px"

definition img_width :: "pixels \<Rightarrow> nat" where
  "img_width px = (case px of [] \<Rightarrow> 0 | row # _ \<Rightarrow> length row)"

text \<open>A rectangular array with three channels per pixel, as \<open>np.array\<close> of an RGB image.\<close>

definition wf_pixels :: "pixels \<Rightarrow> bool" where
  "wf_pixels px \<longleftrightarrow> (\<forall>row \<in> set px. length row = img_width px \<and> (\<forall>p \<in> set row. length p = 3))"

text \<open>\<open>pixels[y, x, channel]\<close> and \<open>pixels[y, x, channel] = v\<close>.\<close>

definition chan :: "pixels \<Rightarrow> nat \<Rightarrow> nat \<Rightarrow> nat \<Rightarrow> u8" where
  "chan px x y c = px ! y ! x ! c"

definition set_chan :: "pixels \<Rightarrow> nat \<Rightarrow> nat \<Rightarrow> nat \<Rightarrow> u8 \<Rightarrow> pixels" where
  "set_chan px x y c v = px[y := (px ! y)[x := (px ! y ! x)[c := v]]]"

section \<open>Writing and reading the low bits of one channel\<close>

text \<open>
  \<open>embed_bits\<close>: \<open>int(bits, 2)\<close> raises on an empty slice; the mask is
  \<open>(1 << len(bits)) - 1\<close>, so a short final slice clears and sets only as many bits
  as it has.  The arithmetic is Python integer arithmetic on the channel value and
  the result is stored back into the \<open>uint8\<close> array.
\<close>

definition embed_bits :: "pixels \<Rightarrow> nat \<Rightarrow> nat \<Rightarrow> bitstr \<Rightarrow> nat \<Rightarrow> py_error + pixels" where
  "embed_bits px x y bits channel =
     (let current_value = chan px x y channel in
      case py_int_base2 bits of
        Inl e \<Rightarrow> Inl e
      | Inr bits_value \<Rightarrow>
          let mask = push_bit (length bits) 1 - (1::int);
              new_value = (uint current_value AND NOT mask) OR int bits_value
          in Inr (set_chan px x y channel (word_of_int new_value)))"

text \<open>\<open>extract_bits\<close>: the low \<open>num_bits\<close> bits, formatted with \<open>f"{value:0{num_bits}b}"\<close>.\<close>

definition extract_bits :: "pixels \<Rightarrow> nat \<Rightarrow> nat \<Rightarrow> nat \<Rightarrow> nat \<Rightarrow> bitstr" where
  "extract_bits px x y num_bits channel =
     (let value = unat (chan px x y channel) AND (push_bit num_bits 1 - 1)
      in format_bin num_bits value)"

section \<open>Shape of the array under writes\<close>

lemma wf_pixels_nth:
  "wf_pixels px \<longleftrightarrow>
     (\<forall>y < length px. length (px ! y) = img_width px \<and> (\<forall>x < length (px ! y). length (px ! y ! x) = 3))"
  by (auto simp: wf_pixels_def all_set_conv_all_nth)

lemma length_set_chan [simp]: "length (set_chan px x y c v) = length px"
  by (simp add: set_chan_def)

lemma img_height_set_chan [simp]: "img_height (set_chan px x y c v) = img_height px"
  by (simp add: img_height_def)

lemma img_width_set_chan [simp]:
  "wf_pixels px \<Longrightarrow> img_width (set_chan px x y c v) = img_width px"
  by (cases px; cases y) (auto simp: img_width_def set_chan_def wf_pixels_def)

lemma wf_set_chan [simp]:
  assumes "wf_pixels px"
  shows "wf_pixels (set_chan px x y c v)"
proof -
  have W: "img_width (set_chan px x y c v) = img_width px"
    using assms by simp
  show ?thesis
    using assms unfolding wf_pixels_nth W by (auto simp: set_chan_def nth_list_update_if)
qed

lemma chan_set_chan_same:
  assumes "wf_pixels px" "x < img_width px" "y < img_height px" "c < 3"
  shows "chan (set_chan px x y c v) x y c = v"
proof -
  have "length (px ! y) = img_width px" "length (px ! y ! x) = 3"
    using assms by (auto simp: wf_pixels_nth img_height_def)
  with assms show ?thesis by (simp add: chan_def set_chan_def img_height_def)
qed

lemma chan_set_chan_other:
  assumes "(x', y', c') \<noteq> (x, y, c)"
  shows "chan (set_chan px x y c v) x' y' c' = chan px x' y' c'"
  using assms by (auto simp: chan_def set_chan_def nth_list_update_if)

lemmas chan_set_chan = chan_set_chan_same chan_set_chan_other

section \<open>Behaviour of embed_bits and extract_bits\<close>

lemma embed_bits_Nil: "embed_bits px x y [] c = Inl EmptyBinLiteral"
  by (simp add: embed_bits_def py_int_base2_def)

lemma embed_bits_Cons:
  "bits \<noteq> [] \<Longrightarrow> embed_bits px x y bits c =
     Inr (set_chan px x y c (word_of_int ((uint (chan px x y c) AND NOT (2 ^ length bits - 1))
                                            OR int (bits_to_nat bits))))"
  by (simp add: embed_bits_def py_int_base2_def Let_def push_bit_eq_mult)

lemma unat_embedded_value:
  fixes cur :: u8
  assumes "length bits \<le> 8"
  shows "unat (word_of_int ((uint cur AND NOT (2 ^ length bits - 1)) OR int (bits_to_nat bits)) :: u8)
         = unat cur div 2 ^ length bits * 2 ^ length bits + bits_to_nat bits"
  using assms bits_to_nat_less [of bits] by (rule unat_set_low_bits)

lemma extract_bits_eq: "extract_bits px x y n c = format_bin n (unat (chan px x y c) mod 2 ^ n)"
  unfolding extract_bits_def Let_def push_bit_of_1 nat_and_low_mask ..

text \<open>Reading as many bits as were written gives them back.\<close>

lemma extract_embed_bits_same:
  assumes "wf_pixels px" "x < img_width px" "y < img_height px" "c < 3"
    and "bits \<noteq> []" "length bits \<le> 8"
    and "embed_bits px x y bits c = Inr px'"
  shows "extract_bits px' x y (length bits) c = bits"
proof -
  let ?k = "length bits"
  from assms(5,7) have px': "px' = set_chan px x y c (word_of_int ((uint (chan px x y c)
             AND NOT (2 ^ ?k - 1)) OR int (bits_to_nat bits)))"
    by (simp add: embed_bits_Cons)
  have "unat (chan px' x y c) = unat (chan px x y c) div 2 ^ ?k * 2 ^ ?k + bits_to_nat bits"
    using assms(1-4,6) by (simp add: px' chan_set_chan_same unat_embedded_value)
  then have "unat (chan px' x y c) mod 2 ^ ?k = bits_to_nat bits"
    using bits_to_nat_less [of bits] by simp
  with assms(5) show ?thesis by (simp add: extract_bits_eq)
qed

text \<open>A write touches only the addressed channel.\<close>

lemma embed_bits_other:
  assumes "embed_bits px x y bits c = Inr px'" "(x', y', c') \<noteq> (x, y, c)"
  shows "chan px' x' y' c' = chan px x' y' c'"
  using assms by (cases bits) (auto simp: embed_bits_Nil embed_bits_Cons chan_set_chan_other)

lemma embed_bits_wf:
  "embed_bits px x y bits c = Inr px' \<Longrightarrow> wf_pixels px \<Longrightarrow> wf_pixels px'"
  by (cases bits) (auto simp: embed_bits_Nil embed_bits_Cons)

lemma embed_bits_shape:
  "embed_bits px x y bits c = Inr px' \<Longrightarrow> wf_pixels px \<Longrightarrow>
     img_width px' = img_width px \<and> img_height px' = img_height px"
  by (cases bits) (auto simp: embed_bits_Nil embed_bits_Cons)

text \<open>A write of at most \<open>D\<close> bits leaves every channel's bits above the lowest \<open>D\<close> unchanged.\<close>

lemma div_low_bits:
  assumes "b < 2 ^ k" "k \<le> D"
  shows "(a div 2 ^ k * 2 ^ k + b) div 2 ^ D = (a :: nat) div 2 ^ D"
proof -
  have e: "(a div 2 ^ k * 2 ^ k + b) div 2 ^ k = a div 2 ^ k" using assms(1) by simp
  have d: "k + (D - k) = D" using assms(2) by simp
  have "(a div 2 ^ k * 2 ^ k + b) div 2 ^ D = (a div 2 ^ k * 2 ^ k + b) div 2 ^ k div 2 ^ (D - k)"
    by (simp only: div_exp_eq d)
  also have "\<dots> = a div 2 ^ k div 2 ^ (D - k)" by (simp only: e)
  also have "\<dots> = a div 2 ^ D" by (simp only: div_exp_eq d)
  finally show ?thesis .
qed

lemma embed_bits_high_bits:
  assumes "embed_bits px x y bits c = Inr px'" "wf_pixels px" "x < img_width px" "y < img_height px" "c < 3"
    and "length bits \<le> D" "D \<le> 8"
  shows "unat (chan px' x' y' c') div 2 ^ D = unat (chan px x' y' c') div 2 ^ D"
proof (cases "(x', y', c') = (x, y, c)")
  case False
  then show ?thesis using embed_bits_other [OF assms(1) False] by simp
next
  case True
  have ne: "bits \<noteq> []" using assms(1) by (cases bits) (auto simp: embed_bits_Nil)
  let ?k = "length bits"
  from assms(1) ne have px': "px' = set_chan px x y c (word_of_int ((uint (chan px x y c)
             AND NOT (2 ^ ?k - 1)) OR int (bits_to_nat bits)))"
    by (simp add: embed_bits_Cons)
  have "unat (chan px' x y c) = unat (chan px x y c) div 2 ^ ?k * 2 ^ ?k + bits_to_nat bits"
    using assms(2-7) by (simp add: px' chan_set_chan_same unat_embedded_value)
  then show ?thesis using True div_low_bits [OF bits_to_nat_less assms(6)] by simp
qed

lemma embed_bits_Inl: "embed_bits px x y bits c = Inl e \<Longrightarrow> e = EmptyBinLiteral"
  by (cases bits) (simp_all add: embed_bits_Nil embed_bits_Cons)

end
