(* ===== verification/Gui_Common.thy ===== *)
theory Gui_Common
  imports Py_Builtins Stego_Pixels
begin

text \<open>
  What the two Tk front ends share: the texts their labels show, and the file
  system as the workers see it.  A label's text is one of the f-strings of the
  source, modelled by a constructor per f-string with its arguments.  The file
  system is a map from paths to the RGB arrays \<open>np.array(Image.open(p).convert("RGB"))\<close>
  reads from them; \<open>save\<close> stores an array under a path.  \<open>Image.open\<close> of a path
  that holds no image raises, which the workers catch and show.
\<close>

section \<open>Label texts\<close>

text \<open>A file label: \<open>"No file selected"\<close> (and its variants) or \<open>f"Selected: {os.path.basename(file_path)}"\<close>.\<close>

datatype file_label = NoFileSelected | SelectedFile string

text \<open>
  A status label: \<open>""\<close>, \<open>"Encoding in progress..."\<close>,
  \<open>f"Encoding successful! Saved to: {save_path}"\<close>, \<open>f"Error: {e}"\<close>,
  \<open>"Decoding in progress..."\<close>, \<open>f"Decoded Message: {message}"\<close> and
  \<open>f"Decoding successful! Saved to: {save_path}"\<close>.
\<close>

datatype status_text = StatusBlank | EncodingInProgress | EncodingSaved string | StatusError py_error
  | DecodingInProgress | DecodedMessage "nat list" | DecodingSaved string

section \<open>Files\<close>

type_synonym file_store = "string \<Rightarrow> pixels option"

definition load_image :: "file_store \<Rightarrow> string \<Rightarrow> py_error + pixels" where
  "load_image files path = (case files path of None \<Rightarrow> Inl (FileNotFound path) | Some px \<Rightarrow> Inr px)"

text \<open>\<open>os.path.join("assets", "encrypted_image.png")\<close> and the extracted image's path.\<close>

definition encrypted_save_path :: string where
  "encrypted_save_path = ''assets/encrypted_image.png''"

definition extracted_save_path :: string where
  "extracted_save_path = ''assets/extracted_image.png''"

text \<open>Selecting a file: \<open>if file_path:\<close> an empty result means the dialog was cancelled.\<close>

definition selected_label :: "string \<Rightarrow> file_label" where
  "selected_label file_path = (if file_path \<noteq> [] then SelectedFile (py_basename file_path) else NoFileSelected)"

text \<open>A finished thread leaves the list of pending ones: \<open>xs.pop(i)\<close>.\<close>

definition remove_job :: "nat \<Rightarrow> 'a list \<Rightarrow> 'a list" where
  "remove_job i xs = take i xs @ drop (Suc i) xs"

text \<open>
  What the handlers keep true of a path attribute and its label: a stored path is
  never empty (\<open>if file_path:\<close> guards every assignment), and a label that names
  a file names the basename of the stored path.
\<close>

text \<open>A status label that shows an \<open>AttributeError\<close>.\<close>

fun attribute_error :: "status_text \<Rightarrow> bool" where
  "attribute_error (StatusError (AttributeMissing a)) = True"
| "attribute_error _ = False"

definition path_ok :: "string option \<Rightarrow> bool" where
  "path_ok p \<longleftrightarrow> p \<noteq> Some []"

definition label_names :: "file_label \<Rightarrow> string option \<Rightarrow> bool" where
  "label_names l p \<longleftrightarrow>
     (case l of NoFileSelected \<Rightarrow> True
      | SelectedFile b \<Rightarrow> (case p of None \<Rightarrow> False | Some q \<Rightarrow> b = py_basename q))"

lemma selected_label_names [simp]:
  "label_names (selected_label p) (Some p)" "label_names NoFileSelected q"
  by (simp_all add: selected_label_def label_names_def)

lemma path_ok_simps [simp]: "path_ok None" "path_ok (Some p) \<longleftrightarrow> p \<noteq> []"
  by (simp_all add: path_ok_def)

lemma remove_job_subset: "set (remove_job i xs) \<subseteq> set xs"
  by (auto simp: remove_job_def dest: in_set_takeD in_set_dropD)

lemma remove_job_0 [simp]: "remove_job 0 (x # xs) = xs"
  by (simp add: remove_job_def)

end
