(* ===== verification/Edge_Classifier.thy ===== *)
theory Edge_Classifier
  imports Complex_Main Stego_Pixels
begin

text \<open>
  The capacity classifier \<open>is_edge_block\<close> of both source files.  The gradients are
  computed by \<open>numpy\<close> on \<open>uint8\<close> slices of the red plane, so the differences,
  their squares (\<open>gx**2\<close>) and their sum all wrap modulo 256 before \<open>np.sqrt\<close>;
  the model keeps them as 8-bit words.  The comparison \<open>np.sqrt(m) > threshold\<close>
  is modelled on integers and shown equal to the comparison on real numbers.
  The lemmas show what the classifier reads (only the red channel of the block and
  of its one-pixel look-ahead, all inside the array) and what the wrap-around does
  to it: no byte has a square root of 16 or more, so every threshold from 16 up,
  the default 128 among them, classifies every block as flat.
\<close>

section \<open>Gradients on the red plane\<close>

text \<open>\<open>gx = pixels[y, x+1, 0] - pixels[y, x, 0]\<close> and the like, element-wise on \<open>uint8\<close>.\<close>

definition grad_x :: "pixels \<Rightarrow> nat \<Rightarrow> nat \<Rightarrow> u8" where
  "grad_x px x y = chan px (x + 1) y 0 - chan px x y 0"

definition grad_y :: "pixels \<Rightarrow> nat \<Rightarrow> nat \<Rightarrow> u8" where
  "grad_y px x y = chan px x (y + 1) 0 - chan px x y 0"

text \<open>\<open>gx**2 + gy**2\<close>, still \<open>uint8\<close>.\<close>

definition grad_sq :: "pixels \<Rightarrow> nat \<Rightarrow> nat \<Rightarrow> u8" where
  "grad_sq px x y = grad_x px x y ^ 2 + grad_y px x y ^ 2"

text \<open>\<open>np.sqrt(m) > threshold\<close> for an integer threshold and a byte \<open>m\<close>.\<close>

definition sqrt_exceeds :: "int \<Rightarrow> u8 \<Rightarrow> bool" where
  "sqrt_exceeds t m \<longleftrightarrow> t < 0 \<or> t * t < int (unat m)"

section \<open>The classifier\<close>

text \<open>
  \<open>is_edge_block\<close> of \<open>text_steganography.py\<close>: a block whose footprint plus the
  look-ahead column and row does not fit in the array is flat; otherwise it is an
  edge block if any sample of the \<open>block_height \<times> block_width\<close> gradient array
  exceeds the threshold (\<open>np.any\<close>).
\<close>

definition is_edge_block :: "config \<Rightarrow> pixels \<Rightarrow> nat \<Rightarrow> nat \<Rightarrow> bool" where
  "is_edge_block cfg px x y =
     (if x + block_width cfg + 1 > img_width px \<or> y + block_height cfg + 1 > img_height px
      then False
      else list_ex (\<lambda>dy. list_ex (\<lambda>dx. sqrt_exceeds (threshold cfg) (grad_sq px (x + dx) (y + dy)))
                             [0..<block_width cfg])
             [0..<block_height cfg])"

text \<open>The copy in \<open>image_steganography.py\<close> writes its bounds guard with \<open>>=\<close>.\<close>

definition is_edge_block_img :: "config \<Rightarrow> pixels \<Rightarrow> nat \<Rightarrow> nat \<Rightarrow> bool" where
  "is_edge_block_img cfg px x y =
     (if x + block_width cfg \<ge> img_width px \<or> y + block_height cfg \<ge> img_height px
      then False
      else list_ex (\<lambda>dy. list_ex (\<lambda>dx. sqrt_exceeds (threshold cfg) (grad_sq px (x + dx) (y + dy)))
                             [0..<block_width cfg])
             [0..<block_height cfg])"

text \<open>The bit depth the engines take for the block at \<open>(x, y)\<close>.\<close>

definition block_depth :: "config \<Rightarrow> pixels \<Rightarrow> nat \<Rightarrow> nat \<Rightarrow> nat" where
  "block_depth cfg px x y = (if is_edge_block cfg px x y then edge_bits cfg else non_edge_bits cfg)"

section \<open>The comparison against the threshold\<close>

text \<open>A byte's square root never exceeds 15, so no threshold from 16 up is exceeded.\<close>

lemma sqrt_exceeds_large_threshold:
  assumes "16 \<le> t"
  shows "\<not> sqrt_exceeds t m"
proof -
  have "int (unat m) < 256" using unsigned_less [of m, where ?'a = int] by simp
  moreover have "256 \<le> t * t" using assms mult_mono [of 16 t 16 t] by simp
  ultimately show ?thesis using assms unfolding sqrt_exceeds_def by linarith
qed

text \<open>Every threshold from 16 up classifies every block as flat.\<close>

lemma is_edge_block_high_threshold: "16 \<le> threshold cfg \<Longrightarrow> \<not> is_edge_block cfg px x y"
  by (simp add: is_edge_block_def sqrt_exceeds_large_threshold list_ex_iff)

lemma block_depth_high_threshold:
  "16 \<le> threshold cfg \<Longrightarrow> block_depth cfg px x y = non_edge_bits cfg"
  by (simp add: block_depth_def is_edge_block_high_threshold)

section \<open>Structure of the classifier\<close>

lemma is_edge_block_img_eq: "is_edge_block_img cfg px x y = is_edge_block cfg px x y"
  by (simp add: is_edge_block_img_def is_edge_block_def not_le Suc_le_eq)

lemma block_depth_cases: "block_depth cfg px x y \<in> {edge_bits cfg, non_edge_bits cfg}"
  by (simp add: block_depth_def)

lemma block_depth_valid:
  "valid_config cfg \<Longrightarrow> 1 \<le> block_depth cfg px x y \<and> block_depth cfg px x y \<le> 8"
  by (simp add: block_depth_def valid_config_def)

text \<open>The cells whose red value the classifier may read for the block at \<open>(x, y)\<close>.\<close>

definition footprint :: "config \<Rightarrow> nat \<Rightarrow> nat \<Rightarrow> (nat \<times> nat) set" where
  "footprint cfg x y = {x .. x + block_width cfg} \<times> {y .. y + block_height cfg}"

lemma grad_sq_local:
  assumes "\<forall>(i, j) \<in> {x .. x + 1} \<times> {y .. y + 1}. chan px' i j 0 = chan px i j 0"
  shows "grad_sq px' x y = grad_sq px x y"
  using assms by (simp add: grad_sq_def grad_x_def grad_y_def)

text \<open>
  The classifier reads the red channel of its footprint and nothing else, and only
  where the footprint lies inside the array: two arrays of the same shape that agree
  there are classified alike.
\<close>

lemma is_edge_block_local:
  assumes dims: "img_width px' = img_width px" "img_height px' = img_height px"
    and same: "\<forall>(i, j) \<in> footprint cfg x y. i < img_width px \<and> j < img_height px \<longrightarrow>
                  chan px' i j 0 = chan px i j 0"
  shows "is_edge_block cfg px' x y = is_edge_block cfg px x y"
proof (cases "x + block_width cfg + 1 > img_width px \<or> y + block_height cfg + 1 > img_height px")
  case True
  then show ?thesis using dims by (simp add: is_edge_block_def)
next
  case False
  have "grad_sq px' (x + dx) (y + dy) = grad_sq px (x + dx) (y + dy)"
    if "dx < block_width cfg" "dy < block_height cfg" for dx dy
  proof (rule grad_sq_local, intro ballI)
    fix c assume "c \<in> {x + dx .. x + dx + 1} \<times> {y + dy .. y + dy + 1}"
    with that False show "case c of (i, j) \<Rightarrow> chan px' i j 0 = chan px i j 0"
      using same by (auto simp: footprint_def)
  qed
  then show ?thesis using False dims
    by (simp add: is_edge_block_def list_ex_iff)
qed

end
