(* ===== verification/Block_Walker.thy ===== *)
theory Block_Walker
  imports Edge_Classifier
begin

text \<open>
  The traversal the embedder and the extractor share: block origins in row-major
  order (\<open>for y in range(0, height, block_height)\<close>, then \<open>for x in range(0,
  width, block_width)\<close>), inside a block the pixel offsets row by row, clipped to the
  array (\<open>if (x + dx < width) and (y + dy < height)\<close>), inside a pixel the channels
  R, G, B (\<open>for channel in range(3)\<close>).  The walk pairs every visited channel, a
  \<^emph>\<open>slot\<close>, with the bit depth of its block.  The lemmas show that the walk
  visits every channel of the array exactly once, that the blocks tile the array,
  and that a block's footprint is disjoint from every block visited before it.
\<close>

type_synonym slot = "nat \<times> nat \<times> nat"

section \<open>The traversal\<close>

definition block_origins :: "config \<Rightarrow> pixels \<Rightarrow> (nat \<times> nat) list" where
  "block_origins cfg px =
     concat (map (\<lambda>y. map (\<lambda>x. (x, y)) (range_list 0 (img_width px) (block_width cfg)))
                 (range_list 0 (img_height px) (block_height cfg)))"

definition block_pixels :: "config \<Rightarrow> nat \<Rightarrow> nat \<Rightarrow> nat \<Rightarrow> nat \<Rightarrow> (nat \<times> nat) list" where
  "block_pixels cfg W H x y =
     [(x + dx, y + dy). dy \<leftarrow> [0..<block_height cfg], dx \<leftarrow> [0..<block_width cfg],
                        x + dx < W \<and> y + dy < H]"

definition block_slots :: "config \<Rightarrow> nat \<Rightarrow> nat \<Rightarrow> nat \<Rightarrow> nat \<Rightarrow> slot list" where
  "block_slots cfg W H x y = [(i, j, c). (i, j) \<leftarrow> block_pixels cfg W H x y, c \<leftarrow> [0..<3]]"

definition walk :: "config \<Rightarrow> pixels \<Rightarrow> (nat \<Rightarrow> nat \<Rightarrow> nat) \<Rightarrow> (slot \<times> nat) list" where
  "walk cfg px depth =
     concat (map (\<lambda>(x, y). map (\<lambda>s. (s, depth x y)) (block_slots cfg (img_width px) (img_height px) x y))
                 (block_origins cfg px))"

text \<open>Row-major order of block origins.\<close>

definition before :: "nat \<times> nat \<Rightarrow> nat \<times> nat \<Rightarrow> bool" where
  "before a b \<longleftrightarrow> snd a < snd b \<or> (snd a = snd b \<and> fst a < fst b)"

section \<open>Blocks\<close>

lemma set_block_pixels:
  "set (block_pixels cfg W H x y) =
     {(i, j). x \<le> i \<and> i < x + block_width cfg \<and> y \<le> j \<and> j < y + block_height cfg \<and> i < W \<and> j < H}"
proof (intro set_eqI iffI)
  fix p assume "p \<in> set (block_pixels cfg W H x y)"
  then show "p \<in> {(i, j). x \<le> i \<and> i < x + block_width cfg \<and> y \<le> j \<and> j < y + block_height cfg \<and> i < W \<and> j < H}"
    by (auto simp: block_pixels_def)
next
  fix p assume "p \<in> {(i, j). x \<le> i \<and> i < x + block_width cfg \<and> y \<le> j \<and> j < y + block_height cfg \<and> i < W \<and> j < H}"
  then obtain i j where p: "p = (i, j)"
    and h: "x \<le> i" "i < x + block_width cfg" "y \<le> j" "j < y + block_height cfg" "i < W" "j < H"
    by auto
  show "p \<in> set (block_pixels cfg W H x y)"
    using h unfolding p block_pixels_def
    by simp (rule bexI [where x = "j - y"], auto intro!: bexI [where x = "i - x"])
qed

lemma distinct_block_pixels: "distinct (block_pixels cfg W H x y)"
  unfolding block_pixels_def
  by (rule distinct_concat_map_disjoint) (auto intro!: distinct_concat_map_disjoint)

lemma set_block_slots:
  "set (block_slots cfg W H x y) = {(i, j, c). (i, j) \<in> set (block_pixels cfg W H x y) \<and> c < 3}"
  by (auto simp: block_slots_def)

lemma distinct_block_slots: "distinct (block_slots cfg W H x y)"
  unfolding block_slots_def
  by (rule distinct_concat_map_disjoint) (auto simp: distinct_block_pixels distinct_map inj_on_def)

text \<open>A pixel lies in the block whose origin is its coordinates rounded down.\<close>

lemma block_base:
  fixes b :: nat
  assumes "x = k * b" "x \<le> i" "i < x + b"
  shows "x = i div b * b"
proof -
  have "0 < b" using assms by simp
  have "i div b = k"
    using assms by (intro div_nat_eqI) (simp_all add: mult.commute)
  then show ?thesis using assms(1) by simp
qed

lemma block_pixels_disjoint:
  assumes "\<exists>k. x = k * block_width cfg" "\<exists>k. y = k * block_height cfg"
    and "\<exists>k. x' = k * block_width cfg" "\<exists>k. y' = k * block_height cfg"
    and "(x, y) \<noteq> (x', y')"
  shows "set (block_pixels cfg W H x y) \<inter> set (block_pixels cfg W H x' y') = {}"
proof (rule ccontr)
  assume "set (block_pixels cfg W H x y) \<inter> set (block_pixels cfg W H x' y') \<noteq> {}"
  then obtain i j where
    "(i, j) \<in> set (block_pixels cfg W H x y)" "(i, j) \<in> set (block_pixels cfg W H x' y')"
    by auto
  then have bx: "x \<le> i" "i < x + block_width cfg" "x' \<le> i" "i < x' + block_width cfg"
    and by': "y \<le> j" "j < y + block_height cfg" "y' \<le> j" "j < y' + block_height cfg"
    by (simp_all add: set_block_pixels)
  from assms(1,3) bx have "x = x'" by (metis block_base)
  moreover from assms(2,4) by' have "y = y'" by (metis block_base)
  ultimately show False using assms(5) by simp
qed

section \<open>Block origins\<close>

lemma set_block_origins:
  assumes "0 < block_width cfg" "0 < block_height cfg"
  shows "set (block_origins cfg px) =
     {(x, y). x < img_width px \<and> y < img_height px \<and>
              (\<exists>k. x = k * block_width cfg) \<and> (\<exists>k. y = k * block_height cfg)}"
  using assms by (auto simp: block_origins_def set_range_list)

lemma block_origins_multiple:
  "(x, y) \<in> set (block_origins cfg px) \<Longrightarrow> 0 < block_width cfg \<Longrightarrow> 0 < block_height cfg \<Longrightarrow>
     (\<exists>k. x = k * block_width cfg) \<and> (\<exists>k. y = k * block_height cfg)"
  by (simp add: set_block_origins)

lemma block_origins_bounds:
  "(x, y) \<in> set (block_origins cfg px) \<Longrightarrow> x < img_width px \<and> y < img_height px"
  by (auto simp: block_origins_def dest: range_list_bounds)

lemma sorted_block_origins: "sorted_wrt before (block_origins cfg px)"
proof -
  have "sorted_wrt before (concat (map (\<lambda>y. map (\<lambda>x. (x, y)) xs) ys))"
    if "sorted_wrt (<) xs" "sorted_wrt (<) ys" for xs ys :: "nat list"
    using that(2)
  proof (induction ys)
    case Nil
    then show ?case by simp
  next
    case (Cons y ys)
    then show ?case using that(1)
      by (auto simp: sorted_wrt_append sorted_wrt_map before_def elim: sorted_wrt_mono_rel [rotated])
  qed
  then show ?thesis
    by (simp add: block_origins_def sorted_range_list)
qed

lemma distinct_block_origins: "distinct (block_origins cfg px)"
  using sorted_block_origins by (rule sorted_wrt_irrefl_distinct) (simp add: before_def)

text \<open>
  The footprint the classifier reads for a block is disjoint from every block that
  comes before it: when a block is classified during embedding, none of the cells
  it reads has been written yet.
\<close>

lemma before_footprint_disjoint:
  assumes "before (x', y') (x, y)"
    and "\<exists>k. x = k * block_width cfg" "\<exists>k. y = k * block_height cfg"
    and "\<exists>k. x' = k * block_width cfg" "\<exists>k. y' = k * block_height cfg"
    and "(i, j) \<in> set (block_pixels cfg W H x' y')"
  shows "(i, j) \<notin> footprint cfg x y"
proof -
  have step: "a * b + b \<le> c * b" if "a * b < c * (b::nat)" for a b c
  proof -
    from that have "a < c" by (simp add: mult_less_cancel2)
    then have "(a + 1) * b \<le> c * b" by (intro mult_right_mono) simp_all
    then show ?thesis by simp
  qed
  from assms(1) consider "y' < y" | "y' = y" "x' < x" by (auto simp: before_def)
  then show ?thesis
  proof cases
    case 1
    obtain a c where "y' = a * block_height cfg" "y = c * block_height cfg"
      using assms(3,5) by blast
    with 1 have "y' + block_height cfg \<le> y" using step [of a "block_height cfg" c] by simp
    with assms(6) show ?thesis by (simp add: set_block_pixels footprint_def)
  next
    case 2
    obtain a c where "x' = a * block_width cfg" "x = c * block_width cfg"
      using assms(2,4) by blast
    with 2 have "x' + block_width cfg \<le> x" using step [of a "block_width cfg" c] by simp
    with assms(6) show ?thesis by (simp add: set_block_pixels footprint_def)
  qed
qed

section \<open>The walk\<close>

lemma map_fst_walk:
  "map fst (walk cfg px d) =
     concat (map (\<lambda>(x, y). block_slots cfg (img_width px) (img_height px) x y) (block_origins cfg px))"
  by (simp add: walk_def map_concat comp_def split_def)

lemma walk_member:
  "((i, j, c), n) \<in> set (walk cfg px d) \<longleftrightarrow>
     (\<exists>(x, y) \<in> set (block_origins cfg px).
        (i, j) \<in> set (block_pixels cfg (img_width px) (img_height px) x y) \<and> c < 3 \<and> n = d x y)"
  by (auto simp: walk_def set_block_slots)

lemma walk_in_bounds:
  "(s, n) \<in> set (walk cfg px d) \<Longrightarrow> s \<in> {(i, j, c). i < img_width px \<and> j < img_height px \<and> c < 3}"
  by (cases s) (auto simp: walk_member set_block_pixels)

lemma walk_depths:
  "(s, n) \<in> set (walk cfg px d) \<Longrightarrow> \<exists>(x, y) \<in> set (block_origins cfg px). n = d x y"
  by (cases s) (auto simp: walk_member)

lemma distinct_walk:
  assumes "0 < block_width cfg" "0 < block_height cfg"
  shows "distinct (map fst (walk cfg px d))"
  unfolding map_fst_walk
proof (rule distinct_concat_map_disjoint)
  show "distinct (block_origins cfg px)" by (rule distinct_block_origins)
  show "\<forall>q \<in> set (block_origins cfg px). distinct (case q of (x, y) \<Rightarrow>
          block_slots cfg (img_width px) (img_height px) x y)"
    by (auto simp: distinct_block_slots)
  show "\<forall>q \<in> set (block_origins cfg px). \<forall>q' \<in> set (block_origins cfg px). q \<noteq> q' \<longrightarrow>
          set (case q of (x, y) \<Rightarrow> block_slots cfg (img_width px) (img_height px) x y) \<inter>
          set (case q' of (x, y) \<Rightarrow> block_slots cfg (img_width px) (img_height px) x y) = {}"
  proof (intro ballI impI)
    fix q q' assume q: "q \<in> set (block_origins cfg px)" "q' \<in> set (block_origins cfg px)" "q \<noteq> q'"
    obtain x y x' y' where qq: "q = (x, y)" "q' = (x', y')" by (cases q, cases q')
    have "set (block_pixels cfg (img_width px) (img_height px) x y) \<inter>
          set (block_pixels cfg (img_width px) (img_height px) x' y') = {}"
      using q assms unfolding qq
      by (intro block_pixels_disjoint) (simp_all add: block_origins_multiple)
    then show "set (case q of (x, y) \<Rightarrow> block_slots cfg (img_width px) (img_height px) x y) \<inter>
          set (case q' of (x, y) \<Rightarrow> block_slots cfg (img_width px) (img_height px) x y) = {}"
      unfolding qq by (auto simp: set_block_slots)
  qed
qed

text \<open>Every channel of every pixel is visited.\<close>

lemma set_map_fst_walk:
  assumes "0 < block_width cfg" "0 < block_height cfg"
  shows "set (map fst (walk cfg px d)) = {(i, j, c). i < img_width px \<and> j < img_height px \<and> c < 3}"
proof (intro set_eqI iffI)
  fix s :: slot assume "s \<in> set (map fst (walk cfg px d))"
  then show "s \<in> {(i, j, c). i < img_width px \<and> j < img_height px \<and> c < 3}"
    by (auto dest: walk_in_bounds)
next
  fix s :: slot assume "s \<in> {(i, j, c). i < img_width px \<and> j < img_height px \<and> c < 3}"
  then obtain i j c where s: "s = (i, j, c)" and h: "i < img_width px" "j < img_height px" "c < 3"
    by auto
  let ?x = "i div block_width cfg * block_width cfg" and ?y = "j div block_height cfg * block_height cfg"
  have o: "(?x, ?y) \<in> set (block_origins cfg px)"
    using assms h by (auto simp: set_block_origins intro: le_less_trans [OF div_times_less_eq_dividend])
  have "(i, j) \<in> set (block_pixels cfg (img_width px) (img_height px) ?x ?y)"
    using assms h by (simp add: set_block_pixels div_times_less_eq_dividend lt_div_mult_add)
  with o h have "((i, j, c), d ?x ?y) \<in> set (walk cfg px d)"
    by (auto simp: walk_member)
  then show "s \<in> set (map fst (walk cfg px d))"
    unfolding s by (metis fst_conv image_eqI set_map)
qed

lemma length_walk:
  assumes "0 < block_width cfg" "0 < block_height cfg"
  shows "length (walk cfg px d) = 3 * img_width px * img_height px"
proof -
  have "length (walk cfg px d) = card (set (map fst (walk cfg px d)))"
    using distinct_card [OF distinct_walk [OF assms]] by simp
  moreover have "set (map fst (walk cfg px d)) = {..<img_width px} \<times> {..<img_height px} \<times> {..<3::nat}"
    unfolding set_map_fst_walk [OF assms] by auto
  ultimately show ?thesis
    by (simp add: card_cartesian_product)
qed

text \<open>The walk depends on the array only through its shape and the depths at the origins.\<close>

lemma walk_cong:
  assumes "img_width px' = img_width px" "img_height px' = img_height px"
    and "\<forall>x y. (x, y) \<in> set (block_origins cfg px) \<longrightarrow> d' x y = d x y"
  shows "walk cfg px' d' = walk cfg px d"
proof -
  have o: "block_origins cfg px' = block_origins cfg px"
    using assms(1,2) by (simp add: block_origins_def)
  show ?thesis
    unfolding walk_def o assms(1,2) using assms(3) by (auto intro!: arg_cong [where f = concat])
qed

end
