(* ===== verification/Slot_Engine.thy ===== *)
theory Slot_Engine
  imports Block_Walker
begin

text \<open>
  The innermost loop bodies of the text engine (\<open>embed_message\<close>, lines 41-44, and
  \<open>extract_message\<close>, lines 74-78, of \<open>text_steganography.py\<close>) and the engines run
  as one flat loop over a list of slots, each with its bit depth.  The embedder
  carries a cursor \<open>bit_index\<close> into the payload and writes the next \<open>num_bits\<close>
  bits into each slot; the extractor reads \<open>num_bits\<close> bits from each slot until
  it has \<open>total_bits\<close>.  The main lemma is the round trip over any list of
  distinct in-range slots: what is embedded is read back, provided the payload ends
  on a chunk boundary.  When it does not, the last chunk is short and is written
  into the low bits of its channel while the reader takes the full depth, so stale
  carrier bits come first: the theory shows that too.  A walk whose depths are at
  most \<open>D\<close> changes every channel value only below bit \<open>D\<close>.
\<close>

section \<open>State and one step\<close>

record embed_state =
  pix :: pixels
  bit_index :: nat

text \<open>
  \<open>if bit_index < len(message_bits): self.embed_bits(pixels, x, y,
  message_bits[bit_index:bit_index + num_bits], channel); bit_index += num_bits\<close>
\<close>

definition embed_channel :: "bitstr \<Rightarrow> nat \<Rightarrow> slot \<Rightarrow> embed_state \<Rightarrow> py_error + embed_state" where
  "embed_channel message_bits num_bits s st =
     (case s of (x, y, channel) \<Rightarrow>
        if bit_index st < length message_bits then
          (case embed_bits (pix st) x y (take num_bits (drop (bit_index st) message_bits)) channel of
             Inl e \<Rightarrow> Inl e
           | Inr p \<Rightarrow> Inr (st\<lparr>pix := p, bit_index := bit_index st + num_bits\<rparr>))
        else Inr st)"

text \<open>
  \<open>if bit_index < total_bits: message_bits += self.extract_bits(pixels, x, y,
  num_bits, channel); bit_index += num_bits\<close>
\<close>

definition extract_channel :: "nat \<Rightarrow> pixels \<Rightarrow> nat \<Rightarrow> slot \<Rightarrow> bitstr \<times> nat \<Rightarrow> bitstr \<times> nat" where
  "extract_channel total_bits px num_bits s acc =
     (case s of (x, y, channel) \<Rightarrow> case acc of (message_bits, i) \<Rightarrow>
        if i < total_bits
        then (message_bits @ extract_bits px x y num_bits channel, i + num_bits)
        else (message_bits, i))"

section \<open>The flat loops\<close>

definition embed_walk :: "bitstr \<Rightarrow> (slot \<times> nat) list \<Rightarrow> embed_state \<Rightarrow> py_error + embed_state" where
  "embed_walk bits ss st = fold_err (\<lambda>(s, n). embed_channel bits n s) ss st"

definition extract_walk :: "nat \<Rightarrow> pixels \<Rightarrow> (slot \<times> nat) list \<Rightarrow> bitstr \<times> nat \<Rightarrow> bitstr \<times> nat" where
  "extract_walk total_bits px ss acc = fold (\<lambda>(s, n). extract_channel total_bits px n s) ss acc"

text \<open>
  The payload of length \<open>L\<close> ends on a chunk boundary of the depths \<open>ds\<close> when the
  cursor, started at \<open>i\<close> and advanced by each depth in turn, meets \<open>L\<close> exactly.
\<close>

fun chunk_aligned :: "nat \<Rightarrow> nat \<Rightarrow> nat list \<Rightarrow> bool" where
  "chunk_aligned i L [] = (i = L)"
| "chunk_aligned i L (d # ds) = (i = L \<or> (i < L \<and> chunk_aligned (i + d) L ds))"

definition in_range_slots :: "pixels \<Rightarrow> (slot \<times> nat) list \<Rightarrow> bool" where
  "in_range_slots px ss \<longleftrightarrow>
     (\<forall>((x, y, c), n) \<in> set ss. x < img_width px \<and> y < img_height px \<and> c < 3 \<and> 1 \<le> n \<and> n \<le> 8)"

section \<open>Basic facts\<close>

lemma embed_walk_Nil [simp]: "embed_walk bits [] st = Inr st"
  by (simp add: embed_walk_def)

lemma embed_walk_Cons:
  "embed_walk bits ((s, n) # ss) st =
     (case embed_channel bits n s st of Inl e \<Rightarrow> Inl e | Inr st' \<Rightarrow> embed_walk bits ss st')"
  unfolding embed_walk_def by simp

lemma extract_walk_Nil [simp]: "extract_walk total_bits px [] acc = acc"
  by (simp add: extract_walk_def)

lemma extract_walk_Cons:
  "extract_walk total_bits px ((s, n) # ss) acc = extract_walk total_bits px ss (extract_channel total_bits px n s acc)"
  by (simp add: extract_walk_def)

lemma embed_walk_append:
  "embed_walk bits (xs @ ys) st =
     (case embed_walk bits xs st of Inl e \<Rightarrow> Inl e | Inr st' \<Rightarrow> embed_walk bits ys st')"
  unfolding embed_walk_def by (simp add: fold_err_append)

lemma extract_walk_append:
  "extract_walk total_bits px (xs @ ys) acc = extract_walk total_bits px ys (extract_walk total_bits px xs acc)"
  by (simp add: extract_walk_def)

lemma chunk_aligned_le: "chunk_aligned i L ds \<Longrightarrow> i \<le> L"
  by (induction i L ds rule: chunk_aligned.induct) auto

lemma chunk_aligned_done: "chunk_aligned L L ds"
  by (cases ds) simp_all

text \<open>
  Equal depths align with every payload whose remaining length is a multiple of
  the depth and which fits.
\<close>

lemma chunk_aligned_uniform:
  assumes "\<forall>x \<in> set ds. x = d" "0 < d" "i \<le> L" "d dvd (L - i)" "L \<le> i + d * length ds"
  shows "chunk_aligned i L ds"
  using assms(1,3-5)
proof (induction ds arbitrary: i)
  case (Cons x ds)
  show ?case
  proof (cases "i = L")
    case False
    then have lt: "i < L" using Cons.prems(2) by simp
    obtain k where k: "L - i = d * k" using Cons.prems(3) by (auto elim: dvdE)
    with lt have "0 < k" by (cases k) simp_all
    then have "d \<le> L - i" using k by simp
    moreover have "L - (i + d) = d * k - d" using k by (metis diff_diff_left)
    then have "L - (i + d) = d * (k - 1)" by (simp add: diff_mult_distrib2)
    then have "d dvd (L - (i + d))" by simp
    ultimately have "chunk_aligned (i + d) L ds" using Cons.prems by (intro Cons.IH) simp_all
    then show ?thesis using lt Cons.prems(1) by simp
  qed simp
qed simp

lemma embed_channel_done:
  "length bits \<le> bit_index st \<Longrightarrow> embed_channel bits n s st = Inr st"
  by (cases s) (simp add: embed_channel_def)

lemma embed_walk_done:
  "length bits \<le> bit_index st \<Longrightarrow> embed_walk bits ss st = Inr st"
  by (induction ss) (auto simp: embed_walk_Cons embed_channel_done)

lemma extract_walk_done:
  "total_bits \<le> i \<Longrightarrow> extract_walk total_bits px ss (acc, i) = (acc, i)"
  by (induction ss) (auto simp: extract_walk_Cons extract_channel_def)

lemma extract_bits_cong:
  "chan px' x y c = chan px x y c \<Longrightarrow> extract_bits px' x y n c = extract_bits px x y n c"
  by (simp add: extract_bits_def)

section \<open>What embedding changes\<close>

lemma embed_channel_shape:
  assumes "embed_channel bits n s st = Inr st'" "wf_pixels (pix st)"
  shows "wf_pixels (pix st') \<and> img_width (pix st') = img_width (pix st) \<and>
         img_height (pix st') = img_height (pix st)"
  using assms embed_bits_wf embed_bits_shape
  by (cases s) (auto simp: embed_channel_def split: if_splits sum.splits)

lemma embed_walk_shape:
  assumes "embed_walk bits ss st = Inr st'" "wf_pixels (pix st)"
  shows "wf_pixels (pix st') \<and> img_width (pix st') = img_width (pix st) \<and>
         img_height (pix st') = img_height (pix st)"
proof -
  let ?P = "\<lambda>t. wf_pixels (pix t) \<and> img_width (pix t) = img_width (pix st) \<and>
                 img_height (pix t) = img_height (pix st)"
  have "?P st'"
  proof (rule fold_err_invariant [where P = ?P])
    show "fold_err (\<lambda>(s, n). embed_channel bits n s) ss st = Inr st'"
      using assms(1) by (simp add: embed_walk_def)
    show "?P st" using assms(2) by simp
  next
    fix a t t' assume "?P t" "(\<lambda>(s, n). embed_channel bits n s) a t = Inr t'"
    then show "?P t'" by (cases a) (auto dest: embed_channel_shape)
  qed
  then show ?thesis by simp
qed

lemma embed_channel_other:
  assumes "embed_channel bits n (x, y, c) st = Inr st'" "(x', y', c') \<noteq> (x, y, c)"
  shows "chan (pix st') x' y' c' = chan (pix st) x' y' c'"
  using assms embed_bits_other [of "pix st" x y _ c _ x' y' c']
  by (auto simp: embed_channel_def split: if_splits sum.splits)

text \<open>Slots the walk does not visit keep their values.\<close>

lemma embed_walk_frame:
  assumes "embed_walk bits ss st = Inr st'" "s \<notin> set (map fst ss)"
  shows "chan (pix st') (fst s) (fst (snd s)) (snd (snd s)) = chan (pix st) (fst s) (fst (snd s)) (snd (snd s))"
  using assms
proof (induction ss arbitrary: st)
  case Nil
  then show ?case by simp
next
  case (Cons a ss)
  obtain x y c n where a: "a = ((x, y, c), n)" by (cases a) auto
  from Cons.prems a obtain st1 where st1: "embed_channel bits n (x, y, c) st = Inr st1"
    and rest: "embed_walk bits ss st1 = Inr st'"
    by (auto simp: embed_walk_Cons split: sum.splits)
  have "s \<noteq> (x, y, c)" using Cons.prems(2) a by auto
  then have "chan (pix st1) (fst s) (fst (snd s)) (snd (snd s)) = chan (pix st) (fst s) (fst (snd s)) (snd (snd s))"
    using st1 by (cases s) (auto dest: embed_channel_other)
  with Cons.IH [OF rest] Cons.prems(2) a show ?case by simp
qed

lemma in_range_slots_Cons:
  "in_range_slots px (((x, y, c), n) # ss) \<longleftrightarrow>
     (x < img_width px \<and> y < img_height px \<and> c < 3 \<and> 1 \<le> n \<and> n \<le> 8) \<and> in_range_slots px ss"
  by (simp add: in_range_slots_def)

lemma in_range_slots_shape:
  "img_width px' = img_width px \<Longrightarrow> img_height px' = img_height px \<Longrightarrow>
     in_range_slots px' ss = in_range_slots px ss"
  by (simp add: in_range_slots_def)

section \<open>Embedding never fails\<close>

text \<open>
  Under the per-channel guard every slice handed to \<open>embed_bits\<close> is non-empty, so
  the text engine's walk raises no \<open>ValueError\<close>.
\<close>

lemma embed_channel_step:
  assumes "wf_pixels (pix st)" "1 \<le> n" "bit_index st < length bits"
  shows "\<exists>p. embed_bits (pix st) x y (take n (drop (bit_index st) bits)) c = Inr p \<and>
             embed_channel bits n (x, y, c) st = Inr (st\<lparr>pix := p, bit_index := bit_index st + n\<rparr>)"
proof -
  let ?p = "set_chan (pix st) x y c (word_of_int ((uint (chan (pix st) x y c)
              AND NOT (2 ^ length (take n (drop (bit_index st) bits)) - 1))
              OR int (bits_to_nat (take n (drop (bit_index st) bits)))))"
  have ne: "take n (drop (bit_index st) bits) \<noteq> []" using assms(2,3) by simp
  then have e: "embed_bits (pix st) x y (take n (drop (bit_index st) bits)) c = Inr ?p"
    by (rule embed_bits_Cons)
  moreover have "embed_channel bits n (x, y, c) st = Inr (st\<lparr>pix := ?p, bit_index := bit_index st + n\<rparr>)"
    using assms(3) e unfolding embed_channel_def by simp
  ultimately show ?thesis by blast
qed

lemma embed_walk_ok:
  assumes "wf_pixels (pix st)" "in_range_slots (pix st) ss"
  shows "\<exists>st'. embed_walk bits ss st = Inr st'"
  using assms
proof (induction ss arbitrary: st)
  case Nil
  then show ?case by simp
next
  case (Cons a ss)
  obtain x y c n where a: "a = ((x, y, c), n)" by (cases a) auto
  have n: "1 \<le> n" using Cons.prems(2) a by (simp add: in_range_slots_Cons)
  have "\<exists>st1. embed_channel bits n (x, y, c) st = Inr st1"
  proof (cases "bit_index st < length bits")
    case True
    then show ?thesis using embed_channel_step [OF Cons.prems(1) n True] by blast
  next
    case False
    then show ?thesis by (simp add: embed_channel_done)
  qed
  then obtain st1 where st1: "embed_channel bits n (x, y, c) st = Inr st1" by blast
  have sh: "wf_pixels (pix st1) \<and> img_width (pix st1) = img_width (pix st) \<and>
            img_height (pix st1) = img_height (pix st)"
    using st1 Cons.prems(1) by (rule embed_channel_shape)
  have "in_range_slots (pix st) ss" using Cons.prems(2) a by (simp add: in_range_slots_Cons)
  then have "in_range_slots (pix st1) ss"
    using sh in_range_slots_shape [of "pix st1" "pix st" ss] by simp
  then have "\<exists>st'. embed_walk bits ss st1 = Inr st'"
    using sh by (intro Cons.IH) simp_all
  then show ?case using st1 a by (simp add: embed_walk_Cons)
qed

text \<open>The cursor reaches the end of the payload or of the walk, whichever comes first.\<close>

lemma embed_walk_reaches:
  assumes "embed_walk bits ss st = Inr st'"
  shows "min (length bits) (bit_index st + sum_list (map snd ss)) \<le> bit_index st'"
  using assms
proof (induction ss arbitrary: st)
  case (Cons a ss)
  obtain x y c n where a: "a = ((x, y, c), n)" by (cases a) auto
  obtain t where t: "embed_channel bits n (x, y, c) st = Inr t" and r: "embed_walk bits ss t = Inr st'"
    using Cons.prems a by (auto simp: embed_walk_Cons split: sum.splits)
  have "bit_index t = (if bit_index st < length bits then bit_index st + n else bit_index st)"
    using t by (auto simp: embed_channel_def split: if_splits sum.splits)
  then show ?case using Cons.IH [OF r] a by (auto split: if_splits)
qed simp

section \<open>The round trip over a walk\<close>

text \<open>
  Extracting the first \<open>T\<close> bits, where \<open>T\<close> is a chunk boundary no later than
  the end of the payload, returns the payload's first \<open>T\<close> bits.
\<close>

lemma extract_embed_walk_prefix:
  assumes "wf_pixels (pix st)" "in_range_slots (pix st) ss" "distinct (map fst ss)"
    and "chunk_aligned (bit_index st) T (map snd ss)" "T \<le> length bits"
    and "embed_walk bits ss st = Inr st'"
  shows "extract_walk T (pix st') ss (acc, bit_index st) = (acc @ take (T - bit_index st) (drop (bit_index st) bits), T)"
  using assms
proof (induction ss arbitrary: st acc)
  case Nil
  then show ?case by simp
next
  case (Cons a ss)
  obtain x y c n where a: "a = ((x, y, c), n)" by (cases a) auto
  let ?i = "bit_index st"
  show ?case
  proof (cases "?i < T")
    case False
    then have i: "?i = T" using chunk_aligned_le [OF Cons.prems(4)] by simp
    then show ?thesis by (simp add: extract_walk_done)
  next
    case True
    with Cons.prems(4) a have al: "chunk_aligned (?i + n) T (map snd ss)" by simp
    have le: "?i + n \<le> T" using chunk_aligned_le [OF al] .
    have lt: "?i < length bits" using True Cons.prems(5) by simp
    from Cons.prems(2) a have inr: "x < img_width (pix st)" "y < img_height (pix st)" "c < 3" "1 \<le> n" "n \<le> 8"
      and inr_ss: "in_range_slots (pix st) ss"
      by (simp_all add: in_range_slots_Cons)
    let ?chunk = "take n (drop ?i bits)"
    have len: "length ?chunk = n" using le Cons.prems(5) by simp
    obtain p where p: "embed_bits (pix st) x y ?chunk c = Inr p"
      and step: "embed_channel bits n (x, y, c) st = Inr (st\<lparr>pix := p, bit_index := ?i + n\<rparr>)"
      using embed_channel_step [OF Cons.prems(1) inr(4) lt] by blast
    have rest: "embed_walk bits ss (st\<lparr>pix := p, bit_index := ?i + n\<rparr>) = Inr st'"
      using Cons.prems(6) a step by (simp add: embed_walk_Cons)
    have wfp: "wf_pixels p" using embed_bits_wf [OF p Cons.prems(1)] .
    have shp: "img_width p = img_width (pix st) \<and> img_height p = img_height (pix st)"
      using embed_bits_shape [OF p Cons.prems(1)] .
    have IH: "extract_walk T (pix st') ss (acc @ ?chunk, ?i + n) =
              ((acc @ ?chunk) @ take (T - (?i + n)) (drop (?i + n) bits), T)"
    proof -
      have "in_range_slots p ss" using shp inr_ss in_range_slots_shape [of p "pix st" ss] by simp
      then show ?thesis
        using Cons.IH [of "st\<lparr>pix := p, bit_index := ?i + n\<rparr>" "acc @ ?chunk"] wfp Cons.prems(3,5) al rest a
        by simp
    qed
    have "(x, y, c) \<notin> set (map fst ss)" using Cons.prems(3) a by simp
    then have "chan (pix st') x y c = chan p x y c" using embed_walk_frame [OF rest, of "(x, y, c)"] by simp
    moreover have "extract_bits p x y (length ?chunk) c = ?chunk"
      using len inr by (intro extract_embed_bits_same [OF Cons.prems(1) _ _ _ _ _ p]) auto
    ultimately have rd: "extract_bits (pix st') x y n c = ?chunk"
      using len extract_bits_cong by metis
    have "extract_walk T (pix st') (a # ss) (acc, ?i) = extract_walk T (pix st') ss (acc @ ?chunk, ?i + n)"
      using True a rd by (simp add: extract_walk_Cons extract_channel_def)
    also have "\<dots> = (acc @ ?chunk @ take (T - (?i + n)) (drop (?i + n) bits), T)" using IH by simp
    also have "?chunk @ take (T - (?i + n)) (drop (?i + n) bits) = take (T - ?i) (drop ?i bits)"
    proof -
      have "T - ?i = n + (T - (?i + n))" using le by simp
      then show ?thesis by (simp add: take_add add.commute)
    qed
    finally show ?thesis .
  qed
qed

text \<open>Over slots of positive depth the embedder reads the payload only up to the end of the walk.\<close>

lemma embed_walk_prefix_bits:
  assumes "\<forall>(s, n) \<in> set ss. 0 < n"
    and "bit_index st + sum_list (map snd ss) \<le> length bits" "bit_index st + sum_list (map snd ss) \<le> length bits'"
    and "take (bit_index st + sum_list (map snd ss)) bits = take (bit_index st + sum_list (map snd ss)) bits'"
  shows "embed_walk bits ss st = embed_walk bits' ss st"
  using assms
proof (induction ss arbitrary: st)
  case (Cons a ss)
  obtain x y c n where a: "a = ((x, y, c), n)" by (cases a) auto
  let ?m = "bit_index st + sum_list (map snd (a # ss))"
  have n: "0 < n" using Cons.prems(1) a by auto
  have lt: "bit_index st < length bits" "bit_index st < length bits'" using Cons.prems(2,3) a n by simp_all
  have sl: "take n (drop (bit_index st) bits) = take n (drop (bit_index st) bits')"
    using take_drop_agree [OF Cons.prems(4)] a by simp
  have ch: "embed_channel bits n (x, y, c) st = embed_channel bits' n (x, y, c) st"
    using lt sl by (simp add: embed_channel_def)
  show ?case
  proof (cases "embed_channel bits n (x, y, c) st")
    case (Inr t)
    have bt: "bit_index t = bit_index st + n"
      using Inr lt(1) by (auto simp: embed_channel_def split: sum.splits)
    have "take (bit_index t + sum_list (map snd ss)) bits = take (bit_index t + sum_list (map snd ss)) bits'"
      using Cons.prems(4) a bt by (simp add: add.assoc)
    then have "embed_walk bits ss t = embed_walk bits' ss t"
      using Cons.prems(1,2,3) a bt by (intro Cons.IH) (auto simp: add.assoc)
    then show ?thesis using Inr ch a by (simp add: embed_walk_Cons)
  qed (use ch a in \<open>simp add: embed_walk_Cons\<close>)
qed simp

text \<open>In particular, extracting as many bits as were embedded returns them all.\<close>

lemma extract_embed_walk:
  assumes "wf_pixels (pix st)" "in_range_slots (pix st) ss" "distinct (map fst ss)"
    and "chunk_aligned (bit_index st) (length bits) (map snd ss)"
    and "embed_walk bits ss st = Inr st'"
  shows "extract_walk (length bits) (pix st') ss (acc, bit_index st) = (acc @ drop (bit_index st) bits, length bits)"
  using extract_embed_walk_prefix [OF assms(1-4) order_refl assms(5)] by simp

section \<open>Embedding moves only the low bits\<close>

lemma embed_walk_high_bits:
  assumes "embed_walk bits ss st = Inr st'" "wf_pixels (pix st)" "in_range_slots (pix st) ss"
    and "\<forall>(s, n) \<in> set ss. n \<le> D" "D \<le> 8"
  shows "unat (chan (pix st') x y c) div 2 ^ D = unat (chan (pix st) x y c) div 2 ^ D"
proof -
  let ?P = "\<lambda>t. wf_pixels (pix t) \<and> img_width (pix t) = img_width (pix st) \<and>
                 img_height (pix t) = img_height (pix st) \<and>
                 (\<forall>x y c. unat (chan (pix t) x y c) div 2 ^ D = unat (chan (pix st) x y c) div 2 ^ D)"
  have "?P st'"
  proof (rule fold_err_invariant [where P = ?P])
    show "fold_err (\<lambda>(s, n). embed_channel bits n s) ss st = Inr st'"
      using assms(1) by (simp add: embed_walk_def)
    show "?P st" using assms(2) by simp
  next
    fix a t t' assume a: "a \<in> set ss" and P: "?P t" and e: "(\<lambda>(s, n). embed_channel bits n s) a t = Inr t'"
    obtain x0 y0 c0 n where an: "a = ((x0, y0, c0), n)" by (cases a) auto
    have r: "x0 < img_width (pix t)" "y0 < img_height (pix t)" "c0 < 3" "n \<le> D"
      using assms(3,4) a P an by (auto simp: in_range_slots_def)
    have "wf_pixels (pix t') \<and> img_width (pix t') = img_width (pix t) \<and> img_height (pix t') = img_height (pix t)"
      using e P an embed_channel_shape by auto
    moreover have "unat (chan (pix t') x y c) div 2 ^ D = unat (chan (pix t) x y c) div 2 ^ D" for x y c
    proof (cases "bit_index t < length bits")
      case True
      then obtain p where b: "embed_bits (pix t) x0 y0 (take n (drop (bit_index t) bits)) c0 = Inr p"
        and t': "pix t' = p" using e an by (auto simp: embed_channel_def split: sum.splits)
      have "length (take n (drop (bit_index t) bits)) \<le> D" using r(4) by simp
      then show ?thesis using embed_bits_high_bits [OF b _ r(1-3) _ assms(5)] P t' by simp
    next
      case False
      then show ?thesis using e an by (simp add: embed_channel_def)
    qed
    ultimately show "?P t'" using P by simp
  qed
  then show ?thesis by simp
qed

end
