(* ===== verification/Payload_Codec.thy ===== *)
theory Payload_Codec
  imports Stego_Pixels
begin

text \<open>
  The payload codecs: a text message (\<open>embed_message\<close> / \<open>extract_message\<close>) and a
  secondary image (\<open>embed_image\<close> / \<open>extract_image\<close>) to and from a bit string.  A
  Python string is modelled by the list of its code points (\<open>ord(c)\<close>).  The lemmas
  are the round trips: decoding the first \<open>8 * n\<close> bits of an encoding gives the
  payload back, whatever follows them, provided every code point fits in a byte;
  for images, provided the array has the shape the decoder is told.
\<close>

section \<open>Text\<close>

text \<open>\<open>''.join(f'{ord(c):08b}' for c in message)\<close>\<close>

definition message_to_bits :: "nat list \<Rightarrow> bitstr" where
  "message_to_bits message = concat (map (\<lambda>c. format_bin 8 c) message)"

text \<open>\<open>''.join(chr(int(message_bits[i:i+8], 2)) for i in range(0, total_bits, 8))\<close>\<close>

definition bits_to_message :: "bitstr \<Rightarrow> nat \<Rightarrow> py_error + nat list" where
  "bits_to_message message_bits total_bits =
     map_err (\<lambda>i. py_int_base2 (take 8 (drop i message_bits))) (range_list 0 total_bits 8)"

section \<open>Images\<close>

text \<open>\<open>''.join(f'{pixel:08b}' for pixel in hidden_pixels.flatten())\<close>\<close>

definition image_to_bits :: "pixels \<Rightarrow> bitstr" where
  "image_to_bits hidden_pixels = concat (map (\<lambda>v. format_bin 8 (unat v)) (concat (concat hidden_pixels)))"

text \<open>
  \<open>np.array(values, dtype=np.uint8).reshape((hidden_height, hidden_width, 3))\<close>;
  \<open>reshape\<close> raises when the number of values is not \<open>h * w * 3\<close>.
\<close>

definition reshape_rgb :: "nat \<Rightarrow> nat \<Rightarrow> u8 list \<Rightarrow> u8 list list list" where
  "reshape_rgb h w vals = map (\<lambda>r. map (\<lambda>c. take 3 (drop (3 * (r * w + c)) vals)) [0..<w]) [0..<h]"

definition bits_to_image :: "bitstr \<Rightarrow> nat \<times> nat \<Rightarrow> py_error + pixels" where
  "bits_to_image hidden_bits hidden_size =
     (case hidden_size of (hidden_width, hidden_height) \<Rightarrow>
       let total_bits = hidden_width * hidden_height * 8 * 3 in
       case map_err (\<lambda>i. py_int_base2 (take 8 (drop i hidden_bits))) (range_list 0 total_bits 8) of
         Inl e \<Rightarrow> Inl e
       | Inr hidden_pixel_values \<Rightarrow>
           if length hidden_pixel_values \<noteq> hidden_height * hidden_width * 3 then Inl ReshapeSize
           else Inr (reshape_rgb hidden_height hidden_width (map of_nat hidden_pixel_values)))"

section \<open>Chunks of eight bits\<close>

lemma length_format_bin_byte: "v < 256 \<Longrightarrow> length (format_bin 8 v) = 8"
  by (simp add: length_format_bin)

lemma chunks_of_bytes:
  assumes "\<forall>v \<in> set vs. v < 256"
  shows "map (\<lambda>i. take 8 (drop i (concat (map (format_bin 8) vs) @ extra))) (range_list 0 (length vs * 8) 8)
         = map (format_bin 8) vs"
proof -
  let ?B = "concat (map (format_bin 8) vs) @ extra"
  have r: "range_list 0 (length vs * 8) 8 = map (\<lambda>k. 8 * k) [0..<length vs]"
    using range_list_map [of 8 0 "length vs"] by (simp add: mult.commute)
  have k: "take 8 (drop (8 * k) ?B) = map (format_bin 8) vs ! k" if "k < length vs" for k
  proof (rule take_drop_concat_uniform)
    show "\<forall>xs \<in> set (map (format_bin 8) vs). length xs = 8"
      using assms by (auto simp: length_format_bin_byte)
  qed (use that in simp)
  have "map (\<lambda>i. take 8 (drop i ?B)) (range_list 0 (length vs * 8) 8)
        = map (\<lambda>k. take 8 (drop (8 * k) ?B)) [0..<length vs]"
    by (simp only: r map_map comp_def)
  also have "\<dots> = map (format_bin 8) vs"
    by (rule nth_equalityI) (simp_all only: length_map length_upt nth_map_upt k, simp_all)
  finally show ?thesis .
qed

lemma decode_bytes:
  assumes "\<forall>v \<in> set vs. v < 256"
  shows "map_err (\<lambda>i. py_int_base2 (take 8 (drop i (concat (map (format_bin 8) vs) @ extra))))
           (range_list 0 (length vs * 8) 8) = Inr vs"
proof -
  let ?B = "concat (map (format_bin 8) vs) @ extra"
  have "map_err (\<lambda>i. py_int_base2 (take 8 (drop i ?B))) (range_list 0 (length vs * 8) 8)
        = map_err py_int_base2 (map (\<lambda>i. take 8 (drop i ?B)) (range_list 0 (length vs * 8) 8))"
    by (simp only: map_err_map comp_def)
  also have "\<dots> = map_err py_int_base2 (map (format_bin 8) vs)"
    by (simp only: chunks_of_bytes [OF assms])
  also have "\<dots> = Inr (map (\<lambda>v. bits_to_nat (format_bin 8 v)) vs)"
    by (simp only: map_err_map) (rule map_err_total, simp add: py_int_base2_def format_bin_def)
  also have "\<dots> = Inr vs" by simp
  finally show ?thesis .
qed

section \<open>Round trips\<close>

lemma length_message_to_bits:
  "\<forall>c \<in> set msg. c < 256 \<Longrightarrow> length (message_to_bits msg) = length msg * 8"
  by (induction msg) (auto simp: message_to_bits_def length_format_bin_byte)

lemma message_to_bits_append: "message_to_bits (xs @ ys) = message_to_bits xs @ message_to_bits ys"
  by (simp add: message_to_bits_def)

lemma take_message_to_bits:
  assumes "\<forall>c \<in> set msg. c < 256" "k \<le> length msg"
  shows "take (k * 8) (message_to_bits msg) = message_to_bits (take k msg)"
proof -
  have small: "\<forall>c \<in> set (take k msg). c < 256" using assms(1) by (blast dest: in_set_takeD)
  have l: "length (message_to_bits (take k msg)) = k * 8"
    using length_message_to_bits [OF small] assms(2) by simp
  have m: "message_to_bits msg = message_to_bits (take k msg) @ message_to_bits (drop k msg)"
    by (simp only: message_to_bits_append [symmetric] append_take_drop_id)
  show ?thesis unfolding m using l by (simp only: take_append diff_self_eq_0 take_0 append_Nil2 take_all order_refl)
qed

lemma bits_to_message_to_bits:
  assumes "\<forall>c \<in> set msg. c < 256"
  shows "bits_to_message (message_to_bits msg @ extra) (length msg * 8) = Inr msg"
  using decode_bytes [OF assms] by (simp add: bits_to_message_def message_to_bits_def)

text \<open>The decoder cuts eight-bit chunks, so every character it returns is below 256.\<close>

lemma bits_to_message_bytes:
  assumes "bits_to_message bits n = Inr m"
  shows "\<forall>c \<in> set m. c < 256"
proof
  fix c assume "c \<in> set m"
  then obtain i where "py_int_base2 (take 8 (drop i bits)) = Inr c"
    using map_err_Inr_set assms by (fastforce simp: bits_to_message_def)
  then have "c = bits_to_nat (take 8 (drop i bits))"
    by (auto simp: py_int_base2_def split: if_splits)
  moreover have "bits_to_nat (take 8 (drop i bits)) < 2 ^ 8"
    using bits_to_nat_less [of "take 8 (drop i bits)"] power_increasing [of "length (take 8 (drop i bits))" 8 "2::nat"]
    by simp
  ultimately show "c < 256" by simp
qed

definition pixels_shape :: "nat \<Rightarrow> nat \<Rightarrow> pixels \<Rightarrow> bool" where
  "pixels_shape w h px \<longleftrightarrow> length px = h \<and> (\<forall>row \<in> set px. length row = w \<and> (\<forall>p \<in> set row. length p = 3))"

lemma reshape_flatten:
  assumes "pixels_shape w h px"
  shows "reshape_rgb h w (concat (concat px)) = px"
proof (rule nth_equalityI)
  show "length (reshape_rgb h w (concat (concat px))) = length px"
    using assms by (simp add: reshape_rgb_def pixels_shape_def)
next
  fix r assume r: "r < length (reshape_rgb h w (concat (concat px)))"
  then have rh: "r < h" and rl: "r < length px" using assms by (simp_all add: reshape_rgb_def pixels_shape_def)
  have rows: "\<forall>row \<in> set px. length row = w" and pix: "\<forall>p \<in> set (concat px). length p = 3"
    using assms by (auto simp: pixels_shape_def)
  have cp: "concat px ! (r * w + c) = px ! r ! c" if "c < w" for c
    using rows rl that by (simp add: nth_concat_uniform)
  have "take 3 (drop (3 * (r * w + c)) (concat (concat px))) = px ! r ! c" if "c < w" for c
  proof -
    have "r * w + c < (r + 1) * w" using that by simp
    also have "\<dots> \<le> length px * w" using rl by (intro mult_right_mono) simp_all
    also have "length px * w = length (concat px)"
      by (rule length_concat_uniform [OF rows, symmetric])
    finally have "r * w + c < length (concat px)" .
    then have "take 3 (drop (3 * (r * w + c)) (concat (concat px) @ [])) = concat px ! (r * w + c)"
      using pix by (intro take_drop_concat_uniform)
    then show ?thesis using cp that by simp
  qed
  note cell = this
  have "map (\<lambda>c. take 3 (drop (3 * (r * w + c)) (concat (concat px)))) [0..<w] = px ! r"
  proof (rule nth_equalityI)
    show "length (map (\<lambda>c. take 3 (drop (3 * (r * w + c)) (concat (concat px)))) [0..<w]) = length (px ! r)"
      using rows rl by simp
  next
    fix c assume "c < length (map (\<lambda>c. take 3 (drop (3 * (r * w + c)) (concat (concat px)))) [0..<w])"
    then show "map (\<lambda>c. take 3 (drop (3 * (r * w + c)) (concat (concat px)))) [0..<w] ! c = px ! r ! c"
      using cell by simp
  qed
  then show "reshape_rgb h w (concat (concat px)) ! r = px ! r"
    using rh by (simp add: reshape_rgb_def)
qed

lemma length_flatten:
  "pixels_shape w h px \<Longrightarrow> length (concat (concat px)) = h * w * 3"
proof -
  assume sh: "pixels_shape w h px"
  then have p3: "\<forall>p \<in> set (concat px). length p = 3" and rw: "\<forall>row \<in> set px. length row = w"
    and h: "length px = h"
    by (auto simp: pixels_shape_def)
  have "length (concat (concat px)) = length (concat px) * 3" using p3 by (rule length_concat_uniform)
  also have "length (concat px) = length px * w" using rw by (rule length_concat_uniform)
  finally show ?thesis using h by simp
qed

lemma length_bytes_to_bits:
  "length (concat (map (\<lambda>v. format_bin 8 (unat v)) (vs :: u8 list))) = length vs * 8"
proof (induction vs)
  case (Cons v vs)
  have "unat v < 256" using unsigned_less [of v, where ?'a = nat] by simp
  then show ?case using Cons.IH by (simp add: length_format_bin_byte)
qed simp

lemma length_image_to_bits:
  "pixels_shape w h hidden \<Longrightarrow> length (image_to_bits hidden) = w * h * 8 * 3"
  using length_flatten [of w h hidden] by (simp add: image_to_bits_def length_bytes_to_bits)

lemma bits_to_image_to_bits:
  assumes "pixels_shape w h hidden"
  shows "bits_to_image (image_to_bits hidden @ extra) (w, h) = Inr hidden"
proof -
  let ?vs = "map unat (concat (concat hidden))"
  have small: "\<forall>v \<in> set ?vs. v < 256"
    using unsigned_less [where ?'a = nat and 'b = 8] by auto
  have len: "length ?vs = h * w * 3" using length_flatten [OF assms] by simp
  have bits: "image_to_bits hidden = concat (map (format_bin 8) ?vs)"
    by (simp add: image_to_bits_def comp_def)
  have tot: "w * h * 8 * 3 = length ?vs * 8" using len by simp
  have dec: "map_err (\<lambda>i. py_int_base2 (take 8 (drop i (image_to_bits hidden @ extra))))
               (range_list 0 (w * h * 8 * 3) 8) = Inr ?vs"
    unfolding bits tot by (rule decode_bytes [OF small])
  have "map of_nat ?vs = concat (concat hidden)" by (simp add: comp_def)
  then show ?thesis
    using dec len reshape_flatten [OF assms] by (simp add: bits_to_image_def)
qed

text \<open>\<open>reshape((hidden_height, hidden_width, 3))\<close> of the right number of values has that shape.\<close>

lemma reshape_rgb_shape:
  assumes "length vals = h * w * 3"
  shows "pixels_shape w h (reshape_rgb h w vals)"
proof -
  have "length (take 3 (drop (3 * (r * w + c)) vals)) = 3" if "r < h" "c < w" for r c
  proof -
    have "r * w + c < (r + 1) * w" using that(2) by simp
    also have "(r + 1) * w \<le> h * w" using that(1) by (intro mult_right_mono) simp_all
    finally have "3 * (r * w + c) + 3 \<le> length vals" using assms by simp
    then show ?thesis by simp
  qed
  then show ?thesis by (auto simp: pixels_shape_def reshape_rgb_def)
qed

lemma bits_to_image_shape: "bits_to_image bits (w, h) = Inr hidden \<Longrightarrow> pixels_shape w h hidden"
  by (auto simp: bits_to_image_def Let_def intro: reshape_rgb_shape split: sum.splits if_splits)

end
