(* ===== verification/Text_Engine.thy ===== *)
theory Text_Engine
  imports Slot_Engine Payload_Codec
begin

text \<open>
  \<open>embed_message\<close> and \<open>extract_message\<close> of \<open>text_steganography.py\<close> with their
  nested loops as the source writes them: rows of blocks, blocks of a row, the
  classification of each block on the array as it is at that moment, pixel
  offsets with the bounds guard, the pixel-level guard and the channel loop.  The
  refinement lemmas show that, for positive bit depths and block dimensions,
  the engines are the flat loops of \<open>Slot_Engine\<close> over the walk of
  \<open>Block_Walker\<close>, with every block classified on the \<^emph>\<open>original\<close> carrier:
  the classifier only reads cells no earlier block has written.
\<close>

section \<open>Embedding\<close>

text \<open>
  One pixel offset: \<open>if (x + dx < width) and (y + dy < height): if bit_index <
  len(message_bits) and num_bits > 0: for channel in range(3): ...\<close>
\<close>

definition embed_pixel_text ::
  "nat \<Rightarrow> nat \<Rightarrow> bitstr \<Rightarrow> nat \<Rightarrow> nat \<Rightarrow> nat \<Rightarrow> nat \<Rightarrow> nat \<Rightarrow> embed_state \<Rightarrow> py_error + embed_state" where
  "embed_pixel_text width height message_bits num_bits x y dy dx st =
     (if x + dx < width \<and> y + dy < height then
        (if bit_index st < length message_bits \<and> 0 < num_bits then
           fold_err (\<lambda>channel. embed_channel message_bits num_bits (x + dx, y + dy, channel)) [0..<3] st
         else Inr st)
      else Inr st)"

text \<open>One block: classify it on the current array, then the two offset loops.\<close>

definition embed_block_text ::
  "config \<Rightarrow> nat \<Rightarrow> nat \<Rightarrow> bitstr \<Rightarrow> nat \<Rightarrow> nat \<Rightarrow> embed_state \<Rightarrow> py_error + embed_state" where
  "embed_block_text cfg width height message_bits y x st =
     (let num_bits = block_depth cfg (pix st) x y
      in fold_err (\<lambda>dy. fold_err (embed_pixel_text width height message_bits num_bits x y dy)
                                 [0..<block_width cfg])
                  [0..<block_height cfg] st)"

definition embed_message :: "config \<Rightarrow> pixels \<Rightarrow> nat list \<Rightarrow> py_error + pixels" where
  "embed_message cfg pixels message =
     (let message_bits = message_to_bits message;
          width = img_width pixels; height = img_height pixels
      in case py_range 0 height (block_height cfg) of
           Inl e \<Rightarrow> Inl e
         | Inr ys \<Rightarrow>
             (case fold_err (\<lambda>y st. case py_range 0 width (block_width cfg) of
                                     Inl e \<Rightarrow> Inl e
                                   | Inr xs \<Rightarrow> fold_err (embed_block_text cfg width height message_bits y) xs st)
                     ys \<lparr>pix = pixels, bit_index = 0\<rparr> of
                Inl e \<Rightarrow> Inl e
              | Inr st \<Rightarrow> Inr (pix st)))"

section \<open>Extraction\<close>

definition extract_pixel_text ::
  "nat \<Rightarrow> nat \<Rightarrow> nat \<Rightarrow> pixels \<Rightarrow> nat \<Rightarrow> nat \<Rightarrow> nat \<Rightarrow> nat \<Rightarrow> nat \<Rightarrow> bitstr \<times> nat \<Rightarrow> bitstr \<times> nat" where
  "extract_pixel_text width height total_bits pixels num_bits x y dy dx acc =
     (if x + dx < width \<and> y + dy < height then
        (if snd acc < total_bits then
           fold (\<lambda>channel. extract_channel total_bits pixels num_bits (x + dx, y + dy, channel)) [0..<3] acc
         else acc)
      else acc)"

definition extract_block_text ::
  "config \<Rightarrow> nat \<Rightarrow> nat \<Rightarrow> nat \<Rightarrow> pixels \<Rightarrow> nat \<Rightarrow> nat \<Rightarrow> bitstr \<times> nat \<Rightarrow> bitstr \<times> nat" where
  "extract_block_text cfg width height total_bits pixels y x acc =
     (let num_bits = block_depth cfg pixels x y
      in fold (\<lambda>dy. fold (extract_pixel_text width height total_bits pixels num_bits x y dy)
                         [0..<block_width cfg])
              [0..<block_height cfg] acc)"

definition extract_message :: "config \<Rightarrow> pixels \<Rightarrow> nat \<Rightarrow> py_error + nat list" where
  "extract_message cfg pixels message_length =
     (let width = img_width pixels; height = img_height pixels; total_bits = message_length * 8
      in case py_range 0 height (block_height cfg) of
           Inl e \<Rightarrow> Inl e
         | Inr ys \<Rightarrow>
             (case fold_err (\<lambda>y acc. case py_range 0 width (block_width cfg) of
                                      Inl e \<Rightarrow> Inl e
                                    | Inr xs \<Rightarrow> Inr (fold (extract_block_text cfg width height total_bits pixels y) xs acc))
                     ys ([], 0) of
                Inl e \<Rightarrow> Inl e
              | Inr (message_bits, _) \<Rightarrow> bits_to_message message_bits total_bits))"

section \<open>From the nested loops to the walk\<close>

lemma fold_err_block_slots:
  "fold_err f (block_slots cfg W H x y) st =
     fold_err (\<lambda>dy. fold_err (\<lambda>dx st. if x + dx < W \<and> y + dy < H
                                          then fold_err (\<lambda>c. f (x + dx, y + dy, c)) [0..<3] st
                                          else Inr st)
                               [0..<block_width cfg])
              [0..<block_height cfg] st"
  by (simp add: block_slots_def block_pixels_def fold_err_concat fold_err_concat_fun
                fold_err_map fold_err_map_fun comp_def fold_err_if_single_fun
           cong: if_cong)

lemma embed_channels_done:
  "length bits \<le> bit_index st \<Longrightarrow> fold_err (\<lambda>c. embed_channel bits n (i, j, c)) cs st = Inr st"
  by (induction cs) (simp_all add: embed_channel_done)

lemma embed_pixel_text_walk:
  assumes "0 < n"
  shows "embed_pixel_text W H bits n x y dy =
         (\<lambda>dx st. if x + dx < W \<and> y + dy < H
                  then fold_err (\<lambda>c. embed_channel bits n (x + dx, y + dy, c)) [0..<3] st else Inr st)"
  using assms by (intro ext) (auto simp: embed_pixel_text_def embed_channels_done)

text \<open>One block, at a fixed depth, is the flat loop over its slots.\<close>

lemma embed_block_loops_walk:
  assumes "0 < n"
  shows "fold_err (\<lambda>dy. fold_err (embed_pixel_text W H bits n x y dy) [0..<block_width cfg])
                  [0..<block_height cfg] st
         = embed_walk bits (map (\<lambda>s. (s, n)) (block_slots cfg W H x y)) st"
  unfolding embed_walk_def fold_err_map
  by (simp add: comp_def fold_err_block_slots embed_pixel_text_walk [OF assms])

lemma embed_block_text_walk:
  assumes "valid_config cfg" "block_depth cfg (pix st) x y = n"
  shows "embed_block_text cfg W H bits y x st = embed_walk bits (map (\<lambda>s. (s, n)) (block_slots cfg W H x y)) st"
proof -
  have "0 < n" using block_depth_valid [OF assms(1), of "pix st" x y] assms(2) by simp
  then show ?thesis
    unfolding embed_block_text_def Let_def assms(2) by (rule embed_block_loops_walk)
qed

text \<open>The two range loops of \<open>embed_message\<close> enumerate the block origins.\<close>

lemma embed_message_origins:
  assumes "0 < block_width cfg" "0 < block_height cfg"
  shows "embed_message cfg px msg =
           (case fold_err (\<lambda>(x, y). embed_block_text cfg (img_width px) (img_height px) (message_to_bits msg) y x)
                   (block_origins cfg px) \<lparr>pix = px, bit_index = 0\<rparr> of
              Inl e \<Rightarrow> Inl e
            | Inr st \<Rightarrow> Inr (pix st))"
  using assms unfolding embed_message_def block_origins_def Let_def
  by (simp add: fold_err_concat fold_err_map fold_err_map_fun comp_def split_def)

text \<open>
  Classification during embedding: the blocks still to come see the carrier as it
  was, because every block written so far lies outside their footprints.
\<close>

lemma embed_blocks_walk:
  assumes "valid_config cfg"
    and "wf_pixels (pix st)" "img_width (pix st) = img_width px" "img_height (pix st) = img_height px"
    and "sorted_wrt before os"
    and "\<forall>x y. (x, y) \<in> set os \<longrightarrow> (\<exists>k. x = k * block_width cfg) \<and> (\<exists>k. y = k * block_height cfg)"
    and "\<forall>x y i j. (x, y) \<in> set os \<longrightarrow> (i, j) \<in> footprint cfg x y \<longrightarrow>
           i < img_width px \<longrightarrow> j < img_height px \<longrightarrow> chan (pix st) i j 0 = chan px i j 0"
  shows "fold_err (\<lambda>(x, y). embed_block_text cfg (img_width px) (img_height px) bits y x) os st
         = embed_walk bits (concat (map (\<lambda>(x, y). map (\<lambda>s. (s, block_depth cfg px x y))
                                          (block_slots cfg (img_width px) (img_height px) x y)) os)) st"
  using assms(2-7)
proof (induction os arbitrary: st)
  case Nil
  then show ?case by simp
next
  case (Cons q os)
  obtain x y where q: "q = (x, y)" by (cases q)
  let ?W = "img_width px" and ?H = "img_height px"
  let ?A = "map (\<lambda>s. (s, block_depth cfg px x y)) (block_slots cfg ?W ?H x y)"
  have "is_edge_block cfg (pix st) x y = is_edge_block cfg px x y"
    using Cons.prems(2,3,6) q by (intro is_edge_block_local) auto
  then have d: "block_depth cfg (pix st) x y = block_depth cfg px x y"
    by (simp add: block_depth_def)
  have blk: "embed_block_text cfg ?W ?H bits y x st = embed_walk bits ?A st"
    by (rule embed_block_text_walk [OF assms(1) d])
  show ?case
  proof (cases "embed_walk bits ?A st")
    case (Inl e)
    then show ?thesis using blk q by (simp add: embed_walk_append)
  next
    case (Inr st1)
    have sh: "wf_pixels (pix st1) \<and> img_width (pix st1) = img_width (pix st) \<and>
              img_height (pix st1) = img_height (pix st)"
      using Inr Cons.prems(1) by (rule embed_walk_shape)
    have mq: "(\<exists>k. x = k * block_width cfg) \<and> (\<exists>k. y = k * block_height cfg)"
      using Cons.prems(5) q by simp
    have agree: "\<forall>x' y' i j. (x', y') \<in> set os \<longrightarrow> (i, j) \<in> footprint cfg x' y' \<longrightarrow>
                   i < ?W \<longrightarrow> j < ?H \<longrightarrow> chan (pix st1) i j 0 = chan px i j 0"
    proof (intro allI impI)
      fix x' y' i j
      assume o: "(x', y') \<in> set os" and f: "(i, j) \<in> footprint cfg x' y'" and r: "i < ?W" "j < ?H"
      have "before (x, y) (x', y')" using Cons.prems(4) q o by simp
      moreover have "(\<exists>k. x' = k * block_width cfg) \<and> (\<exists>k. y' = k * block_height cfg)"
        using Cons.prems(5) o by simp
      ultimately have "(i, j) \<notin> set (block_pixels cfg ?W ?H x y)"
        using f mq before_footprint_disjoint [of x y x' y' cfg i j ?W ?H] by blast
      then have "(i, j, 0) \<notin> set (map fst ?A)" by (simp add: comp_def set_block_slots)
      then have "chan (pix st1) i j 0 = chan (pix st) i j 0"
        using embed_walk_frame [OF Inr, of "(i, j, 0)"] by simp
      also have "\<dots> = chan px i j 0" using Cons.prems(6) o f r q by simp
      finally show "chan (pix st1) i j 0 = chan px i j 0" .
    qed
    have "fold_err (\<lambda>(x, y). embed_block_text cfg ?W ?H bits y x) os st1 =
          embed_walk bits (concat (map (\<lambda>(x, y). map (\<lambda>s. (s, block_depth cfg px x y))
                                          (block_slots cfg ?W ?H x y)) os)) st1"
      using sh Cons.prems(2,3,4,5) agree by (intro Cons.IH) simp_all
    then show ?thesis using blk q Inr by (simp add: embed_walk_append)
  qed
qed

text \<open>\<open>embed_message\<close> is the flat loop over the walk, classified on the carrier.\<close>

lemma embed_message_walk:
  assumes "valid_config cfg" "wf_pixels px"
  shows "embed_message cfg px msg =
           (case embed_walk (message_to_bits msg) (walk cfg px (block_depth cfg px)) \<lparr>pix = px, bit_index = 0\<rparr> of
              Inl e \<Rightarrow> Inl e
            | Inr st \<Rightarrow> Inr (pix st))"
proof -
  have b: "0 < block_width cfg" "0 < block_height cfg" using assms(1) by (simp_all add: valid_config_def)
  have "fold_err (\<lambda>(x, y). embed_block_text cfg (img_width px) (img_height px) (message_to_bits msg) y x)
          (block_origins cfg px) \<lparr>pix = px, bit_index = 0\<rparr>
        = embed_walk (message_to_bits msg) (walk cfg px (block_depth cfg px)) \<lparr>pix = px, bit_index = 0\<rparr>"
    unfolding walk_def
    using assms sorted_block_origins block_origins_multiple [OF _ b]
    by (intro embed_blocks_walk) simp_all
  then show ?thesis by (simp add: embed_message_origins [OF b])
qed

section \<open>Extraction as a flat loop\<close>

lemma fold_block_slots:
  "fold f (block_slots cfg W H x y) =
     fold (\<lambda>dy. fold (\<lambda>dx acc. if x + dx < W \<and> y + dy < H
                                then fold (\<lambda>c. f (x + dx, y + dy, c)) [0..<3] acc else acc)
                      [0..<block_width cfg])
          [0..<block_height cfg]"
  by (simp add: block_slots_def block_pixels_def fold_concat fold_map comp_def fold_if_single
           cong: if_cong)

lemma extract_channels_done:
  "total_bits \<le> snd acc \<Longrightarrow> fold (\<lambda>c. extract_channel total_bits px n (i, j, c)) cs acc = acc"
  by (induction cs) (auto simp: extract_channel_def split: prod.splits)

lemma extract_pixel_text_walk:
  "extract_pixel_text W H total_bits px n x y dy =
     (\<lambda>dx acc. if x + dx < W \<and> y + dy < H
               then fold (\<lambda>c. extract_channel total_bits px n (x + dx, y + dy, c)) [0..<3] acc else acc)"
  by (intro ext) (auto simp: extract_pixel_text_def extract_channels_done)

lemma extract_block_text_walk:
  "extract_block_text cfg W H total_bits px y x acc =
     extract_walk total_bits px (map (\<lambda>s. (s, block_depth cfg px x y)) (block_slots cfg W H x y)) acc"
  unfolding extract_block_text_def extract_walk_def Let_def fold_map
  by (simp add: comp_def fold_block_slots extract_pixel_text_walk)

text \<open>The two range loops of the extractor, over the blocks, are the flat loop over the walk.\<close>

lemma extract_loops_walk:
  "fold (\<lambda>y. fold (extract_block_text cfg (img_width px) (img_height px) total_bits px y)
                   (range_list 0 (img_width px) (block_width cfg)))
        (range_list 0 (img_height px) (block_height cfg)) acc =
   extract_walk total_bits px (walk cfg px (block_depth cfg px)) acc"
proof -
  have blk: "extract_block_text cfg (img_width px) (img_height px) total_bits px y =
             (\<lambda>x. fold (extract_channel total_bits px (block_depth cfg px x y))
                        (block_slots cfg (img_width px) (img_height px) x y))" for y
    by (intro ext) (simp add: extract_block_text_walk extract_walk_def fold_map comp_def)
  show ?thesis
    unfolding extract_walk_def walk_def block_origins_def
    by (simp add: fold_concat fold_map comp_def split_def blk)
qed

text \<open>\<open>extract_message\<close> is the flat loop over the walk, followed by the decoder.\<close>

lemma extract_message_walk:
  assumes "0 < block_width cfg" "0 < block_height cfg"
  shows "extract_message cfg px message_length =
           (case extract_walk (message_length * 8) px (walk cfg px (block_depth cfg px)) ([], 0) of
              (message_bits, _) \<Rightarrow> bits_to_message message_bits (message_length * 8))"
  using assms unfolding extract_message_def Let_def
  by (simp add: fold_err_Inr extract_loops_walk)

section \<open>Embedding succeeds and extraction inverts it\<close>

lemma in_range_slots_walk:
  assumes "valid_config cfg"
  shows "in_range_slots px (walk cfg px (block_depth cfg q))"
proof -
  have h: "x < img_width px \<and> y < img_height px \<and> c < 3 \<and> 1 \<le> n \<and> n \<le> 8"
    if m: "((x, y, c), n) \<in> set (walk cfg px (block_depth cfg q))" for x y c n
  proof -
    have "x < img_width px \<and> y < img_height px \<and> c < 3"
      using walk_in_bounds [OF m] by simp
    moreover obtain x0 y0 where "n = block_depth cfg q x0 y0"
      using walk_depths [OF m] by auto
    then have "1 \<le> n \<and> n \<le> 8" using block_depth_valid [OF assms] by simp
    ultimately show ?thesis by simp
  qed
  then show ?thesis by (auto simp: in_range_slots_def)
qed

lemma embed_message_succeeds:
  assumes "valid_config cfg" "wf_pixels px"
  shows "\<exists>st'. embed_walk (message_to_bits msg) (walk cfg px (block_depth cfg px)) \<lparr>pix = px, bit_index = 0\<rparr> = Inr st' \<and>
               embed_message cfg px msg = Inr (pix st')"
proof -
  have "\<exists>st'. embed_walk (message_to_bits msg) (walk cfg px (block_depth cfg px)) \<lparr>pix = px, bit_index = 0\<rparr> = Inr st'"
    using assms(2) in_range_slots_walk [OF assms(1), of px px] by (intro embed_walk_ok) simp_all
  then show ?thesis using embed_message_walk [OF assms] by auto
qed

text \<open>
  The text round trip over the walk: when the extractor classifies every block as
  the embedder did and \<open>8 k\<close> ends on a chunk boundary, extracting \<open>k\<close> characters
  returns the message's first \<open>k\<close> characters.
\<close>

lemma extract_prefix_after_embed_walk:
  assumes "valid_config cfg" "wf_pixels px" "\<forall>c \<in> set msg. c < 256" "k \<le> length msg"
    and e: "embed_walk (message_to_bits msg) (walk cfg px (block_depth cfg px)) \<lparr>pix = px, bit_index = 0\<rparr> = Inr st'"
    and stable: "\<forall>x y. (x, y) \<in> set (block_origins cfg px) \<longrightarrow> block_depth cfg (pix st') x y = block_depth cfg px x y"
    and al: "chunk_aligned 0 (k * 8) (map snd (walk cfg px (block_depth cfg px)))"
  shows "extract_message cfg (pix st') k = Inr (take k msg)"
proof -
  let ?ss = "walk cfg px (block_depth cfg px)" and ?bits = "message_to_bits msg"
  have L: "k * 8 \<le> length ?bits" using assms(3,4) length_message_to_bits [of msg] by simp
  have b: "0 < block_width cfg" "0 < block_height cfg" using assms(1) by (simp_all add: valid_config_def)
  have sh: "wf_pixels (pix st') \<and> img_width (pix st') = img_width px \<and> img_height (pix st') = img_height px"
    using embed_walk_shape [OF e] assms(2) by simp
  have w: "walk cfg (pix st') (block_depth cfg (pix st')) = ?ss"
    using sh stable by (intro walk_cong) simp_all
  have "extract_walk (k * 8) (pix st') ?ss ([], 0) = ([] @ take (k * 8 - 0) (drop 0 ?bits), k * 8)"
    using extract_embed_walk_prefix [of "\<lparr>pix = px, bit_index = 0\<rparr>" ?ss "k * 8" ?bits st' "[]"]
      assms(2) in_range_slots_walk [OF assms(1), of px px] distinct_walk [OF b] al e L
    by simp
  then have "extract_walk (k * 8) (pix st') ?ss ([], 0) = (message_to_bits (take k msg), k * 8)"
    using take_message_to_bits [OF assms(3,4)] by simp
  moreover have "\<forall>c \<in> set (take k msg). c < 256" using assms(3) by (auto dest: in_set_takeD)
  moreover have "length (take k msg) = k" using assms(4) by simp
  ultimately show ?thesis
    using extract_message_walk [OF b, of "pix st'" k] w bits_to_message_to_bits [of "take k msg" "[]"]
    by simp
qed

lemma extract_after_embed_walk:
  assumes "valid_config cfg" "wf_pixels px" "\<forall>c \<in> set msg. c < 256"
    and "embed_walk (message_to_bits msg) (walk cfg px (block_depth cfg px)) \<lparr>pix = px, bit_index = 0\<rparr> = Inr st'"
    and "\<forall>x y. (x, y) \<in> set (block_origins cfg px) \<longrightarrow> block_depth cfg (pix st') x y = block_depth cfg px x y"
    and "chunk_aligned 0 (length msg * 8) (map snd (walk cfg px (block_depth cfg px)))"
  shows "extract_message cfg (pix st') (length msg) = Inr msg"
  using extract_prefix_after_embed_walk [OF assms(1-3) order_refl assms(4-6)] by simp

text \<open>
  With a threshold of at least 16 every block is flat; when the flat depth divides 8 and the
  message fits, embedding succeeds and every prefix length reads back its prefix.
\<close>

text \<open>With a threshold of at least 16 every slot of the walk has the non-edge depth.\<close>

lemma flat_walk_depths:
  assumes "valid_config cfg" "16 \<le> threshold cfg"
  shows "map snd (walk cfg px (block_depth cfg px)) = replicate (3 * img_width px * img_height px) (non_edge_bits cfg)"
proof -
  have b: "0 < block_width cfg" "0 < block_height cfg" using assms(1) by (simp_all add: valid_config_def)
  have "\<forall>n \<in> set (map snd (walk cfg px (block_depth cfg px))). n = non_edge_bits cfg"
    using walk_depths block_depth_high_threshold [OF assms(2)] by fastforce
  then show ?thesis using length_walk [OF b, of px] by (intro replicate_eqI) auto
qed

text \<open>A valid configuration gives every slot of the walk a positive depth.\<close>

lemma walk_depths_pos:
  assumes "valid_config cfg"
  shows "\<forall>(s, n) \<in> set (walk cfg px (block_depth cfg px)). 0 < n"
proof -
  have pos: "0 < edge_bits cfg" "0 < non_edge_bits cfg" using assms by (simp_all add: valid_config_def)
  have "0 < n" if "(s, n) \<in> set (walk cfg px (block_depth cfg px))" for s n
  proof -
    from walk_depths [OF that] obtain x y where "n = block_depth cfg px x y" by auto
    then show ?thesis using block_depth_cases [of cfg px x y] pos by auto
  qed
  then show ?thesis by auto
qed

lemma flat_text_roundtrip:
  assumes "valid_config cfg" "16 \<le> threshold cfg" "non_edge_bits cfg dvd 8"
    and "wf_pixels px" "\<forall>c \<in> set msg. c < 256"
    and "length msg * 8 \<le> 3 * non_edge_bits cfg * img_width px * img_height px"
  shows "\<exists>px'. embed_message cfg px msg = Inr px' \<and>
               (\<forall>k \<le> length msg. extract_message cfg px' k = Inr (take k msg))"
proof -
  let ?d = "non_edge_bits cfg" and ?ss = "walk cfg px (block_depth cfg px)"
  have flat: "block_depth cfg q x y = ?d" for q x y by (rule block_depth_high_threshold [OF assms(2)])
  have b: "0 < block_width cfg" "0 < block_height cfg" and d: "0 < ?d"
    using assms(1) by (simp_all add: valid_config_def)
  obtain st' where e: "embed_walk (message_to_bits msg) ?ss \<lparr>pix = px, bit_index = 0\<rparr> = Inr st'"
    and r: "embed_message cfg px msg = Inr (pix st')"
    using embed_message_succeeds [OF assms(1,4)] by blast
  have ds: "\<forall>n \<in> set (map snd ?ss). n = ?d" and len: "length (map snd ?ss) = 3 * img_width px * img_height px"
    by (simp_all add: flat_walk_depths [OF assms(1,2)])
  have "extract_message cfg (pix st') k = Inr (take k msg)" if k: "k \<le> length msg" for k
  proof -
    have "?d dvd (k * 8 - 0)" using assms(3) by simp
    moreover have "k * 8 \<le> 0 + ?d * length (map snd ?ss)" using k assms(6) len by (simp add: ac_simps)
    ultimately have "chunk_aligned 0 (k * 8) (map snd ?ss)"
      using ds d by (intro chunk_aligned_uniform) simp_all
    then show ?thesis using extract_prefix_after_embed_walk [OF assms(1,4,5) k e] flat by simp
  qed
  then show ?thesis using r by blast
qed

section \<open>Which exceptions the text engine raises\<close>

lemma embed_channel_Inl: "embed_channel bits n sl st = Inl e \<Longrightarrow> e = EmptyBinLiteral"
  by (auto simp: embed_channel_def dest: embed_bits_Inl split: prod.splits if_splits sum.splits)

lemma embed_message_Inl: "embed_message cfg px msg = Inl e \<Longrightarrow> e = RangeZeroStep \<or> e = EmptyBinLiteral"
  by (fastforce simp: embed_message_def embed_block_text_def embed_pixel_text_def Let_def py_range_def
                dest!: fold_err_Inl_step embed_channel_Inl split: sum.splits if_splits)

lemma bits_to_message_Inl: "bits_to_message bits n = Inl e \<Longrightarrow> e = EmptyBinLiteral"
  by (auto simp: bits_to_message_def py_int_base2_def dest!: map_err_Inl_step split: if_splits)

lemma extract_message_Inl: "extract_message cfg px n = Inl e \<Longrightarrow> e = RangeZeroStep \<or> e = EmptyBinLiteral"
  by (fastforce simp: extract_message_def Let_def py_range_def
                dest!: fold_err_Inl_step bits_to_message_Inl split: sum.splits if_splits prod.splits)

lemma extract_message_bytes:
  "extract_message cfg px n = Inr m \<Longrightarrow> \<forall>c \<in> set m. c < 256"
  by (auto simp: extract_message_def Let_def split: sum.splits prod.splits dest!: bits_to_message_bytes)

lemma embed_message_shape:
  assumes "valid_config cfg" "wf_pixels px" "embed_message cfg px msg = Inr px'"
  shows "wf_pixels px' \<and> img_width px' = img_width px \<and> img_height px' = img_height px"
proof -
  obtain st' where e: "embed_walk (message_to_bits msg) (walk cfg px (block_depth cfg px)) \<lparr>pix = px, bit_index = 0\<rparr> = Inr st'"
    and p: "embed_message cfg px msg = Inr (pix st')"
    using embed_message_succeeds [OF assms(1,2)] by blast
  show ?thesis using embed_walk_shape [OF e] assms(2,3) p by simp
qed

end
