(* ===== verification/Text_GUI.thy ===== *)
theory Text_GUI
  imports Gui_Common Text_Engine
begin

text \<open>
  \<open>TextSteganographyGUI\<close> of \<open>text_steganography_gui.py\<close>.  The widgets the
  handlers read and write are the fields of a record; an attribute the source
  creates on first assignment (\<open>encode_file_path\<close>, \<open>decode_file_path\<close>) is an
  option, \<open>None\<close> while \<open>hasattr\<close> is false.  \<open>messagebox.showerror\<close> appends its
  text to a list of dialogs; an exception that escapes a Tk callback is printed
  by Tk and the loop goes on, so it is appended to \<open>uncaught\<close>.  A
  \<open>threading.Thread(...).start()\<close> appends a job with the arguments the thread
  was given; running a worker removes its job and applies the thread body to the
  state.  A user action is an event; the Tk main loop runs events one at a time,
  so a session is a list of events folded over the state, and the reachable
  states are an inductive predicate.  Each worker body runs as one step.
\<close>

section \<open>State\<close>

datatype text_job = EncodeMessageJob string string | DecodeMessageJob string nat

record text_gui =
  stego :: config
  encode_file_path :: "string option"
  decode_file_path :: "string option"
  encode_file_label :: file_label
  decode_file_label :: file_label
  encode_message_entry :: string
  decode_length_entry :: string
  encode_status_label :: status_text
  decode_status_label :: status_text
  error_dialogs :: "string list"
  uncaught :: "py_error list"
  text_jobs :: "text_job list"
  text_files :: file_store

text \<open>\<open>__init__\<close> with \<open>create_encode_tab\<close> and \<open>create_decode_tab\<close>, on a given file system.\<close>

definition text_gui_init :: "file_store \<Rightarrow> text_gui" where
  "text_gui_init files =
     \<lparr>stego = default_config, encode_file_path = None, decode_file_path = None,
      encode_file_label = NoFileSelected, decode_file_label = NoFileSelected,
      encode_message_entry = [], decode_length_entry = [],
      encode_status_label = StatusBlank, decode_status_label = StatusBlank,
      error_dialogs = [], uncaught = [], text_jobs = [], text_files = files\<rparr>"

definition show_error :: "string \<Rightarrow> text_gui \<Rightarrow> text_gui" where
  "show_error msg s = s\<lparr>error_dialogs := error_dialogs s @ [msg]\<rparr>"

section \<open>Handlers\<close>

text \<open>\<open>select_encode_file\<close>: the argument is what \<open>askopenfilename\<close> returned, \<open>''''\<close> when cancelled.\<close>

definition select_encode_file :: "string \<Rightarrow> text_gui \<Rightarrow> text_gui" where
  "select_encode_file file_path s =
     (if file_path \<noteq> [] then s\<lparr>encode_file_path := Some file_path, encode_file_label := selected_label file_path\<rparr>
      else s\<lparr>encode_file_label := NoFileSelected\<rparr>)"

definition select_decode_file :: "string \<Rightarrow> text_gui \<Rightarrow> text_gui" where
  "select_decode_file file_path s =
     (if file_path \<noteq> [] then s\<lparr>decode_file_path := Some file_path, decode_file_label := selected_label file_path\<rparr>
      else s\<lparr>decode_file_label := NoFileSelected\<rparr>)"

definition start_encoding :: "text_gui \<Rightarrow> text_gui" where
  "start_encoding s =
     (case encode_file_path s of
        None \<Rightarrow> show_error ''No image file selected for encoding!'' s
      | Some file_path \<Rightarrow>
          (let message = py_strip (encode_message_entry s)
           in if message = [] then show_error ''Message cannot be empty!'' s
              else s\<lparr>encode_status_label := EncodingInProgress,
                     text_jobs := text_jobs s @ [EncodeMessageJob file_path message]\<rparr>))"

text \<open>
  \<open>encode_message\<close>, the thread body: the engine's \<open>embed_message\<close> opens the
  image and embeds the code points of the message; the result is saved and the
  status label names the save path, or shows the exception.
\<close>

definition encode_message_job :: "config \<Rightarrow> file_store \<Rightarrow> string \<Rightarrow> string \<Rightarrow> file_store \<times> status_text" where
  "encode_message_job cfg files file_path message =
     (case load_image files file_path of
        Inl e \<Rightarrow> (files, StatusError e)
      | Inr pixels \<Rightarrow>
          (case embed_message cfg pixels (map of_char message) of
             Inl e \<Rightarrow> (files, StatusError e)
           | Inr encrypted \<Rightarrow> (files(encrypted_save_path \<mapsto> encrypted), EncodingSaved encrypted_save_path)))"

text \<open>
  \<open>start_decoding\<close>: the status label is set before \<open>int(length)\<close> is evaluated
  as the thread's argument, outside any \<open>try\<close>.
\<close>

definition start_decoding :: "text_gui \<Rightarrow> text_gui" where
  "start_decoding s =
     (case decode_file_path s of
        None \<Rightarrow> show_error ''No image file selected for decoding!'' s
      | Some file_path \<Rightarrow>
          (let length_text = py_strip (decode_length_entry s)
           in if \<not> py_isdigit length_text then show_error ''Invalid message length!'' s
              else
                (let s' = s\<lparr>decode_status_label := DecodingInProgress\<rparr>
                 in case py_int length_text of
                      Inl e \<Rightarrow> s'\<lparr>uncaught := uncaught s' @ [e]\<rparr>
                    | Inr n \<Rightarrow> s'\<lparr>text_jobs := text_jobs s' @ [DecodeMessageJob file_path (nat n)]\<rparr>)))"

definition decode_message_job :: "config \<Rightarrow> file_store \<Rightarrow> string \<Rightarrow> nat \<Rightarrow> status_text" where
  "decode_message_job cfg files file_path message_length =
     (case load_image files file_path of
        Inl e \<Rightarrow> StatusError e
      | Inr pixels \<Rightarrow>
          (case extract_message cfg pixels message_length of
             Inl e \<Rightarrow> StatusError e
           | Inr message \<Rightarrow> DecodedMessage message))"

text \<open>A worker thread runs its body to the end.\<close>

definition run_text_job :: "text_job \<Rightarrow> text_gui \<Rightarrow> text_gui" where
  "run_text_job j s =
     (case j of
        EncodeMessageJob file_path message \<Rightarrow>
          (case encode_message_job (stego s) (text_files s) file_path message of
             (files', status) \<Rightarrow> s\<lparr>text_files := files', encode_status_label := status\<rparr>)
      | DecodeMessageJob file_path message_length \<Rightarrow>
          s\<lparr>decode_status_label := decode_message_job (stego s) (text_files s) file_path message_length\<rparr>)"

section \<open>Events\<close>

text \<open>
  A file dialog's result, an edit of an entry, a click on one of the two
  \<open>RoundedButton\<close>s (whose \<open>on_click\<close> calls the command), or the \<open>i\<close>-th pending
  thread running.  A thread that does not exist does nothing.
\<close>

datatype text_event = SelectEncodeFile string | SelectDecodeFile string | TypeMessage string
  | TypeLength string | ClickEncode | ClickDecode | RunTextWorker nat

fun text_gui_step :: "text_gui \<Rightarrow> text_event \<Rightarrow> text_gui" where
  "text_gui_step s (SelectEncodeFile p) = select_encode_file p s"
| "text_gui_step s (SelectDecodeFile p) = select_decode_file p s"
| "text_gui_step s (TypeMessage m) = s\<lparr>encode_message_entry := m\<rparr>"
| "text_gui_step s (TypeLength l) = s\<lparr>decode_length_entry := l\<rparr>"
| "text_gui_step s ClickEncode = start_encoding s"
| "text_gui_step s ClickDecode = start_decoding s"
| "text_gui_step s (RunTextWorker i) =
     (if i < length (text_jobs s)
      then run_text_job (text_jobs s ! i) (s\<lparr>text_jobs := remove_job i (text_jobs s)\<rparr>)
      else s)"

definition text_gui_run :: "text_gui \<Rightarrow> text_event list \<Rightarrow> text_gui" where
  "text_gui_run s es = foldl text_gui_step s es"

inductive text_gui_reachable :: "file_store \<Rightarrow> text_gui \<Rightarrow> bool" where
  start: "text_gui_reachable files (text_gui_init files)"
| step: "text_gui_reachable files s \<Longrightarrow> text_gui_reachable files (text_gui_step s e)"

section \<open>Invariant\<close>

text \<open>
  What the handlers keep true: the engine keeps its default configuration, stored
  paths are non-empty, a label that names a file names the stored one, and every
  pending encoding carries a non-empty, stripped message and a non-empty path.
\<close>

fun text_job_ok :: "text_job \<Rightarrow> bool" where
  "text_job_ok (EncodeMessageJob file_path message) \<longleftrightarrow>
     file_path \<noteq> [] \<and> message \<noteq> [] \<and> py_strip message = message"
| "text_job_ok (DecodeMessageJob file_path message_length) \<longleftrightarrow> file_path \<noteq> []"

definition text_gui_inv :: "text_gui \<Rightarrow> bool" where
  "text_gui_inv s \<longleftrightarrow>
     stego s = default_config \<and> path_ok (encode_file_path s) \<and> path_ok (decode_file_path s) \<and>
     label_names (encode_file_label s) (encode_file_path s) \<and>
     label_names (decode_file_label s) (decode_file_path s) \<and> list_all text_job_ok (text_jobs s)"

section \<open>Lemmas\<close>

lemma run_text_job_frame:
  "stego (run_text_job j s) = stego s \<and> encode_file_path (run_text_job j s) = encode_file_path s \<and>
   decode_file_path (run_text_job j s) = decode_file_path s \<and>
   encode_file_label (run_text_job j s) = encode_file_label s \<and>
   decode_file_label (run_text_job j s) = decode_file_label s \<and> text_jobs (run_text_job j s) = text_jobs s"
  by (cases j) (simp_all add: run_text_job_def case_prod_unfold)

lemma run_text_job_jobs_update:
  "run_text_job j (s\<lparr>text_jobs := js\<rparr>) = (run_text_job j s)\<lparr>text_jobs := js\<rparr>"
  by (cases j) (simp_all add: run_text_job_def case_prod_unfold)

lemma text_gui_inv_init: "text_gui_inv (text_gui_init files)"
  by (simp add: text_gui_inv_def text_gui_init_def label_names_def)

lemma text_gui_inv_step:
  assumes "text_gui_inv s"
  shows "text_gui_inv (text_gui_step s e)"
proof (cases e)
  case (RunTextWorker i)
  have "list_all text_job_ok (remove_job i (text_jobs s))"
    using assms remove_job_subset [of i "text_jobs s"] by (auto simp: text_gui_inv_def list_all_iff)
  then show ?thesis using assms RunTextWorker run_text_job_frame [of _ "s\<lparr>text_jobs := remove_job i (text_jobs s)\<rparr>"]
    by (simp add: text_gui_inv_def)
next
  case ClickEncode
  then show ?thesis using assms
    by (auto simp: text_gui_inv_def start_encoding_def show_error_def Let_def py_strip_idem split: option.splits)
next
  case ClickDecode
  then show ?thesis using assms
    by (auto simp: text_gui_inv_def start_decoding_def show_error_def Let_def split: option.splits sum.splits)
qed (use assms in \<open>auto simp: text_gui_inv_def select_encode_file_def select_decode_file_def\<close>)

lemma text_gui_reachable_run:
  "text_gui_reachable files s \<Longrightarrow> text_gui_reachable files (text_gui_run s es)"
  unfolding text_gui_run_def
  by (induction es arbitrary: s) (auto intro: text_gui_reachable.step)

section \<open>Workers\<close>

text \<open>Running the first worker as often as there are jobs runs them all, oldest first.\<close>

lemma text_gui_run_workers:
  "text_gui_run s (replicate (length (text_jobs s)) (RunTextWorker 0)) =
   fold run_text_job (text_jobs s) (s\<lparr>text_jobs := []\<rparr>)"
proof (induction "text_jobs s" arbitrary: s)
  case Nil
  then show ?case by (simp add: text_gui_run_def)
next
  case (Cons j js)
  let ?t = "run_text_job j (s\<lparr>text_jobs := js\<rparr>)"
  have step: "text_gui_step s (RunTextWorker 0) = ?t" using Cons.hyps(2) [symmetric] by simp
  have jobs: "text_jobs ?t = js" using run_text_job_frame [of j "s\<lparr>text_jobs := js\<rparr>"] by simp
  have "?t\<lparr>text_jobs := []\<rparr> = run_text_job j (s\<lparr>text_jobs := []\<rparr>)"
    by (simp add: run_text_job_jobs_update)
  then show ?case using Cons.hyps(1) [of ?t] jobs step Cons.hyps(2) [symmetric]
    by (simp add: text_gui_run_def)
qed

lemma fold_run_text_job_jobs: "text_jobs (fold run_text_job js s) = text_jobs s"
  by (induction js arbitrary: s) (simp_all add: run_text_job_frame)

text \<open>Whether a job's status label has left its in-progress text.\<close>

fun job_answered :: "text_job \<Rightarrow> text_gui \<Rightarrow> bool" where
  "job_answered (EncodeMessageJob file_path message) s \<longleftrightarrow> encode_status_label s \<noteq> EncodingInProgress"
| "job_answered (DecodeMessageJob file_path message_length) s \<longleftrightarrow> decode_status_label s \<noteq> DecodingInProgress"

lemma run_text_job_answers:
  "job_answered j (run_text_job j s) \<and> (job_answered k s \<longrightarrow> job_answered k (run_text_job j s))"
  by (cases j; cases k)
     (auto simp: run_text_job_def encode_message_job_def decode_message_job_def case_prod_unfold
           split: sum.splits)

lemma fold_run_text_job_answers:
  "job_answered k s \<or> k \<in> set js \<Longrightarrow> job_answered k (fold run_text_job js s)"
  by (induction js arbitrary: s) (auto simp: run_text_job_answers)

end
