(* ===== verification/Image_Engine.thy ===== *)
theory Image_Engine
  imports Text_Engine "HOL-Library.Sublist"
begin

text \<open>
  \<open>embed_image\<close> and \<open>extract_image\<close> of \<open>image_steganography.py\<close>.  They walk the
  same blocks as the text engine but differ in three places: the cursor check is
  made once per pixel (together with the bounds check) and not before each
  channel, there is no \<open>num_bits > 0\<close> guard, and a block whose cursor is already
  past the payload \<open>break\<close>s out of the rest of its row of blocks.  The classifier
  is the copy of this file, with its \<open>>=\<close> bounds guard.  The lemmas show that
  whenever \<open>embed_image\<close> succeeds it computes exactly what the text engine's walk
  computes on the image's bit string, that the extractor returns the text engine's
  bits followed possibly by some extra ones, and hence the image round trip; and
  that a payload which ends inside a pixel makes \<open>embed_image\<close> raise.
\<close>

section \<open>The image file's own class\<close>

text \<open>
  \<open>image_steganography.py\<close> defines its own \<open>EdgeDetectStego\<close>: module constants
  for the defaults and its own copies of \<open>embed_bits\<close> and \<open>extract_bits\<close>.  The
  image engine, the image GUI and the image demo use these; they are written
  here as the file writes them and proved equal to the text file's.
\<close>

definition default_config_img :: config where
  "default_config_img =
     \<lparr>threshold = 128, edge_bits = 4, non_edge_bits = 1, block_width = 3, block_height = 3\<rparr>"

definition embed_bits_img :: "pixels \<Rightarrow> nat \<Rightarrow> nat \<Rightarrow> bitstr \<Rightarrow> nat \<Rightarrow> py_error + pixels" where
  "embed_bits_img px x y bits channel =
     (let current_value = chan px x y channel in
      case py_int_base2 bits of
        Inl e \<Rightarrow> Inl e
      | Inr bits_value \<Rightarrow>
          let mask = push_bit (length bits) 1 - (1::int);
              new_value = (uint current_value AND NOT mask) OR int bits_value
          in Inr (set_chan px x y channel (word_of_int new_value)))"

definition extract_bits_img :: "pixels \<Rightarrow> nat \<Rightarrow> nat \<Rightarrow> nat \<Rightarrow> nat \<Rightarrow> bitstr" where
  "extract_bits_img px x y num_bits channel =
     (let value = unat (chan px x y channel) AND (push_bit num_bits 1 - 1)
      in format_bin num_bits value)"

lemma default_config_img_eq [simp]: "default_config_img = default_config"
  by (simp add: default_config_img_def default_config_def)

lemma embed_bits_img_eq [simp]: "embed_bits_img = embed_bits"
  by (intro ext) (simp add: embed_bits_img_def embed_bits_def)

lemma extract_bits_img_eq [simp]: "extract_bits_img = extract_bits"
  by (intro ext) (simp add: extract_bits_img_def extract_bits_def)

section \<open>Embedding\<close>

text \<open>
  \<open>self.embed_bits(pixels, x + dx, y + dy, hidden_bits[bit_index:bit_index +
  num_bits], channel); bit_index += num_bits\<close>, with no cursor check: past the
  end of \<open>hidden_bits\<close> the slice is empty and \<open>int('', 2)\<close> raises.
\<close>

definition embed_channel_img :: "bitstr \<Rightarrow> nat \<Rightarrow> slot \<Rightarrow> embed_state \<Rightarrow> py_error + embed_state" where
  "embed_channel_img hidden_bits num_bits s st =
     (case s of (x, y, channel) \<Rightarrow>
        case embed_bits_img (pix st) x y (take num_bits (drop (bit_index st) hidden_bits)) channel of
          Inl e \<Rightarrow> Inl e
        | Inr p \<Rightarrow> Inr (st\<lparr>pix := p, bit_index := bit_index st + num_bits\<rparr>))"

text \<open>\<open>if (x + dx < width) and (y + dy < height) and (bit_index < len(hidden_bits)): for channel in range(3): ...\<close>\<close>

definition embed_pixel_img ::
  "nat \<Rightarrow> nat \<Rightarrow> bitstr \<Rightarrow> nat \<Rightarrow> nat \<Rightarrow> nat \<Rightarrow> nat \<Rightarrow> nat \<Rightarrow> embed_state \<Rightarrow> py_error + embed_state" where
  "embed_pixel_img width height hidden_bits num_bits x y dy dx st =
     (if x + dx < width \<and> y + dy < height \<and> bit_index st < length hidden_bits then
        fold_err (\<lambda>channel. embed_channel_img hidden_bits num_bits (x + dx, y + dy, channel)) [0..<3] st
      else Inr st)"

text \<open>\<open>num_bits = self.edge_bits if self.is_edge_block(pixels, x, y) else self.non_edge_bits\<close>\<close>

definition block_depth_img :: "config \<Rightarrow> pixels \<Rightarrow> nat \<Rightarrow> nat \<Rightarrow> nat" where
  "block_depth_img cfg px x y = (if is_edge_block_img cfg px x y then edge_bits cfg else non_edge_bits cfg)"

definition embed_block_img ::
  "config \<Rightarrow> nat \<Rightarrow> nat \<Rightarrow> bitstr \<Rightarrow> nat \<Rightarrow> nat \<Rightarrow> embed_state \<Rightarrow> py_error + embed_state" where
  "embed_block_img cfg width height hidden_bits y x st =
     (let num_bits = block_depth_img cfg (pix st) x y
      in fold_err (\<lambda>dy. fold_err (embed_pixel_img width height hidden_bits num_bits x y dy)
                                 [0..<block_width cfg])
                  [0..<block_height cfg] st)"

text \<open>
  One row of blocks: \<open>for x in range(0, width, self.block_width): if bit_index >=
  len(hidden_bits): break\<close>.  The \<open>break\<close> leaves only this row.
\<close>

fun embed_row_img ::
  "config \<Rightarrow> nat \<Rightarrow> nat \<Rightarrow> bitstr \<Rightarrow> nat \<Rightarrow> nat list \<Rightarrow> embed_state \<Rightarrow> py_error + embed_state" where
  "embed_row_img cfg width height hidden_bits y [] st = Inr st"
| "embed_row_img cfg width height hidden_bits y (x # xs) st =
     (if length hidden_bits \<le> bit_index st then Inr st
      else case embed_block_img cfg width height hidden_bits y x st of
             Inl e \<Rightarrow> Inl e
           | Inr st' \<Rightarrow> embed_row_img cfg width height hidden_bits y xs st')"

definition embed_image :: "config \<Rightarrow> pixels \<Rightarrow> pixels \<Rightarrow> py_error + pixels" where
  "embed_image cfg pixels hidden_pixels =
     (let width = img_width pixels; height = img_height pixels;
          hidden_bits = image_to_bits hidden_pixels
      in case py_range 0 height (block_height cfg) of
           Inl e \<Rightarrow> Inl e
         | Inr ys \<Rightarrow>
             (case fold_err (\<lambda>y st. case py_range 0 width (block_width cfg) of
                                     Inl e \<Rightarrow> Inl e
                                   | Inr xs \<Rightarrow> embed_row_img cfg width height hidden_bits y xs st)
                     ys \<lparr>pix = pixels, bit_index = 0\<rparr> of
                Inl e \<Rightarrow> Inl e
              | Inr st \<Rightarrow> Inr (pix st)))"

section \<open>Extraction\<close>

text \<open>\<open>hidden_bits += self.extract_bits(pixels, x + dx, y + dy, num_bits, channel); bit_index += num_bits\<close>\<close>

definition extract_channel_img :: "pixels \<Rightarrow> nat \<Rightarrow> slot \<Rightarrow> bitstr \<times> nat \<Rightarrow> bitstr \<times> nat" where
  "extract_channel_img px num_bits s acc =
     (case s of (x, y, channel) \<Rightarrow> case acc of (hidden_bits, i) \<Rightarrow>
        (hidden_bits @ extract_bits_img px x y num_bits channel, i + num_bits))"

definition extract_pixel_img ::
  "nat \<Rightarrow> nat \<Rightarrow> nat \<Rightarrow> pixels \<Rightarrow> nat \<Rightarrow> nat \<Rightarrow> nat \<Rightarrow> nat \<Rightarrow> nat \<Rightarrow> bitstr \<times> nat \<Rightarrow> bitstr \<times> nat" where
  "extract_pixel_img width height total_bits pixels num_bits x y dy dx acc =
     (if x + dx < width \<and> y + dy < height \<and> snd acc < total_bits then
        fold (\<lambda>channel. extract_channel_img pixels num_bits (x + dx, y + dy, channel)) [0..<3] acc
      else acc)"

definition extract_block_img ::
  "config \<Rightarrow> nat \<Rightarrow> nat \<Rightarrow> nat \<Rightarrow> pixels \<Rightarrow> nat \<Rightarrow> nat \<Rightarrow> bitstr \<times> nat \<Rightarrow> bitstr \<times> nat" where
  "extract_block_img cfg width height total_bits pixels y x acc =
     (let num_bits = block_depth_img cfg pixels x y
      in fold (\<lambda>dy. fold (extract_pixel_img width height total_bits pixels num_bits x y dy)
                         [0..<block_width cfg])
              [0..<block_height cfg] acc)"

fun extract_row_img ::
  "config \<Rightarrow> nat \<Rightarrow> nat \<Rightarrow> nat \<Rightarrow> pixels \<Rightarrow> nat \<Rightarrow> nat list \<Rightarrow> bitstr \<times> nat \<Rightarrow> bitstr \<times> nat" where
  "extract_row_img cfg width height total_bits pixels y [] acc = acc"
| "extract_row_img cfg width height total_bits pixels y (x # xs) acc =
     (if total_bits \<le> snd acc then acc
      else extract_row_img cfg width height total_bits pixels y xs
             (extract_block_img cfg width height total_bits pixels y x acc))"

definition extract_image :: "config \<Rightarrow> pixels \<Rightarrow> nat \<times> nat \<Rightarrow> py_error + pixels" where
  "extract_image cfg pixels hidden_image_size =
     (let width = img_width pixels; height = img_height pixels;
          total_bits = (case hidden_image_size of (hidden_width, hidden_height) \<Rightarrow> hidden_width * hidden_height * 8 * 3)
      in case py_range 0 height (block_height cfg) of
           Inl e \<Rightarrow> Inl e
         | Inr ys \<Rightarrow>
             (case fold_err (\<lambda>y acc. case py_range 0 width (block_width cfg) of
                                      Inl e \<Rightarrow> Inl e
                                    | Inr xs \<Rightarrow> Inr (extract_row_img cfg width height total_bits pixels y xs acc))
                     ys ([], 0) of
                Inl e \<Rightarrow> Inl e
              | Inr (hidden_bits, _) \<Rightarrow> bits_to_image hidden_bits hidden_image_size))"

section \<open>Extraction against the text engine\<close>

text \<open>
  The image extractor checks the cursor once per pixel, so it may read up to two
  channels past \<open>total_bits\<close>.  Its accumulator is the text extractor's, or, once
  both cursors are past \<open>total_bits\<close>, the text extractor's bits followed by extra
  ones.
\<close>

definition extract_sim :: "nat \<Rightarrow> bitstr \<times> nat \<Rightarrow> bitstr \<times> nat \<Rightarrow> bool" where
  "extract_sim total_bits a b \<longleftrightarrow>
     a = b \<or> (total_bits \<le> snd a \<and> total_bits \<le> snd b \<and> prefix (fst b) (fst a))"

section \<open>A successful image embedding is the text engine's walk\<close>

lemma block_depth_img_eq: "block_depth_img cfg px x y = block_depth cfg px x y"
  by (simp add: block_depth_img_def block_depth_def is_edge_block_img_eq)

text \<open>A channel write that does not raise had a non-empty slice, so the cursor check passes.\<close>

lemma embed_channel_img_ok:
  assumes "embed_channel_img bits n s st = Inr st'"
  shows "embed_channel bits n s st = Inr st'"
proof (cases "bit_index st < length bits")
  case True
  then show ?thesis using assms by (cases s) (simp add: embed_channel_img_def embed_channel_def)
next
  case False
  then show ?thesis using assms by (cases s) (simp add: embed_channel_img_def embed_bits_Nil)
qed

lemma embed_pixel_img_ok:
  assumes "embed_pixel_img W H bits n x y dy dx st = Inr st'"
  shows "embed_pixel_text W H bits n x y dy dx st = Inr st'"
proof (cases "x + dx < W \<and> y + dy < H \<and> bit_index st < length bits")
  case True
  have f: "fold_err (\<lambda>c. embed_channel_img bits n (x + dx, y + dy, c)) [0..<3] st = Inr st'"
    using assms True by (simp add: embed_pixel_img_def)
  have "0 < n"
  proof (rule ccontr)
    assume "\<not> 0 < n"
    then have "embed_channel_img bits n (x + dx, y + dy, 0) st = Inl EmptyBinLiteral"
      by (simp add: embed_channel_img_def embed_bits_Nil)
    then show False using f by (simp add: upt_conv_Cons)
  qed
  moreover have "fold_err (\<lambda>c. embed_channel bits n (x + dx, y + dy, c)) [0..<3] st = Inr st'"
    using f by (rule fold_err_Inr_mono) (rule embed_channel_img_ok)
  ultimately show ?thesis using True by (simp add: embed_pixel_text_def)
next
  case False
  then show ?thesis using assms by (auto simp: embed_pixel_img_def embed_pixel_text_def)
qed

lemma embed_block_img_ok:
  assumes "embed_block_img cfg W H bits y x st = Inr st'"
  shows "embed_block_text cfg W H bits y x st = Inr st'"
proof -
  let ?n = "block_depth cfg (pix st) x y"
  have "fold_err (\<lambda>dy. fold_err (embed_pixel_img W H bits ?n x y dy) [0..<block_width cfg])
          [0..<block_height cfg] st = Inr st'"
    using assms by (simp add: embed_block_img_def block_depth_img_eq)
  then have "fold_err (\<lambda>dy. fold_err (embed_pixel_text W H bits ?n x y dy) [0..<block_width cfg])
               [0..<block_height cfg] st = Inr st'"
    by (rule fold_err_Inr_mono) (erule fold_err_Inr_mono, erule embed_pixel_img_ok)
  then show ?thesis by (simp add: embed_block_text_def)
qed

lemma embed_block_text_done:
  "length bits \<le> bit_index st \<Longrightarrow> embed_block_text cfg W H bits y x st = Inr st"
  by (simp add: embed_block_text_def embed_pixel_text_def fold_err_const)

text \<open>The \<open>break\<close> only skips blocks that would write nothing.\<close>

lemma embed_row_img_ok:
  "embed_row_img cfg W H bits y xs st = Inr st' \<Longrightarrow> fold_err (embed_block_text cfg W H bits y) xs st = Inr st'"
proof (induction xs arbitrary: st)
  case (Cons x xs)
  show ?case
  proof (cases "length bits \<le> bit_index st")
    case True
    then show ?thesis using Cons.prems by (simp add: fold_err_const embed_block_text_done)
  next
    case False
    then obtain st1 where b: "embed_block_img cfg W H bits y x st = Inr st1"
      and r: "embed_row_img cfg W H bits y xs st1 = Inr st'"
      using Cons.prems by (auto split: sum.splits)
    then show ?thesis using Cons.IH [OF r] embed_block_img_ok [OF b] by simp
  qed
qed simp

lemma embed_image_rows:
  assumes "valid_config cfg"
  shows "embed_image cfg px hidden =
           (case fold_err (\<lambda>y. embed_row_img cfg (img_width px) (img_height px) (image_to_bits hidden) y
                                 (range_list 0 (img_width px) (block_width cfg)))
                   (range_list 0 (img_height px) (block_height cfg)) \<lparr>pix = px, bit_index = 0\<rparr> of
              Inl e \<Rightarrow> Inl e
            | Inr st \<Rightarrow> Inr (pix st))"
  using assms by (simp add: embed_image_def Let_def valid_config_def)

lemma embed_rows_walk:
  assumes "valid_config cfg" "wf_pixels px"
    and "fold_err (\<lambda>y. embed_row_img cfg (img_width px) (img_height px) bits y
                         (range_list 0 (img_width px) (block_width cfg)))
           (range_list 0 (img_height px) (block_height cfg)) \<lparr>pix = px, bit_index = 0\<rparr> = Inr st'"
  shows "embed_walk bits (walk cfg px (block_depth cfg px)) \<lparr>pix = px, bit_index = 0\<rparr> = Inr st'"
proof -
  let ?W = "img_width px" and ?H = "img_height px"
  let ?xs = "range_list 0 ?W (block_width cfg)" and ?ys = "range_list 0 ?H (block_height cfg)"
  have b: "0 < block_width cfg" "0 < block_height cfg" using assms(1) by (simp_all add: valid_config_def)
  have "fold_err (\<lambda>y. fold_err (embed_block_text cfg ?W ?H bits y) ?xs) ?ys \<lparr>pix = px, bit_index = 0\<rparr> = Inr st'"
    using assms(3) by (rule fold_err_Inr_mono) (erule embed_row_img_ok)
  then have "fold_err (\<lambda>(x, y). embed_block_text cfg ?W ?H bits y x) (block_origins cfg px)
               \<lparr>pix = px, bit_index = 0\<rparr> = Inr st'"
    by (simp add: block_origins_def fold_err_concat fold_err_map fold_err_map_fun comp_def split_def)
  moreover have "fold_err (\<lambda>(x, y). embed_block_text cfg ?W ?H bits y x) (block_origins cfg px)
                   \<lparr>pix = px, bit_index = 0\<rparr>
                 = embed_walk bits (walk cfg px (block_depth cfg px)) \<lparr>pix = px, bit_index = 0\<rparr>"
    unfolding walk_def
    using assms(1,2) sorted_block_origins block_origins_multiple [OF _ b]
    by (intro embed_blocks_walk) simp_all
  ultimately show ?thesis by simp
qed

lemma embed_image_walk:
  assumes "valid_config cfg" "wf_pixels px" "embed_image cfg px hidden = Inr px'"
  shows "\<exists>st'. embed_walk (image_to_bits hidden) (walk cfg px (block_depth cfg px)) \<lparr>pix = px, bit_index = 0\<rparr> = Inr st' \<and>
               px' = pix st'"
  using assms(3) embed_rows_walk [OF assms(1,2)] by (auto simp: embed_image_rows [OF assms(1)] split: sum.splits)

section \<open>When the image embedder does not raise\<close>

text \<open>Channel writes succeed as long as each slice still has bits.\<close>

lemma embed_channels_img_ok:
  assumes "\<forall>k < length cs. bit_index st + k * n < length bits" "0 < n"
  shows "\<exists>st'. fold_err (\<lambda>c. embed_channel_img bits n (x, y, c)) cs st = Inr st' \<and>
               bit_index st' = bit_index st + length cs * n"
  using assms(1)
proof (induction cs arbitrary: st)
  case (Cons c cs)
  let ?st1 = "st\<lparr>pix := set_chan (pix st) x y c (word_of_int ((uint (chan (pix st) x y c)
                AND NOT (2 ^ length (take n (drop (bit_index st) bits)) - 1))
                OR int (bits_to_nat (take n (drop (bit_index st) bits))))),
                bit_index := bit_index st + n\<rparr>"
  have "take n (drop (bit_index st) bits) \<noteq> []" using Cons.prems [rule_format, of 0] assms(2) by auto
  then have s1: "embed_channel_img bits n (x, y, c) st = Inr ?st1"
    by (simp add: embed_channel_img_def embed_bits_Cons)
  have "\<forall>k < length cs. bit_index ?st1 + k * n < length bits"
    using Cons.prems by (auto simp: algebra_simps dest: spec [of _ "Suc _"])
  then show ?case using s1 Cons.IH [of ?st1] by (auto simp: algebra_simps)
qed simp

text \<open>
  With every block flat at depth \<open>d\<close>, a pixel takes \<open>3 d\<close> bits and the cursor
  stays a multiple of \<open>3 d\<close>.  A pixel entered with the cursor below the end
  finds a non-empty slice for each of its three channels exactly when the
  payload's remainder modulo \<open>3 d\<close> is zero or larger than \<open>2 d\<close>.
\<close>

lemma flat_tail_room:
  fixes d L i :: nat
  assumes "0 < d" "L mod (3 * d) = 0 \<or> 2 * d < L mod (3 * d)" "3 * d dvd i" "i < L"
  shows "i + 2 * d < L"
proof -
  let ?B = "3 * d * (L div (3 * d))"
  have q: "L = ?B + L mod (3 * d)" by simp
  have m: "L mod (3 * d) < 3 * d" using assms(1) by simp
  have "i + 3 * d \<le> ?B + 3 * d"
    using dvd_less_add [OF assms(3), of "?B + 3 * d"] q m assms(4) by simp
  moreover have "i + 3 * d \<le> ?B" if "L mod (3 * d) = 0"
    using dvd_less_add [OF assms(3), of ?B] q that assms(4) by simp
  ultimately show ?thesis using assms(1,2) q by linarith
qed

lemma embed_pixel_img_flat:
  assumes "0 < d" "length bits mod (3 * d) = 0 \<or> 2 * d < length bits mod (3 * d)" "3 * d dvd bit_index st"
  shows "\<exists>st'. embed_pixel_img W H bits d x y dy dx st = Inr st' \<and> 3 * d dvd bit_index st'"
proof (cases "x + dx < W \<and> y + dy < H \<and> bit_index st < length bits")
  case True
  then have "bit_index st + 2 * d < length bits" using flat_tail_room [OF assms] by blast
  then have "\<forall>k < length [0..<3::nat]. bit_index st + k * d < length bits"
    by (auto simp: less_Suc_eq numeral_eq_Suc)
  then obtain st' where "fold_err (\<lambda>c. embed_channel_img bits d (x + dx, y + dy, c)) [0..<3] st = Inr st'"
    and "bit_index st' = bit_index st + 3 * d"
    using embed_channels_img_ok [OF _ assms(1), of "[0..<3]" st bits "x + dx" "y + dy"] by auto
  then show ?thesis using True assms(3) by (simp add: embed_pixel_img_def)
qed (use assms(3) in \<open>auto simp: embed_pixel_img_def\<close>)

lemma embed_row_img_ok_inv:
  assumes "P st"
    and "\<And>x t. x \<in> set xs \<Longrightarrow> P t \<Longrightarrow> \<exists>t'. embed_block_img cfg W H bits y x t = Inr t' \<and> P t'"
  shows "\<exists>st'. embed_row_img cfg W H bits y xs st = Inr st' \<and> P st'"
  using assms
proof (induction xs arbitrary: st)
  case (Cons x xs)
  show ?case
  proof (cases "length bits \<le> bit_index st")
    case False
    obtain t where t: "embed_block_img cfg W H bits y x st = Inr t" "P t"
      using Cons.prems(2) [of x st] Cons.prems(1) by auto
    have "\<exists>st'. embed_row_img cfg W H bits y xs t = Inr st' \<and> P st'"
      using t(2) Cons.prems(2) by (intro Cons.IH) auto
    then show ?thesis using t(1) False by simp
  qed (use Cons.prems in simp)
qed simp

lemma embed_image_flat_ok:
  assumes "valid_config cfg" "16 \<le> threshold cfg"
    and "length (image_to_bits hidden) mod (3 * non_edge_bits cfg) = 0 \<or>
         2 * non_edge_bits cfg < length (image_to_bits hidden) mod (3 * non_edge_bits cfg)"
  shows "\<exists>px'. embed_image cfg px hidden = Inr px'"
proof -
  let ?d = "non_edge_bits cfg" and ?bits = "image_to_bits hidden"
  let ?P = "\<lambda>st. 3 * ?d dvd bit_index st"
  have d: "0 < ?d" and b: "0 < block_width cfg" "0 < block_height cfg"
    using assms(1) by (simp_all add: valid_config_def)
  have blk: "\<exists>t'. embed_block_img cfg W H ?bits y x t = Inr t' \<and> ?P t'" if "?P t" for W H y x t
  proof -
    have "block_depth_img cfg (pix t) x y = ?d"
      using block_depth_high_threshold [OF assms(2)] by (simp add: block_depth_img_eq)
    moreover have "\<exists>t'. fold_err (\<lambda>dy. fold_err (embed_pixel_img W H ?bits ?d x y dy) [0..<block_width cfg])
                     [0..<block_height cfg] t = Inr t' \<and> ?P t'"
      using that
      by (intro fold_err_ok_inv [where P = ?P]) (auto intro!: fold_err_ok_inv [where P = ?P] embed_pixel_img_flat d assms(3))
    ultimately show ?thesis by (simp add: embed_block_img_def)
  qed
  have "\<exists>st'. fold_err (\<lambda>y. embed_row_img cfg (img_width px) (img_height px) ?bits y
                                (range_list 0 (img_width px) (block_width cfg)))
                (range_list 0 (img_height px) (block_height cfg)) \<lparr>pix = px, bit_index = 0\<rparr> = Inr st' \<and> ?P st'"
    by (intro fold_err_ok_inv [where P = ?P]) (auto intro!: embed_row_img_ok_inv blk)
  then show ?thesis using b by (auto simp: embed_image_def Let_def)
qed

section \<open>The image extractor reads the text extractor's bits\<close>

lemma extract_sim_channel:
  "extract_sim T a b \<Longrightarrow> extract_sim T (extract_channel_img px n s a) (extract_channel T px n s b)"
  by (cases a, cases b, cases s)
     (auto simp: extract_sim_def extract_channel_img_def extract_channel_def prefix_prefix)

lemma extract_sim_pixel:
  assumes "extract_sim T a b"
  shows "extract_sim T (extract_pixel_img W H T px n x y dy dx a) (extract_pixel_text W H T px n x y dy dx b)"
proof (cases "x + dx < W \<and> y + dy < H \<and> snd a < T")
  case True
  then have ab: "a = b" using assms by (auto simp: extract_sim_def)
  have "extract_sim T (fold (\<lambda>c. extract_channel_img px n (x + dx, y + dy, c)) [0..<3] a)
                      (fold (\<lambda>c. extract_channel T px n (x + dx, y + dy, c)) [0..<3] b)"
    using assms by (rule fold_rel) (rule extract_sim_channel)
  then show ?thesis using True ab by (simp add: extract_pixel_img_def extract_pixel_text_def)
next
  case False
  have "T \<le> snd b" if "T \<le> snd a" using assms that by (auto simp: extract_sim_def)
  then show ?thesis using False assms by (auto simp: extract_pixel_img_def extract_pixel_text_def)
qed

lemma extract_sim_block:
  "extract_sim T a b \<Longrightarrow>
     extract_sim T (extract_block_img cfg W H T px y x a) (extract_block_text cfg W H T px y x b)"
  unfolding extract_block_img_def extract_block_text_def Let_def block_depth_img_eq
  by (erule fold_rel, erule fold_rel, erule extract_sim_pixel)

lemma extract_block_text_done:
  "T \<le> snd acc \<Longrightarrow> extract_block_text cfg W H T px y x acc = acc"
  by (simp add: extract_block_text_def extract_pixel_text_def fold_const)

lemma extract_sim_row:
  "extract_sim T a b \<Longrightarrow>
     extract_sim T (extract_row_img cfg W H T px y xs a) (fold (extract_block_text cfg W H T px y) xs b)"
proof (induction xs arbitrary: a b)
  case (Cons x xs)
  show ?case
  proof (cases "T \<le> snd a")
    case True
    then have "T \<le> snd b" using Cons.prems by (auto simp: extract_sim_def)
    then have "fold (extract_block_text cfg W H T px y) (x # xs) b = b"
      by (intro fold_const) (rule extract_block_text_done)
    then show ?thesis using True Cons.prems by simp
  next
    case False
    then show ?thesis using Cons.IH [OF extract_sim_block [OF Cons.prems]] by simp
  qed
qed simp

lemma extract_image_sim:
  assumes "0 < block_width cfg" "0 < block_height cfg"
  shows "\<exists>acc. extract_image cfg px (w, h) = bits_to_image (fst acc) (w, h) \<and>
               extract_sim (w * h * 8 * 3) acc
                 (extract_walk (w * h * 8 * 3) px (walk cfg px (block_depth cfg px)) ([], 0))"
proof -
  let ?T = "w * h * 8 * 3" and ?W = "img_width px" and ?H = "img_height px"
  let ?xs = "range_list 0 ?W (block_width cfg)" and ?ys = "range_list 0 ?H (block_height cfg)"
  let ?acc = "fold (\<lambda>y. extract_row_img cfg ?W ?H ?T px y ?xs) ?ys ([], 0)"
  have i: "extract_image cfg px (w, h) = bits_to_image (fst ?acc) (w, h)"
    using assms by (simp add: extract_image_def Let_def fold_err_Inr split_def)
  have "extract_sim ?T ?acc (fold (\<lambda>y. fold (extract_block_text cfg ?W ?H ?T px y) ?xs) ?ys ([], 0))"
    by (rule fold_rel) (simp add: extract_sim_def, erule extract_sim_row)
  then have "extract_sim ?T ?acc (extract_walk ?T px (walk cfg px (block_depth cfg px)) ([], 0))"
    by (simp only: extract_loops_walk)
  with i show ?thesis by blast
qed

section \<open>The image round trip\<close>

lemma extract_after_embed_image:
  assumes "valid_config cfg" "wf_pixels px" "pixels_shape w h hidden"
    and e: "embed_walk (image_to_bits hidden) (walk cfg px (block_depth cfg px)) \<lparr>pix = px, bit_index = 0\<rparr> = Inr st'"
    and stable: "\<forall>x y. (x, y) \<in> set (block_origins cfg px) \<longrightarrow> block_depth cfg (pix st') x y = block_depth cfg px x y"
    and al: "chunk_aligned 0 (w * h * 8 * 3) (map snd (walk cfg px (block_depth cfg px)))"
  shows "extract_image cfg (pix st') (w, h) = Inr hidden"
proof -
  let ?ss = "walk cfg px (block_depth cfg px)" and ?bits = "image_to_bits hidden" and ?T = "w * h * 8 * 3"
  have L: "length ?bits = ?T" using assms(3) by (rule length_image_to_bits)
  have b: "0 < block_width cfg" "0 < block_height cfg" using assms(1) by (simp_all add: valid_config_def)
  have sh: "wf_pixels (pix st') \<and> img_width (pix st') = img_width px \<and> img_height (pix st') = img_height px"
    using embed_walk_shape [OF e] assms(2) by simp
  have w: "walk cfg (pix st') (block_depth cfg (pix st')) = ?ss"
    using sh stable by (intro walk_cong) simp_all
  have "extract_walk (length ?bits) (pix st') ?ss ([], 0) = ([] @ drop 0 ?bits, length ?bits)"
    using extract_embed_walk [of "\<lparr>pix = px, bit_index = 0\<rparr>" ?ss ?bits st' "[]"]
      assms(2) in_range_slots_walk [OF assms(1), of px px] distinct_walk [OF b] al e L
    by simp
  then have ex: "extract_walk ?T (pix st') ?ss ([], 0) = (?bits, ?T)" using L by simp
  obtain acc where img: "extract_image cfg (pix st') (w, h) = bits_to_image (fst acc) (w, h)"
    and sim: "extract_sim ?T acc (?bits, ?T)"
    using extract_image_sim [OF b, of "pix st'" w h] w ex by auto
  from sim obtain extra where "fst acc = ?bits @ extra"
    by (auto simp: extract_sim_def prefix_def)
  then show ?thesis using img bits_to_image_to_bits [OF assms(3)] by simp
qed

text \<open>
  The image round trip for a flat configuration whose depth divides the payload.
\<close>

lemma flat_image_roundtrip:
  assumes "valid_config cfg" "16 \<le> threshold cfg" "non_edge_bits cfg dvd 8 * w * h"
    and "wf_pixels px" "pixels_shape w h hidden"
    and "w * h * 8 * 3 \<le> 3 * non_edge_bits cfg * img_width px * img_height px"
  shows "\<exists>px'. embed_image cfg px hidden = Inr px' \<and> extract_image cfg px' (w, h) = Inr hidden"
proof -
  let ?d = "non_edge_bits cfg" and ?ss = "walk cfg px (block_depth cfg px)"
  have flat: "block_depth cfg q x y = ?d" for q x y by (rule block_depth_high_threshold [OF assms(2)])
  have b: "0 < block_width cfg" "0 < block_height cfg" and d: "0 < ?d"
    using assms(1) by (simp_all add: valid_config_def)
  have L: "length (image_to_bits hidden) = w * h * 8 * 3" using assms(5) by (rule length_image_to_bits)
  have "3 * ?d dvd 3 * (8 * w * h)" using assms(3) by (rule mult_dvd_mono [OF dvd_refl])
  then have "length (image_to_bits hidden) mod (3 * ?d) = 0" using L by (simp add: ac_simps)
  then have "\<exists>px'. embed_image cfg px hidden = Inr px'" by (intro embed_image_flat_ok [OF assms(1,2)] disjI1)
  then obtain px' where r: "embed_image cfg px hidden = Inr px'" by blast
  obtain st' where e: "embed_walk (image_to_bits hidden) ?ss \<lparr>pix = px, bit_index = 0\<rparr> = Inr st'"
    and p: "px' = pix st'"
    using embed_image_walk [OF assms(1,4) r] by blast
  have "\<forall>n \<in> set (map snd ?ss). n = ?d" and "length (map snd ?ss) = 3 * img_width px * img_height px"
    by (simp_all add: flat_walk_depths [OF assms(1,2)])
  moreover have "?d dvd (w * h * 8 * 3 - 0)"
    using dvd_mult2 [OF assms(3), of 3] by (simp add: ac_simps)
  ultimately have "chunk_aligned 0 (w * h * 8 * 3) (map snd ?ss)"
    using assms(6) d by (intro chunk_aligned_uniform) (simp_all add: ac_simps)
  then have "extract_image cfg (pix st') (w, h) = Inr hidden"
    using extract_after_embed_image [OF assms(1,4,5) e] flat by simp
  then show ?thesis using r p by blast
qed

lemma extract_image_shape: "extract_image cfg px (w, h) = Inr hidden \<Longrightarrow> pixels_shape w h hidden"
  by (auto simp: extract_image_def Let_def intro: bits_to_image_shape split: sum.splits prod.splits)

section \<open>Which exceptions the image engine raises\<close>

lemma embed_pixel_img_Inl: "embed_pixel_img W H bits n x y dy dx st = Inl e \<Longrightarrow> e = EmptyBinLiteral"
  by (auto simp: embed_pixel_img_def embed_channel_img_def dest!: fold_err_Inl_step embed_bits_Inl
           split: if_splits sum.splits)

lemma embed_block_img_Inl: "embed_block_img cfg W H bits y x st = Inl e \<Longrightarrow> e = EmptyBinLiteral"
  by (auto simp: embed_block_img_def Let_def dest!: fold_err_Inl_step embed_pixel_img_Inl)

lemma embed_row_img_Inl: "embed_row_img cfg W H bits y xs st = Inl e \<Longrightarrow> e = EmptyBinLiteral"
  by (induction xs arbitrary: st) (auto dest: embed_block_img_Inl split: if_splits sum.splits)

lemma embed_image_Inl: "embed_image cfg px hidden = Inl e \<Longrightarrow> e = RangeZeroStep \<or> e = EmptyBinLiteral"
  by (fastforce simp: embed_image_def Let_def py_range_def dest!: fold_err_Inl_step embed_row_img_Inl
                split: sum.splits if_splits)

text \<open>For a size of natural numbers the values always fill the shape: \<open>reshape\<close> never raises.\<close>

lemma bits_to_image_Inl: "bits_to_image bits sz = Inl e \<Longrightarrow> e = EmptyBinLiteral"
proof -
  assume a: "bits_to_image bits sz = Inl e"
  obtain w h where sz: "sz = (w, h)" by (cases sz)
  have l: "length (range_list 0 (w * h * 8 * 3) 8) = h * w * 3"
    using length_range_list [of 8 0 "h * w * 3"] by (simp add: ac_simps)
  show ?thesis using a l
    by (auto simp: bits_to_image_def sz py_int_base2_def dest!: map_err_Inl_step map_err_length
             split: sum.splits if_splits)
qed

lemma extract_image_Inl:
  "extract_image cfg px sz = Inl e \<Longrightarrow> e = RangeZeroStep \<or> e = EmptyBinLiteral"
  by (fastforce simp: extract_image_def Let_def py_range_def dest!: fold_err_Inl_step bits_to_image_Inl
                split: sum.splits if_splits prod.splits)

section \<open>When the image embedder raises\<close>

text \<open>
  A channel fold that does not raise advanced the cursor by the full depth for
  each channel and found it below the end of the payload before each of them.
\<close>

lemma embed_channels_img_Inr:
  assumes "fold_err (\<lambda>c. embed_channel_img bits n (x, y, c)) cs st = Inr st'"
  shows "bit_index st' = bit_index st + length cs * n \<and> (\<forall>k < length cs. bit_index st + k * n < length bits)"
  using assms
proof (induction cs arbitrary: st)
  case (Cons c cs)
  obtain t where t: "embed_channel_img bits n (x, y, c) st = Inr t"
    and r: "fold_err (\<lambda>c. embed_channel_img bits n (x, y, c)) cs t = Inr st'"
    using Cons.prems by (auto split: sum.splits)
  have ne: "take n (drop (bit_index st) bits) \<noteq> []"
  proof
    assume "take n (drop (bit_index st) bits) = []"
    then have "embed_bits (pix st) x y (take n (drop (bit_index st) bits)) c = Inl EmptyBinLiteral"
      by (simp only: embed_bits_Nil)
    then show False using t by (simp add: embed_channel_img_def)
  qed
  have bt: "bit_index t = bit_index st + n"
    using t ne by (auto simp: embed_channel_img_def embed_bits_Cons neq_Nil_conv split: sum.splits)
  have "bit_index st < length bits" using ne by auto
  moreover have "bit_index st + Suc k * n < length bits" if "k < length cs" for k
    using Cons.IH [OF r] that bt by (simp add: algebra_simps)
  ultimately have "\<forall>k < length (c # cs). bit_index st + k * n < length bits"
    by (auto simp: less_Suc_eq_0_disj)
  then show ?case using Cons.IH [OF r] bt by (simp add: algebra_simps)
qed simp

text \<open>
  When the remainder \<open>r\<close> of the payload modulo \<open>3 d\<close> is between 1 and \<open>2 d\<close>,
  a run that does not raise keeps its cursor a multiple of \<open>3 d\<close> no larger than
  \<open>L - r\<close>: the pixel entered at \<open>L - r\<close> would reach an empty slice.
\<close>

lemma embed_pixel_img_bounded:
  assumes "3 * d dvd B" "B < length bits" "length bits \<le> B + 2 * d"
    and "3 * d dvd bit_index st" "bit_index st \<le> B"
    and "embed_pixel_img W H bits d x y dy dx st = Inr st'"
  shows "3 * d dvd bit_index st' \<and> bit_index st' \<le> B"
proof (cases "x + dx < W \<and> y + dy < H \<and> bit_index st < length bits")
  case True
  then have "fold_err (\<lambda>c. embed_channel_img bits d (x + dx, y + dy, c)) [0..<3] st = Inr st'"
    using assms(6) by (simp add: embed_pixel_img_def)
  from embed_channels_img_Inr [OF this]
  have i: "bit_index st' = bit_index st + 3 * d" and l: "bit_index st + 2 * d < length bits" by auto
  have "bit_index st < B" using l assms(3,5) by (cases "bit_index st = B") simp_all
  then have "bit_index st + 3 * d \<le> B" by (rule dvd_less_add [OF assms(4,1)])
  then show ?thesis using i assms(4) by simp
next
  case False
  then have "st' = st" using assms(6) unfolding embed_pixel_img_def by (simp only: if_not_P) simp
  then show ?thesis using assms(4,5) by simp
qed

lemma embed_row_img_invariant:
  assumes "embed_row_img cfg W H bits y xs st = Inr st'" "P st"
    and "\<And>x t t'. x \<in> set xs \<Longrightarrow> P t \<Longrightarrow> embed_block_img cfg W H bits y x t = Inr t' \<Longrightarrow> P t'"
  shows "P st'"
  using assms
proof (induction xs arbitrary: st)
  case (Cons x xs)
  show ?case
  proof (cases "length bits \<le> bit_index st")
    case False
    then obtain t where t: "embed_block_img cfg W H bits y x st = Inr t"
      and r: "embed_row_img cfg W H bits y xs t = Inr st'"
      using Cons.prems(1) by (auto split: sum.splits)
    show ?thesis using Cons.prems(3) [OF _ Cons.prems(2) t] Cons.prems(3) by (intro Cons.IH [OF r]) auto
  qed (use Cons.prems in simp)
qed simp

text \<open>
  The walk's cursor reaches \<open>min L capacity\<close>, so with room for the payload the
  bounded cursor is a contradiction: the embedder raises \<open>ValueError\<close>.
\<close>

lemma embed_image_flat_raises:
  assumes "valid_config cfg" "16 \<le> threshold cfg" "wf_pixels px"
    and "length (image_to_bits hidden) \<le> 3 * non_edge_bits cfg * img_width px * img_height px"
    and "0 < length (image_to_bits hidden) mod (3 * non_edge_bits cfg)"
    and "length (image_to_bits hidden) mod (3 * non_edge_bits cfg) \<le> 2 * non_edge_bits cfg"
  shows "embed_image cfg px hidden = Inl EmptyBinLiteral"
proof -
  let ?d = "non_edge_bits cfg" and ?bits = "image_to_bits hidden"
  let ?L = "length ?bits"
  let ?B = "?L - ?L mod (3 * ?d)"
  let ?F = "fold_err (\<lambda>y. embed_row_img cfg (img_width px) (img_height px) ?bits y
                           (range_list 0 (img_width px) (block_width cfg)))
              (range_list 0 (img_height px) (block_height cfg)) \<lparr>pix = px, bit_index = 0\<rparr>"
  let ?P = "\<lambda>st. 3 * ?d dvd bit_index st \<and> bit_index st \<le> ?B"
  have r: "?L mod (3 * ?d) \<le> ?L" by (rule mod_less_eq_dividend)
  have B: "3 * ?d dvd ?B" "?B < ?L" "?L \<le> ?B + 2 * ?d"
    by (simp add: minus_mod_eq_mult_div [symmetric]) (use assms(5,6) r in linarith)+
  have ok: False if F: "?F = Inr st'" for st'
  proof -
    have blk: "?P t'" if "?P t" "embed_block_img cfg W H ?bits y x t = Inr t'" for W H y x t t'
    proof -
      have "block_depth_img cfg (pix t) x y = ?d"
        using block_depth_high_threshold [OF assms(2)] by (simp add: block_depth_img_eq)
      then have "fold_err (\<lambda>dy. fold_err (embed_pixel_img W H ?bits ?d x y dy) [0..<block_width cfg])
                   [0..<block_height cfg] t = Inr t'"
        using that(2) by (simp add: embed_block_img_def)
      then show ?thesis using that(1)
        by (rule fold_err_invariant) (erule fold_err_invariant, auto dest: embed_pixel_img_bounded [OF B])
    qed
    have row: "?P t'" if "?P t" "embed_row_img cfg W H ?bits y xs t = Inr t'" for W H y xs t t'
      using embed_row_img_invariant [OF that(2), of ?P] that(1) blk by blast
    have "?P st'"
      by (rule fold_err_invariant [OF F, where P = ?P]) (simp, erule (1) row)
    moreover have "min ?L (0 + sum_list (map snd (walk cfg px (block_depth cfg px)))) \<le> bit_index st'"
      using embed_walk_reaches [OF embed_rows_walk [OF assms(1,3) F]] by simp
    ultimately show False
      using B(2) assms(4) flat_walk_depths [OF assms(1,2), of px]
      by (simp add: sum_list_replicate algebra_simps min_def split: if_splits)
  qed
  then obtain e where e: "?F = Inl e" by (cases ?F) auto
  moreover have "e = EmptyBinLiteral"
    using e by (auto dest!: fold_err_Inl_step embed_row_img_Inl)
  ultimately show ?thesis using embed_image_rows [OF assms(1)] by simp
qed

lemma embed_image_shape:
  assumes "valid_config cfg" "wf_pixels px" "embed_image cfg px hidden = Inr px'"
  shows "wf_pixels px' \<and> img_width px' = img_width px \<and> img_height px' = img_height px"
proof -
  obtain st' where e: "embed_walk (image_to_bits hidden) (walk cfg px (block_depth cfg px)) \<lparr>pix = px, bit_index = 0\<rparr> = Inr st'"
    and p: "px' = pix st'"
    using embed_image_walk [OF assms] by blast
  show ?thesis using embed_walk_shape [OF e] assms(2) p by simp
qed

section \<open>The default configuration moves only the least significant bit\<close>

lemma default_embedding_lsb:
  assumes "wf_pixels px"
  shows "(embed_message default_config px msg = Inr px' \<longrightarrow>
            unat (chan px' x y c) div 2 = unat (chan px x y c) div 2) \<and>
         (embed_image default_config px hidden = Inr px'' \<longrightarrow>
            unat (chan px'' x y c) div 2 = unat (chan px x y c) div 2)"
proof -
  let ?ss = "walk default_config px (block_depth default_config px)" and ?st = "\<lparr>pix = px, bit_index = 0\<rparr>"
  have one: "\<forall>(s, n) \<in> set ?ss. n \<le> 1"
    using walk_depths block_depth_high_threshold [of default_config] by (fastforce simp: default_config_def)
  have r: "in_range_slots px ?ss" by (rule in_range_slots_walk [OF valid_default_config])
  have hb: "unat (chan (pix st') x y c) div 2 = unat (chan px x y c) div 2"
    if "embed_walk bits ?ss ?st = Inr st'" for bits st'
    using embed_walk_high_bits [OF that _ _ one] assms r by simp
  have a: "unat (chan px' x y c) div 2 = unat (chan px x y c) div 2"
    if m: "embed_message default_config px msg = Inr px'"
  proof -
    obtain st' where e: "embed_walk (message_to_bits msg) ?ss ?st = Inr st'"
      and p: "embed_message default_config px msg = Inr (pix st')"
      using embed_message_succeeds [OF valid_default_config assms] by blast
    show ?thesis using hb [OF e] m p by simp
  qed
  have b: "unat (chan px'' x y c) div 2 = unat (chan px x y c) div 2"
    if m: "embed_image default_config px hidden = Inr px''"
  proof -
    obtain st' where e: "embed_walk (image_to_bits hidden) ?ss ?st = Inr st'" and p: "px'' = pix st'"
      using embed_image_walk [OF valid_default_config assms m] by blast
    show ?thesis using hb [OF e] p by simp
  qed
  show ?thesis using a b by blast
qed

end
