(* ===== verification/Image_GUI.thy ===== *)
theory Image_GUI
  imports Gui_Common Image_Engine
begin

text \<open>
  \<open>ImageSteganographyGUI\<close> of \<open>image_steganography_gui.py\<close>, modelled as the text
  GUI is (see \<open>Text_GUI\<close>): widgets and path attributes are record fields, a
  dialog is appended to a list, a started thread is a pending job.  Two
  differences from the text GUI shape the model.  The encoding thread is started
  without arguments and reads \<open>self.cover_image_path\<close> and
  \<open>self.hidden_image_path\<close> when it runs, and the decoding thread reads
  \<open>self.encrypted_image_path\<close> when it runs; so a job holds only what the thread
  was given, and a selection made after the click is what the worker uses.  The
  size text is parsed with \<open>map(int, size.split('x'))\<close> inside
  \<open>try ... except ValueError\<close>.  A decoding job for a width or height that is not
  positive is outside the model: \<open>reshape\<close> with a negative dimension and saving
  an image with no pixels are left to \<open>numpy\<close> and PIL, and the step returns
  \<open>None\<close> there.
\<close>

section \<open>State\<close>

datatype image_job = EncodeImageJob | DecodeImageJob "int \<times> int"

record image_gui =
  img_stego :: config
  cover_image_path :: "string option"
  hidden_image_path :: "string option"
  encrypted_image_path :: "string option"
  encode_cover_label :: file_label
  encode_hidden_label :: file_label
  img_decode_file_label :: file_label
  decode_size_entry :: string
  img_encode_status_label :: status_text
  img_decode_status_label :: status_text
  img_error_dialogs :: "string list"
  image_jobs :: "image_job list"
  image_files :: file_store

definition image_gui_init :: "file_store \<Rightarrow> image_gui" where
  "image_gui_init files =
     \<lparr>img_stego = default_config_img, cover_image_path = None, hidden_image_path = None,
      encrypted_image_path = None, encode_cover_label = NoFileSelected,
      encode_hidden_label = NoFileSelected, img_decode_file_label = NoFileSelected,
      decode_size_entry = [], img_encode_status_label = StatusBlank,
      img_decode_status_label = StatusBlank, img_error_dialogs = [], image_jobs = [],
      image_files = files\<rparr>"

definition img_show_error :: "string \<Rightarrow> image_gui \<Rightarrow> image_gui" where
  "img_show_error msg s = s\<lparr>img_error_dialogs := img_error_dialogs s @ [msg]\<rparr>"

section \<open>Handlers\<close>

definition select_cover_image :: "string \<Rightarrow> image_gui \<Rightarrow> image_gui" where
  "select_cover_image file_path s =
     (if file_path \<noteq> [] then s\<lparr>cover_image_path := Some file_path, encode_cover_label := selected_label file_path\<rparr>
      else s\<lparr>encode_cover_label := NoFileSelected\<rparr>)"

definition select_hidden_image :: "string \<Rightarrow> image_gui \<Rightarrow> image_gui" where
  "select_hidden_image file_path s =
     (if file_path \<noteq> [] then s\<lparr>hidden_image_path := Some file_path, encode_hidden_label := selected_label file_path\<rparr>
      else s\<lparr>encode_hidden_label := NoFileSelected\<rparr>)"

definition select_encrypted_image :: "string \<Rightarrow> image_gui \<Rightarrow> image_gui" where
  "select_encrypted_image file_path s =
     (if file_path \<noteq> [] then s\<lparr>encrypted_image_path := Some file_path, img_decode_file_label := selected_label file_path\<rparr>
      else s\<lparr>img_decode_file_label := NoFileSelected\<rparr>)"

definition start_encoding_img :: "image_gui \<Rightarrow> image_gui" where
  "start_encoding_img s =
     (if cover_image_path s = None \<or> hidden_image_path s = None
      then img_show_error ''Cover image or hidden image is not selected!'' s
      else s\<lparr>img_encode_status_label := EncodingInProgress, image_jobs := image_jobs s @ [EncodeImageJob]\<rparr>)"

text \<open>
  \<open>encode_image\<close>: the two attributes are read when the thread runs, then
  \<open>embed_image\<close> opens the cover image and then the hidden one.  Every exception
  is caught and shown.
\<close>

definition encode_image_job ::
  "config \<Rightarrow> file_store \<Rightarrow> string option \<Rightarrow> string option \<Rightarrow> file_store \<times> status_text" where
  "encode_image_job cfg files cover hidden =
     (case cover of
        None \<Rightarrow> (files, StatusError (AttributeMissing ''cover_image_path''))
      | Some image_path \<Rightarrow>
          (case hidden of
             None \<Rightarrow> (files, StatusError (AttributeMissing ''hidden_image_path''))
           | Some hidden_path \<Rightarrow>
               (case load_image files image_path of
                  Inl e \<Rightarrow> (files, StatusError e)
                | Inr pixels \<Rightarrow>
                    (case load_image files hidden_path of
                       Inl e \<Rightarrow> (files, StatusError e)
                     | Inr hidden_pixels \<Rightarrow>
                         (case embed_image cfg pixels hidden_pixels of
                            Inl e \<Rightarrow> (files, StatusError e)
                          | Inr encrypted \<Rightarrow>
                              (files(encrypted_save_path \<mapsto> encrypted), EncodingSaved encrypted_save_path))))))"

text \<open>
  \<open>width, height = map(int, size.split('x'))\<close>: \<open>map\<close> is lazy, so unpacking
  converts the first part, then the second, and asks for a third, converting it
  before reporting too many values.  Every failure is a \<open>ValueError\<close>.
\<close>

definition parse_size :: "string \<Rightarrow> py_error + int \<times> int" where
  "parse_size size_text =
     (case py_split CHR ''x'' size_text of
        [] \<Rightarrow> Inl (UnpackCount 0)
      | [a] \<Rightarrow> (case py_int a of Inl e \<Rightarrow> Inl e | Inr _ \<Rightarrow> Inl (UnpackCount 1))
      | a # b # r \<Rightarrow>
          (case py_int a of
             Inl e \<Rightarrow> Inl e
           | Inr width \<Rightarrow>
               (case py_int b of
                  Inl e \<Rightarrow> Inl e
                | Inr height \<Rightarrow>
                    (case r of
                       [] \<Rightarrow> Inr (width, height)
                     | c # _ \<Rightarrow> (case py_int c of Inl e \<Rightarrow> Inl e | Inr _ \<Rightarrow> Inl UnpackTooMany)))))"

definition start_decoding_img :: "image_gui \<Rightarrow> image_gui" where
  "start_decoding_img s =
     (case encrypted_image_path s of
        None \<Rightarrow> img_show_error ''No image selected for decoding!'' s
      | Some _ \<Rightarrow>
          (case parse_size (py_strip (decode_size_entry s)) of
             Inl _ \<Rightarrow> img_show_error ''Invalid image size! Format: Width x Height'' s
           | Inr hidden_size \<Rightarrow>
               s\<lparr>img_decode_status_label := DecodingInProgress,
                 image_jobs := image_jobs s @ [DecodeImageJob hidden_size]\<rparr>))"

text \<open>\<open>decode_image\<close>: extraction, then the save of the hidden image.\<close>

definition decode_image_job ::
  "config \<Rightarrow> file_store \<Rightarrow> string option \<Rightarrow> int \<times> int \<Rightarrow> (file_store \<times> status_text) option" where
  "decode_image_job cfg files encrypted hidden_size =
     (case hidden_size of (hidden_width, hidden_height) \<Rightarrow>
        if hidden_width \<le> 0 \<or> hidden_height \<le> 0 then None
        else Some
          (case encrypted of
             None \<Rightarrow> (files, StatusError (AttributeMissing ''encrypted_image_path''))
           | Some encrypted_path \<Rightarrow>
               (case load_image files encrypted_path of
                  Inl e \<Rightarrow> (files, StatusError e)
                | Inr pixels \<Rightarrow>
                    (case extract_image cfg pixels (nat hidden_width, nat hidden_height) of
                       Inl e \<Rightarrow> (files, StatusError e)
                     | Inr hidden_image \<Rightarrow>
                         (files(extracted_save_path \<mapsto> hidden_image), DecodingSaved extracted_save_path)))))"

definition run_image_job :: "image_job \<Rightarrow> image_gui \<Rightarrow> image_gui option" where
  "run_image_job j s =
     (case j of
        EncodeImageJob \<Rightarrow>
          (case encode_image_job (img_stego s) (image_files s) (cover_image_path s) (hidden_image_path s) of
             (files', status) \<Rightarrow> Some (s\<lparr>image_files := files', img_encode_status_label := status\<rparr>))
      | DecodeImageJob hidden_size \<Rightarrow>
          (case decode_image_job (img_stego s) (image_files s) (encrypted_image_path s) hidden_size of
             None \<Rightarrow> None
           | Some (files', status) \<Rightarrow> Some (s\<lparr>image_files := files', img_decode_status_label := status\<rparr>)))"

section \<open>Events\<close>

datatype image_event = SelectCoverImage string | SelectHiddenImage string | SelectEncryptedImage string
  | TypeSize string | ClickEncodeImage | ClickDecodeImage | RunImageWorker nat

fun image_gui_step :: "image_gui \<Rightarrow> image_event \<Rightarrow> image_gui option" where
  "image_gui_step s (SelectCoverImage p) = Some (select_cover_image p s)"
| "image_gui_step s (SelectHiddenImage p) = Some (select_hidden_image p s)"
| "image_gui_step s (SelectEncryptedImage p) = Some (select_encrypted_image p s)"
| "image_gui_step s (TypeSize t) = Some (s\<lparr>decode_size_entry := t\<rparr>)"
| "image_gui_step s ClickEncodeImage = Some (start_encoding_img s)"
| "image_gui_step s ClickDecodeImage = Some (start_decoding_img s)"
| "image_gui_step s (RunImageWorker i) =
     (if i < length (image_jobs s)
      then run_image_job (image_jobs s ! i) (s\<lparr>image_jobs := remove_job i (image_jobs s)\<rparr>)
      else Some s)"

fun image_gui_run :: "image_gui \<Rightarrow> image_event list \<Rightarrow> image_gui option" where
  "image_gui_run s [] = Some s"
| "image_gui_run s (e # es) = (case image_gui_step s e of None \<Rightarrow> None | Some t \<Rightarrow> image_gui_run t es)"

inductive image_gui_reachable :: "file_store \<Rightarrow> image_gui \<Rightarrow> bool" where
  start: "image_gui_reachable files (image_gui_init files)"
| step: "image_gui_reachable files s \<Longrightarrow> image_gui_step s e = Some t \<Longrightarrow> image_gui_reachable files t"

section \<open>Invariant\<close>

text \<open>
  A pending thread finds the attributes it reads: every encoding job has a cover
  and a hidden path to read, every decoding job an encrypted one.  Paths are never
  unset, so a job stays covered however the selections change, and no status
  label ever shows an \<open>AttributeError\<close>.
\<close>

fun img_job_ok :: "string option \<Rightarrow> string option \<Rightarrow> string option \<Rightarrow> image_job \<Rightarrow> bool" where
  "img_job_ok cover hidden encrypted EncodeImageJob \<longleftrightarrow> cover \<noteq> None \<and> hidden \<noteq> None"
| "img_job_ok cover hidden encrypted (DecodeImageJob hidden_size) \<longleftrightarrow> encrypted \<noteq> None"

definition image_gui_inv :: "image_gui \<Rightarrow> bool" where
  "image_gui_inv s \<longleftrightarrow>
     img_stego s = default_config \<and> path_ok (cover_image_path s) \<and> path_ok (hidden_image_path s) \<and>
     path_ok (encrypted_image_path s) \<and> label_names (encode_cover_label s) (cover_image_path s) \<and>
     label_names (encode_hidden_label s) (hidden_image_path s) \<and>
     label_names (img_decode_file_label s) (encrypted_image_path s) \<and>
     list_all (img_job_ok (cover_image_path s) (hidden_image_path s) (encrypted_image_path s)) (image_jobs s) \<and>
     \<not> attribute_error (img_encode_status_label s) \<and> \<not> attribute_error (img_decode_status_label s)"

section \<open>Lemmas\<close>

lemma img_jobs_ok_mono:
  assumes "list_all (img_job_ok c h e) js" "c \<noteq> None \<Longrightarrow> c' \<noteq> None" "h \<noteq> None \<Longrightarrow> h' \<noteq> None"
    "e \<noteq> None \<Longrightarrow> e' \<noteq> None" "set js' \<subseteq> set js"
  shows "list_all (img_job_ok c' h' e') js'"
proof -
  have "img_job_ok c' h' e' j" if "j \<in> set js" for j
  proof -
    have "img_job_ok c h e j" using assms(1) that by (simp add: list_all_iff)
    then show ?thesis using assms(2-4) by (cases j) auto
  qed
  then show ?thesis using assms(5) by (auto simp: list_all_iff)
qed

lemma encode_image_job_no_attr:
  "\<not> attribute_error (snd (encode_image_job cfg files (Some cover) (Some hidden)))"
  by (auto simp: encode_image_job_def load_image_def dest: embed_image_Inl split: option.splits sum.splits)

lemma decode_image_job_no_attr:
  "decode_image_job cfg files (Some encrypted) sz = Some r \<Longrightarrow> \<not> attribute_error (snd r)"
  by (auto simp: decode_image_job_def load_image_def dest: extract_image_Inl split: option.splits sum.splits if_splits prod.splits)

lemma run_image_job_no_attr:
  assumes "run_image_job j s = Some t" "img_job_ok (cover_image_path s) (hidden_image_path s) (encrypted_image_path s) j"
    "\<not> attribute_error (img_encode_status_label s)" "\<not> attribute_error (img_decode_status_label s)"
  shows "\<not> attribute_error (img_encode_status_label t) \<and> \<not> attribute_error (img_decode_status_label t)"
proof (cases j)
  case EncodeImageJob
  then obtain c h where "cover_image_path s = Some c" "hidden_image_path s = Some h" using assms(2) by auto
  then show ?thesis using assms(1,4) EncodeImageJob encode_image_job_no_attr [of "img_stego s" "image_files s" c h]
    by (auto simp: run_image_job_def case_prod_unfold)
next
  case (DecodeImageJob sz)
  then obtain e where en: "encrypted_image_path s = Some e" using assms(2) by auto
  then obtain r where r: "decode_image_job (img_stego s) (image_files s) (Some e) sz = Some r"
    and t: "t = s\<lparr>image_files := fst r, img_decode_status_label := snd r\<rparr>"
    using assms(1) DecodeImageJob by (auto simp: run_image_job_def split: option.splits)
  show ?thesis using decode_image_job_no_attr [OF r] assms(3) t by simp
qed

lemma run_image_job_frame:
  assumes "run_image_job j s = Some t"
  shows "img_stego t = img_stego s \<and> cover_image_path t = cover_image_path s \<and>
    hidden_image_path t = hidden_image_path s \<and> encrypted_image_path t = encrypted_image_path s \<and>
    encode_cover_label t = encode_cover_label s \<and> encode_hidden_label t = encode_hidden_label s \<and>
    img_decode_file_label t = img_decode_file_label s \<and> image_jobs t = image_jobs s"
  using assms by (cases j) (auto simp: run_image_job_def case_prod_unfold split: option.splits)

lemma image_gui_inv_init: "image_gui_inv (image_gui_init files)"
  by (simp add: image_gui_inv_def image_gui_init_def)

lemma image_gui_inv_step:
  assumes "image_gui_inv s" "image_gui_step s e = Some t"
  shows "image_gui_inv t"
proof (cases e)
  case (RunImageWorker i)
  show ?thesis
  proof (cases "i < length (image_jobs s)")
    case True
    let ?s' = "s\<lparr>image_jobs := remove_job i (image_jobs s)\<rparr>"
    have r: "run_image_job (image_jobs s ! i) ?s' = Some t" using assms(2) RunImageWorker True by simp
    have "list_all (img_job_ok (cover_image_path s) (hidden_image_path s) (encrypted_image_path s))
            (remove_job i (image_jobs s))"
      using assms(1) remove_job_subset [of i "image_jobs s"] by (auto simp: image_gui_inv_def list_all_iff)
    moreover have "img_job_ok (cover_image_path ?s') (hidden_image_path ?s') (encrypted_image_path ?s') (image_jobs s ! i)"
      using assms(1) True by (simp add: image_gui_inv_def list_all_length)
    ultimately show ?thesis using assms(1) run_image_job_frame [OF r] run_image_job_no_attr [OF r]
      by (simp add: image_gui_inv_def)
  next
    case False
    then show ?thesis using assms RunImageWorker by simp
  qed
next
  case ClickEncodeImage
  then show ?thesis using assms
    by (auto simp: image_gui_inv_def start_encoding_img_def img_show_error_def split: if_splits)
next
  case ClickDecodeImage
  then show ?thesis using assms
    by (auto simp: image_gui_inv_def start_decoding_img_def img_show_error_def split: option.splits sum.splits)
next
  case (SelectCoverImage p)
  have t: "t = select_cover_image p s" using assms(2) SelectCoverImage by simp
  have "list_all (img_job_ok (cover_image_path t) (hidden_image_path s) (encrypted_image_path s)) (image_jobs s)"
    by (rule img_jobs_ok_mono [where c = "cover_image_path s" and h = "hidden_image_path s" and e = "encrypted_image_path s", OF _ _ _ _ order_refl]) (use assms(1) in \<open>auto simp: image_gui_inv_def t select_cover_image_def\<close>)
  then show ?thesis using assms(1) unfolding t by (auto simp: image_gui_inv_def select_cover_image_def)
next
  case (SelectHiddenImage p)
  have t: "t = select_hidden_image p s" using assms(2) SelectHiddenImage by simp
  have "list_all (img_job_ok (cover_image_path s) (hidden_image_path t) (encrypted_image_path s)) (image_jobs s)"
    by (rule img_jobs_ok_mono [where c = "cover_image_path s" and h = "hidden_image_path s" and e = "encrypted_image_path s", OF _ _ _ _ order_refl]) (use assms(1) in \<open>auto simp: image_gui_inv_def t select_hidden_image_def\<close>)
  then show ?thesis using assms(1) unfolding t by (auto simp: image_gui_inv_def select_hidden_image_def)
next
  case (SelectEncryptedImage p)
  have t: "t = select_encrypted_image p s" using assms(2) SelectEncryptedImage by simp
  have "list_all (img_job_ok (cover_image_path s) (hidden_image_path s) (encrypted_image_path t)) (image_jobs s)"
    by (rule img_jobs_ok_mono [where c = "cover_image_path s" and h = "hidden_image_path s" and e = "encrypted_image_path s", OF _ _ _ _ order_refl]) (use assms(1) in \<open>auto simp: image_gui_inv_def t select_encrypted_image_def\<close>)
  then show ?thesis using assms(1) unfolding t by (auto simp: image_gui_inv_def select_encrypted_image_def)
qed (use assms in \<open>auto simp: image_gui_inv_def\<close>)

lemma image_gui_reachable_run:
  "image_gui_reachable files s \<Longrightarrow> image_gui_run s es = Some t \<Longrightarrow> image_gui_reachable files t"
  by (induction es arbitrary: s) (auto intro: image_gui_reachable.step split: option.splits)

text \<open>The size text \<open>"<w>x<h>"\<close> the user types for a hidden image of \<open>w \<times> h\<close> pixels.\<close>

lemma parse_size_dec_string:
  "py_strip (dec_string w @ CHR ''x'' # dec_string h) = dec_string w @ CHR ''x'' # dec_string h \<and>
   parse_size (dec_string w @ CHR ''x'' # dec_string h) = Inr (int w, int h)"
proof -
  have w: "CHR ''x'' \<notin> set (dec_string w)" "\<not> py_isspace (hd (dec_string w))" "dec_string w \<noteq> []"
    using dec_string_literal [of w] dec_string_props [of w] by simp_all
  have h: "CHR ''x'' \<notin> set (dec_string h)" "\<not> py_isspace (last (dec_string h))" "dec_string h \<noteq> []"
    using dec_string_literal [of h] dec_string_props [of h] by simp_all
  have "py_split CHR ''x'' (dec_string w @ CHR ''x'' # dec_string h) = [dec_string w, dec_string h]"
    using w(1) h(1) by (simp add: py_split_append py_split_no_sep)
  then have "parse_size (dec_string w @ CHR ''x'' # dec_string h) = Inr (int w, int h)"
    using py_int_dec_string [of w] py_int_dec_string [of h] by (simp add: parse_size_def)
  moreover have "py_strip (dec_string w @ CHR ''x'' # dec_string h) = dec_string w @ CHR ''x'' # dec_string h"
    using w(2,3) h(2,3) by (intro py_strip_no_space) simp_all
  ultimately show ?thesis by simp
qed

text \<open>A negative width passes the validation: \<open>int\<close> accepts a sign.\<close>

lemma parse_size_neg_width:
  "py_strip (CHR ''-'' # dec_string w @ CHR ''x'' # dec_string h) = CHR ''-'' # dec_string w @ CHR ''x'' # dec_string h \<and>
   parse_size (CHR ''-'' # dec_string w @ CHR ''x'' # dec_string h) = Inr (- int w, int h)"
proof -
  have w: "CHR ''x'' \<notin> set (CHR ''-'' # dec_string w)" using dec_string_literal [of w] by simp
  have h: "CHR ''x'' \<notin> set (dec_string h)" "\<not> py_isspace (last (dec_string h))" "dec_string h \<noteq> []"
    using dec_string_literal [of h] dec_string_props [of h] by simp_all
  have "py_split CHR ''x'' ((CHR ''-'' # dec_string w) @ CHR ''x'' # dec_string h) = [CHR ''-'' # dec_string w, dec_string h]"
    using w h(1) by (simp add: py_split_append py_split_no_sep)
  then have "parse_size (CHR ''-'' # dec_string w @ CHR ''x'' # dec_string h) = Inr (- int w, int h)"
    using py_int_neg_dec_string [of w] py_int_dec_string [of h] by (simp add: parse_size_def)
  moreover have "\<not> py_isspace CHR ''-''" by (simp add: py_isspace_def)
  then have "py_strip (CHR ''-'' # dec_string w @ CHR ''x'' # dec_string h) = CHR ''-'' # dec_string w @ CHR ''x'' # dec_string h"
    using h(2,3) by (intro py_strip_no_space) simp_all
  ultimately show ?thesis by simp
qed


section \<open>Answers\<close>

text \<open>
  Whether a job's status label has left its in-progress text, and whether a job
  lies inside the model (a decoding size of positive numbers).  Both thread
  bodies catch every exception and set a final status, so running a worker
  answers its job and keeps every earlier answer.
\<close>

fun img_job_answered :: "image_job \<Rightarrow> image_gui \<Rightarrow> bool" where
  "img_job_answered EncodeImageJob s \<longleftrightarrow> img_encode_status_label s \<noteq> EncodingInProgress"
| "img_job_answered (DecodeImageJob hidden_size) s \<longleftrightarrow> img_decode_status_label s \<noteq> DecodingInProgress"

fun img_job_in_model :: "image_job \<Rightarrow> bool" where
  "img_job_in_model EncodeImageJob \<longleftrightarrow> True"
| "img_job_in_model (DecodeImageJob (w, h)) \<longleftrightarrow> 0 < w \<and> 0 < h"

lemma run_image_job_some:
  "img_job_in_model j \<Longrightarrow> \<exists>t. run_image_job j s = Some t"
  by (cases j) (auto simp: run_image_job_def decode_image_job_def case_prod_unfold)

lemma encode_image_job_status: "snd (encode_image_job cfg files c h) \<noteq> EncodingInProgress"
  by (auto simp: encode_image_job_def split: option.splits sum.splits)

lemma decode_image_job_status:
  "decode_image_job cfg files e hs = Some (files', st) \<Longrightarrow> st \<noteq> DecodingInProgress"
  by (cases hs) (auto simp: decode_image_job_def split: if_splits option.splits sum.splits)

lemma run_image_job_answers:
  assumes "run_image_job j s = Some t"
  shows "img_job_answered j t \<and> (img_job_answered k s \<longrightarrow> img_job_answered k t)"
  using assms
  by (cases j; cases k)
     (auto simp: run_image_job_def case_prod_unfold encode_image_job_status
           dest: decode_image_job_status split: option.splits)

lemma run_image_job_jobs_update:
  "run_image_job j (s\<lparr>image_jobs := js\<rparr>) = map_option (\<lambda>t. t\<lparr>image_jobs := js\<rparr>) (run_image_job j s)"
  by (cases j) (auto simp: run_image_job_def case_prod_unfold split: option.splits)

lemma image_gui_run_workers:
  assumes "\<forall>j \<in> set (image_jobs s). img_job_in_model j"
  shows "\<exists>t. image_gui_run s (replicate (length (image_jobs s)) (RunImageWorker 0)) = Some t \<and>
             image_jobs t = [] \<and> (\<forall>k. img_job_answered k s \<or> k \<in> set (image_jobs s) \<longrightarrow> img_job_answered k t)"
  using assms
proof (induction "image_jobs s" arbitrary: s)
  case Nil
  then show ?case by auto
next
  case (Cons j js)
  obtain t1 where t1: "run_image_job j (s\<lparr>image_jobs := js\<rparr>) = Some t1"
    using run_image_job_some Cons.prems Cons.hyps(2) [symmetric] by fastforce
  have step: "image_gui_step s (RunImageWorker 0) = Some t1"
    using t1 Cons.hyps(2) [symmetric] by simp
  have jobs: "image_jobs t1 = js" using run_image_job_frame [OF t1] by simp
  obtain t where t: "image_gui_run t1 (replicate (length js) (RunImageWorker 0)) = Some t"
    and tj: "image_jobs t = []"
    and ta: "\<forall>k. img_job_answered k t1 \<or> k \<in> set js \<longrightarrow> img_job_answered k t"
    using Cons.hyps(1) [of t1] jobs Cons.prems Cons.hyps(2) [symmetric] by auto
  have "img_job_answered k t" if "img_job_answered k s \<or> k \<in> set (j # js)" for k
  proof -
    have "img_job_answered k (s\<lparr>image_jobs := js\<rparr>) \<longleftrightarrow> img_job_answered k s" by (cases k) simp_all
    then show ?thesis using that ta run_image_job_answers [OF t1, of k] by auto
  qed
  then show ?case using t tj step Cons.hyps(2) [symmetric] by auto
qed

end
