(* ===== verification/Widgets.thy ===== *)
theory Widgets
  imports Complex_Main Stego_Prelude
begin

text \<open>
  \<open>RoundedButton\<close>, the \<open>Canvas\<close> subclass both GUI files define (identically) for
  their buttons.  The canvas is a record of what \<open>__init__\<close> gives it: its size
  and background, its items in creation order (Tk numbers them from 1), and the
  two bindings of \<open><Button-1>\<close> to \<open>on_click\<close>, one on the canvas as a whole
  (\<open>bind\<close>) and one on the caption's text item (\<open>tag_bind\<close>).  The keyword
  arguments of \<open>__init__\<close> are a record with their default values.

  How Tk delivers a click is the environment's part, written after the Tk canvas
  manual: the bindings of the item under the pointer (the \<open>current\<close> item) run
  first, then the bindings of the canvas widget, and a click runs every binding
  that matches.  A click is therefore the list of commands it calls.
\<close>

section \<open>Canvas items and the button's state\<close>

text \<open>
  A polygon (\<open>create_polygon(points, smooth=True, fill=...)\<close>) and a text item
  (\<open>create_text(x, y, text=..., font=..., fill=...)\<close>); \<open>/\<close> on the integer
  sizes is Python's true division, exact on these halves.
\<close>

datatype canvas_item =
  CanvasPolygon "int list" string
| CanvasText "real \<times> real" string "string \<times> nat" string

record button_args =
  arg_bg :: string
  arg_fg :: string
  arg_font :: "string \<times> nat"
  arg_width :: int
  arg_height :: int
  arg_padx :: int
  arg_pady :: int

definition default_button_args :: button_args where
  "default_button_args =
     \<lparr>arg_bg = ''#3498db'', arg_fg = ''#fff'', arg_font = (''Helvetica'', 14),
      arg_width = 200, arg_height = 50, arg_padx = 20, arg_pady = 10\<rparr>"

record 'c rounded_button =
  rb_command :: 'c
  rb_bg :: string
  rb_fg :: string
  rb_font :: "string \<times> nat"
  canvas_width :: int
  canvas_height :: int
  canvas_bg :: string
  canvas_items :: "canvas_item list"
  text_id :: nat
  widget_bindings :: "string list"
  item_bindings :: "(nat \<times> string) list"

text \<open>\<open>create_polygon\<close> and \<open>create_text\<close> add an item and return its id.\<close>

definition create_item :: "canvas_item \<Rightarrow> 'c rounded_button \<Rightarrow> 'c rounded_button \<times> nat" where
  "create_item it b = (b\<lparr>canvas_items := canvas_items b @ [it]\<rparr>, Suc (length (canvas_items b)))"

section \<open>Operations\<close>

text \<open>The vertex list of \<open>rounded_rectangle\<close>, twelve points as 24 coordinates.\<close>

definition rounded_rectangle_points :: "int \<Rightarrow> int \<Rightarrow> int \<Rightarrow> int \<Rightarrow> int \<Rightarrow> int list" where
  "rounded_rectangle_points x1 y1 x2 y2 radius =
     [x1 + radius, y1,
      x2 - radius, y1,
      x2, y1,
      x2, y1 + radius,
      x2, y2 - radius,
      x2, y2,
      x2 - radius, y2,
      x1 + radius, y2,
      x1, y2,
      x1, y2 - radius,
      x1, y1 + radius,
      x1, y1]"

definition rounded_rectangle ::
  "int \<Rightarrow> int \<Rightarrow> int \<Rightarrow> int \<Rightarrow> int \<Rightarrow> string \<Rightarrow> 'c rounded_button \<Rightarrow> 'c rounded_button \<times> nat" where
  "rounded_rectangle x1 y1 x2 y2 radius fill b =
     create_item (CanvasPolygon (rounded_rectangle_points x1 y1 x2 y2 radius) fill) b"

text \<open>\<open>__init__\<close>: the canvas of size \<open>(width + 2 padx) \<times> (height + 2 pady)\<close>, the
  rectangle inset by the padding with radius 25, the caption at the canvas's
  centre, then the two bindings.\<close>

definition rounded_button_init :: "string \<Rightarrow> 'c \<Rightarrow> button_args \<Rightarrow> 'c rounded_button" where
  "rounded_button_init text command a =
     (let width = arg_width a; height = arg_height a; padx = arg_padx a; pady = arg_pady a;
          b0 = \<lparr>rb_command = command, rb_bg = arg_bg a, rb_fg = arg_fg a, rb_font = arg_font a,
                canvas_width = width + 2 * padx, canvas_height = height + 2 * pady, canvas_bg = arg_bg a,
                canvas_items = [], text_id = 0, widget_bindings = [], item_bindings = []\<rparr>;
          b1 = fst (rounded_rectangle padx pady (width + padx) (height + pady) 25 (arg_bg a) b0);
          (b2, tid) = create_item (CanvasText (of_int (width + 2 * padx) / 2, of_int (height + 2 * pady) / 2)
                                     text (arg_font a) (arg_fg a)) b1;
          b3 = b2\<lparr>text_id := tid\<rparr>;
          b4 = b3\<lparr>widget_bindings := widget_bindings b3 @ [''<Button-1>'']\<rparr>
      in b4\<lparr>item_bindings := item_bindings b4 @ [(text_id b4, ''<Button-1>'')]\<rparr>)"

text \<open>The image GUI file's own copy of the class.\<close>

definition rounded_rectangle_points_img :: "int \<Rightarrow> int \<Rightarrow> int \<Rightarrow> int \<Rightarrow> int \<Rightarrow> int list" where
  "rounded_rectangle_points_img x1 y1 x2 y2 radius =
     [x1 + radius, y1,
      x2 - radius, y1,
      x2, y1,
      x2, y1 + radius,
      x2, y2 - radius,
      x2, y2,
      x2 - radius, y2,
      x1 + radius, y2,
      x1, y2,
      x1, y2 - radius,
      x1, y1 + radius,
      x1, y1]"

definition rounded_rectangle_img ::
  "int \<Rightarrow> int \<Rightarrow> int \<Rightarrow> int \<Rightarrow> int \<Rightarrow> string \<Rightarrow> 'c rounded_button \<Rightarrow> 'c rounded_button \<times> nat" where
  "rounded_rectangle_img x1 y1 x2 y2 radius fill b =
     create_item (CanvasPolygon (rounded_rectangle_points_img x1 y1 x2 y2 radius) fill) b"

definition rounded_button_init_img :: "string \<Rightarrow> 'c \<Rightarrow> button_args \<Rightarrow> 'c rounded_button" where
  "rounded_button_init_img text command a =
     (let width = arg_width a; height = arg_height a; padx = arg_padx a; pady = arg_pady a;
          b0 = \<lparr>rb_command = command, rb_bg = arg_bg a, rb_fg = arg_fg a, rb_font = arg_font a,
                canvas_width = width + 2 * padx, canvas_height = height + 2 * pady, canvas_bg = arg_bg a,
                canvas_items = [], text_id = 0, widget_bindings = [], item_bindings = []\<rparr>;
          b1 = fst (rounded_rectangle_img padx pady (width + padx) (height + pady) 25 (arg_bg a) b0);
          (b2, tid) = create_item (CanvasText (of_int (width + 2 * padx) / 2, of_int (height + 2 * pady) / 2)
                                     text (arg_font a) (arg_fg a)) b1;
          b3 = b2\<lparr>text_id := tid\<rparr>;
          b4 = b3\<lparr>widget_bindings := widget_bindings b3 @ [''<Button-1>'']\<rparr>
      in b4\<lparr>item_bindings := item_bindings b4 @ [(text_id b4, ''<Button-1>'')]\<rparr>)"

text \<open>\<open>on_click\<close> calls the button's command once.\<close>

definition on_click :: "'c rounded_button \<Rightarrow> 'c list" where
  "on_click b = [rb_command b]"

text \<open>
  Tk's delivery of an event \<open>ev\<close> to the canvas with the item \<open>current\<close> under
  the pointer (\<open>None\<close> over the bare canvas): the matching item bindings, then the
  matching widget bindings, each calling \<open>on_click\<close>.
\<close>

definition canvas_event :: "'c rounded_button \<Rightarrow> string \<Rightarrow> nat option \<Rightarrow> 'c list" where
  "canvas_event b ev current =
     concat (map (\<lambda>(i, e). if current = Some i \<and> e = ev then on_click b else []) (item_bindings b)) @
     concat (map (\<lambda>e. if e = ev then on_click b else []) (widget_bindings b))"

definition coord_pairs :: "int list \<Rightarrow> (int \<times> int) list" where
  "coord_pairs xs = map (\<lambda>i. (xs ! (2 * i), xs ! (2 * i + 1))) [0..<length xs div 2]"

section \<open>Lemmas\<close>

lemma rounded_button_init_img_eq [simp]: "rounded_button_init_img = rounded_button_init"
  by (intro ext) (simp add: rounded_button_init_img_def rounded_button_init_def rounded_rectangle_img_def
        rounded_rectangle_def rounded_rectangle_points_img_def rounded_rectangle_points_def)

lemma rounded_button_init_fields:
  "rb_command (rounded_button_init t c a) = c \<and>
   canvas_width (rounded_button_init t c a) = arg_width a + 2 * arg_padx a \<and>
   canvas_height (rounded_button_init t c a) = arg_height a + 2 * arg_pady a \<and>
   canvas_items (rounded_button_init t c a) =
     [CanvasPolygon (rounded_rectangle_points (arg_padx a) (arg_pady a) (arg_width a + arg_padx a)
                       (arg_height a + arg_pady a) 25) (arg_bg a),
      CanvasText (of_int (arg_width a + 2 * arg_padx a) / 2, of_int (arg_height a + 2 * arg_pady a) / 2)
                 t (arg_font a) (arg_fg a)] \<and>
   text_id (rounded_button_init t c a) = 2 \<and>
   widget_bindings (rounded_button_init t c a) = [''<Button-1>''] \<and>
   item_bindings (rounded_button_init t c a) = [(2, ''<Button-1>'')]"
  by (simp add: rounded_button_init_def rounded_rectangle_def create_item_def Let_def)

lemma canvas_event_init:
  "canvas_event (rounded_button_init t c a) ev current =
     (if current = Some 2 \<and> ev = ''<Button-1>'' then [c] else []) @ (if ev = ''<Button-1>'' then [c] else [])"
  by (simp add: canvas_event_def rounded_button_init_fields on_click_def)

lemma coord_pairs_rounded_rectangle:
  "coord_pairs (rounded_rectangle_points x1 y1 x2 y2 r) =
     [(x1 + r, y1), (x2 - r, y1), (x2, y1), (x2, y1 + r), (x2, y2 - r), (x2, y2),
      (x2 - r, y2), (x1 + r, y2), (x1, y2), (x1, y2 - r), (x1, y1 + r), (x1, y1)]"
  by (simp add: coord_pairs_def rounded_rectangle_points_def upt_rec)

text \<open>
  The outline: with a radius of at most half of each side, every vertex of the
  rounded rectangle lies on the border of its bounding box.  The button's
  rectangle then lies inside its canvas, inset by the padding, and the caption
  is anchored at the rectangle's centre.
\<close>

lemma rounded_rectangle_on_border:
  assumes "0 \<le> r" "2 * r \<le> x2 - x1" "2 * r \<le> y2 - y1"
  shows "\<forall>(x, y) \<in> set (coord_pairs (rounded_rectangle_points x1 y1 x2 y2 r)).
           x1 \<le> x \<and> x \<le> x2 \<and> y1 \<le> y \<and> y \<le> y2 \<and> (x = x1 \<or> x = x2 \<or> y = y1 \<or> y = y2)"
  using assms by (auto simp: coord_pairs_rounded_rectangle)

lemma button_geometry:
  assumes "0 \<le> arg_padx a" "0 \<le> arg_pady a" "50 \<le> arg_width a" "50 \<le> arg_height a"
    and "canvas_items (rounded_button_init t c a) =
           [CanvasPolygon ps (arg_bg a), CanvasText (cx, cy) t (arg_font a) (arg_fg a)]"
  shows "\<forall>(x, y) \<in> set (coord_pairs ps).
            0 \<le> x \<and> x \<le> canvas_width (rounded_button_init t c a) \<and>
            0 \<le> y \<and> y \<le> canvas_height (rounded_button_init t c a) \<and>
            (x = arg_padx a \<or> x = arg_width a + arg_padx a \<or> y = arg_pady a \<or> y = arg_height a + arg_pady a)"
    and "cx = of_int (arg_padx a + (arg_width a + arg_padx a)) / 2"
    and "cy = of_int (arg_pady a + (arg_height a + arg_pady a)) / 2"
  using assms by (auto simp: rounded_button_init_fields coord_pairs_rounded_rectangle)

section \<open>A click on the caption\<close>

text \<open>
  C23.  \<open>RoundedButton\<close> binds \<open><Button-1>\<close> to \<open>on_click\<close> twice: on the canvas
  and on the caption's text item.  Tk runs the item's binding and then the
  canvas's, so a click on the caption calls the button's command twice; a click
  on the rounded rectangle or on the bare canvas calls it once.
\<close>

theorem caption_click_calls_twice:
  "canvas_event (rounded_button_init t c a) ''<Button-1>'' (Some (text_id (rounded_button_init t c a))) = [c, c] \<and>
   (\<forall>i. i \<noteq> text_id (rounded_button_init t c a) \<longrightarrow>
        canvas_event (rounded_button_init t c a) ''<Button-1>'' (Some i) = [c]) \<and>
   canvas_event (rounded_button_init t c a) ''<Button-1>'' None = [c]"
  by (simp add: canvas_event_init rounded_button_init_fields)

theorem caption_click_calls_twice_witness:
  "canvas_event (rounded_button_init ''ENCODE'' (7::nat) default_button_args) ''<Button-1>'' (Some 2) = [7, 7] \<and>
   canvas_event (rounded_button_init ''ENCODE'' (7::nat) default_button_args) ''<Button-1>'' (Some 1) = [7]"
  using caption_click_calls_twice [of "''ENCODE''" "7::nat" default_button_args]
  by (simp add: rounded_button_init_fields)

end
