(* ===== verification/Gui_Buttons.thy ===== *)
theory Gui_Buttons
  imports Text_GUI Image_GUI Widgets
begin

text \<open>
  The buttons \<open>create_encode_tab\<close> and \<open>create_decode_tab\<close> put on the two GUIs,
  and what a mouse click on one of them does to the GUI's state.  A button's
  command is a constructor naming the bound method; a click is delivered by
  \<open>canvas_event\<close> of \<open>Widgets\<close>, which gives the list of commands it calls, and
  each call is an event of the GUI's step function (\<open>Text_GUI\<close>,
  \<open>Image_GUI\<close>).  A file-selection method opens \<open>askopenfilename\<close>; the answers
  the user gives to the dialogs one click opens are a list, consumed in order,
  an exhausted list standing for cancelled dialogs (\<open>''''\<close>).
\<close>

section \<open>Text GUI\<close>

datatype text_command = SelectEncodeFileCmd | StartEncodingCmd | SelectDecodeFileCmd | StartDecodingCmd

definition text_gui_buttons :: "text_command rounded_button list" where
  "text_gui_buttons =
     [rounded_button_init ''Select Image'' SelectEncodeFileCmd default_button_args,
      rounded_button_init ''ENCODE'' StartEncodingCmd (default_button_args\<lparr>arg_bg := ''#2ecc71''\<rparr>),
      rounded_button_init ''Select Image'' SelectDecodeFileCmd (default_button_args\<lparr>arg_bg := ''#e74c3c''\<rparr>),
      rounded_button_init ''DECODE'' StartDecodingCmd (default_button_args\<lparr>arg_bg := ''#2ecc71''\<rparr>)]"

definition dialog_answer :: "string list \<Rightarrow> string" where
  "dialog_answer answers = (case answers of [] \<Rightarrow> [] | a # _ \<Rightarrow> a)"

fun text_command_events :: "text_command list \<Rightarrow> string list \<Rightarrow> text_event list" where
  "text_command_events [] answers = []"
| "text_command_events (SelectEncodeFileCmd # cs) answers =
     SelectEncodeFile (dialog_answer answers) # text_command_events cs (drop 1 answers)"
| "text_command_events (StartEncodingCmd # cs) answers = ClickEncode # text_command_events cs answers"
| "text_command_events (SelectDecodeFileCmd # cs) answers =
     SelectDecodeFile (dialog_answer answers) # text_command_events cs (drop 1 answers)"
| "text_command_events (StartDecodingCmd # cs) answers = ClickDecode # text_command_events cs answers"

definition text_button_click :: "nat \<Rightarrow> nat option \<Rightarrow> string list \<Rightarrow> text_gui \<Rightarrow> text_gui" where
  "text_button_click k current answers s =
     text_gui_run s (text_command_events (canvas_event (text_gui_buttons ! k) ''<Button-1>'' current) answers)"

section \<open>Image GUI\<close>

datatype image_command = SelectCoverImageCmd | SelectHiddenImageCmd | StartEncodingImgCmd
  | SelectDecodeFileImgCmd | StartDecodingImgCmd

definition image_gui_buttons :: "image_command rounded_button list" where
  "image_gui_buttons =
     [rounded_button_init_img ''Select Cover Image'' SelectCoverImageCmd (default_button_args\<lparr>arg_width := 400\<rparr>),
      rounded_button_init_img ''Select Hidden Image'' SelectHiddenImageCmd (default_button_args\<lparr>arg_width := 400\<rparr>),
      rounded_button_init_img ''ENCODE'' StartEncodingImgCmd (default_button_args\<lparr>arg_bg := ''#2ecc71''\<rparr>),
      rounded_button_init_img ''Select Encrypted Image'' SelectDecodeFileImgCmd
        (default_button_args\<lparr>arg_bg := ''#e74c3c'', arg_width := 400\<rparr>),
      rounded_button_init_img ''DECODE'' StartDecodingImgCmd (default_button_args\<lparr>arg_bg := ''#2ecc71''\<rparr>)]"

fun image_command_events :: "image_command list \<Rightarrow> string list \<Rightarrow> image_event list" where
  "image_command_events [] answers = []"
| "image_command_events (SelectCoverImageCmd # cs) answers =
     SelectCoverImage (dialog_answer answers) # image_command_events cs (drop 1 answers)"
| "image_command_events (SelectHiddenImageCmd # cs) answers =
     SelectHiddenImage (dialog_answer answers) # image_command_events cs (drop 1 answers)"
| "image_command_events (StartEncodingImgCmd # cs) answers = ClickEncodeImage # image_command_events cs answers"
| "image_command_events (SelectDecodeFileImgCmd # cs) answers =
     SelectEncryptedImage (dialog_answer answers) # image_command_events cs (drop 1 answers)"
| "image_command_events (StartDecodingImgCmd # cs) answers = ClickDecodeImage # image_command_events cs answers"

definition image_button_click :: "nat \<Rightarrow> nat option \<Rightarrow> string list \<Rightarrow> image_gui \<Rightarrow> image_gui option" where
  "image_button_click k current answers s =
     image_gui_run s (image_command_events (canvas_event (image_gui_buttons ! k) ''<Button-1>'' current) answers)"

section \<open>Lemmas\<close>

lemma text_button_events:
  "k < 4 \<Longrightarrow> canvas_event (text_gui_buttons ! k) ''<Button-1>'' current =
     (let cmd = [SelectEncodeFileCmd, StartEncodingCmd, SelectDecodeFileCmd, StartDecodingCmd] ! k
      in if current = Some 2 then [cmd, cmd] else [cmd])"
  by (auto simp: text_gui_buttons_def canvas_event_init rounded_button_init_fields less_Suc_eq numeral_eq_Suc)

lemma image_button_events:
  "k < 5 \<Longrightarrow> canvas_event (image_gui_buttons ! k) ''<Button-1>'' current =
     (let cmd = [SelectCoverImageCmd, SelectHiddenImageCmd, StartEncodingImgCmd, SelectDecodeFileImgCmd,
                 StartDecodingImgCmd] ! k
      in if current = Some 2 then [cmd, cmd] else [cmd])"
  by (auto simp: image_gui_buttons_def canvas_event_init rounded_button_init_fields less_Suc_eq numeral_eq_Suc)

lemma text_gui_buttons_caption: "k < 4 \<Longrightarrow> text_id (text_gui_buttons ! k) = 2"
  by (auto simp: text_gui_buttons_def rounded_button_init_fields less_Suc_eq numeral_eq_Suc)

lemma image_gui_buttons_caption: "k < 5 \<Longrightarrow> text_id (image_gui_buttons ! k) = 2"
  by (auto simp: image_gui_buttons_def rounded_button_init_fields less_Suc_eq numeral_eq_Suc)

lemma select_caption_click_second_dialog_cancelled:
  "p \<noteq> [] \<Longrightarrow> encode_file_path (text_button_click 0 (Some 2) [p] s) = Some p \<and>
                encode_file_label (text_button_click 0 (Some 2) [p] s) = NoFileSelected"
  by (simp add: text_button_click_def text_button_events text_gui_run_def select_encode_file_def dialog_answer_def)

section \<open>A click on the ENCODE caption\<close>

text \<open>
  C24.  A click on the caption of either GUI's ENCODE button, when encoding is
  possible, runs \<open>start_encoding\<close> twice and queues two identical encoding
  threads; a click beside the caption queues one.
\<close>

theorem encode_caption_click_queues_twice:
  "(encode_file_path s = Some p \<and> py_strip (encode_message_entry s) \<noteq> [] \<longrightarrow>
      text_jobs (text_button_click 1 (Some (text_id (text_gui_buttons ! 1))) answers s) =
        text_jobs s @ [EncodeMessageJob p (py_strip (encode_message_entry s)),
                       EncodeMessageJob p (py_strip (encode_message_entry s))] \<and>
      text_jobs (text_button_click 1 None answers s) =
        text_jobs s @ [EncodeMessageJob p (py_strip (encode_message_entry s))]) \<and>
   (cover_image_path t \<noteq> None \<and> hidden_image_path t \<noteq> None \<longrightarrow>
      map_option image_jobs (image_button_click 2 (Some (text_id (image_gui_buttons ! 2))) answers t) =
        Some (image_jobs t @ [EncodeImageJob, EncodeImageJob]) \<and>
      map_option image_jobs (image_button_click 2 None answers t) = Some (image_jobs t @ [EncodeImageJob]))"
  by (simp add: text_button_click_def image_button_click_def text_button_events image_button_events
       text_gui_buttons_caption image_gui_buttons_caption text_gui_run_def start_encoding_def
       start_encoding_img_def Let_def)

theorem encode_caption_click_queues_twice_witness:
  "text_jobs (text_button_click 1 (Some 2) []
     ((text_gui_init Map.empty)\<lparr>encode_file_path := Some ''a.png'', encode_message_entry := ''hi''\<rparr>)) =
     [EncodeMessageJob ''a.png'' ''hi'', EncodeMessageJob ''a.png'' ''hi''] \<and>
   map_option image_jobs (image_button_click 2 (Some 2) []
     ((image_gui_init Map.empty)\<lparr>cover_image_path := Some ''c.png'', hidden_image_path := Some ''h.png''\<rparr>)) =
     Some [EncodeImageJob, EncodeImageJob]"
proof -
  have m: "py_strip ''hi'' = ''hi''" by code_simp
  show ?thesis
    using encode_caption_click_queues_twice
      [of "(text_gui_init Map.empty)\<lparr>encode_file_path := Some ''a.png'', encode_message_entry := ''hi''\<rparr>"
          "''a.png''" "[]"
          "(image_gui_init Map.empty)\<lparr>cover_image_path := Some ''c.png'', hidden_image_path := Some ''h.png''\<rparr>"]
    by (simp add: m text_gui_buttons_caption image_gui_buttons_caption text_gui_init_def image_gui_init_def)
qed

end
