(* ===== verification/Histogram.thy ===== *)
theory Histogram
  imports Gui_Common
begin

text \<open>
  \<open>plot_histograms\<close>, defined in both engine files: it opens two images, converts
  them to grey (\<open>convert("L")\<close>), flattens the grey arrays and draws one
  histogram of each with \<open>plt.hist(..., bins=256, range=(0, 255))\<close>.  The model
  returns the two lists of bar heights it draws; titles, colours and layout are
  not modelled.  The grey value is Pillow's fixed-point form of the ITU-R 601-2
  luma transform, \<open>(R * 19595 + G * 38470 + B * 7471 + 0x8000) >> 16\<close>; a value
  \<open>v\<close> falls into the \<open>numpy\<close> bin \<open>min(255, floor(v * 256 / 255))\<close> (the bins
  are \<open>[k * 255 / 256, (k + 1) * 255 / 256)\<close>, the last one closed).  The lemmas
  show that every grey level has its own bin, that the bars add up to the number
  of pixels, and that when no channel moves by more than one, no grey value
  moves by more than one, so each bar of the second histogram is bounded by the
  three neighbouring bars of the first.
\<close>

section \<open>Definitions\<close>

text \<open>\<open>Image.convert("L")\<close> of one RGB pixel.\<close>

definition to_grey :: "u8 list \<Rightarrow> nat" where
  "to_grey rgb = (unat (rgb ! 0) * 19595 + unat (rgb ! 1) * 38470 + unat (rgb ! 2) * 7471 + 32768) div 65536"

text \<open>\<open>np.array(Image.open(p).convert("L")).flatten()\<close>\<close>

definition grey_flat :: "pixels \<Rightarrow> nat list" where
  "grey_flat px = map to_grey (concat px)"

text \<open>The bin of \<open>np.histogram(values, bins=256, range=(0, 255))\<close> a value falls into.\<close>

definition hist_bin :: "nat \<Rightarrow> nat" where
  "hist_bin v = min 255 (v * 256 div 255)"

definition bin_count :: "nat list \<Rightarrow> nat \<Rightarrow> nat" where
  "bin_count vs b = length (filter (\<lambda>v. hist_bin v = b) vs)"

text \<open>The bar heights \<open>plt.hist\<close> draws.\<close>

definition hist :: "nat list \<Rightarrow> nat list" where
  "hist vs = map (bin_count vs) [0..<256]"

definition plot_histograms :: "file_store \<Rightarrow> string \<Rightarrow> string \<Rightarrow> py_error + nat list \<times> nat list" where
  "plot_histograms files original_image_path encrypted_image_path =
     (case load_image files original_image_path of
        Inl e \<Rightarrow> Inl e
      | Inr original_image \<Rightarrow>
          (case load_image files encrypted_image_path of
             Inl e \<Rightarrow> Inl e
           | Inr encrypted_image \<Rightarrow>
               (let original_pixels = grey_flat original_image;
                    encrypted_pixels = grey_flat encrypted_image
                in Inr (hist original_pixels, hist encrypted_pixels))))"

text \<open>The copy in \<open>image_steganography.py\<close>.\<close>

definition plot_histograms_img :: "file_store \<Rightarrow> string \<Rightarrow> string \<Rightarrow> py_error + nat list \<times> nat list" where
  "plot_histograms_img files original_image_path encrypted_image_path =
     (case load_image files original_image_path of
        Inl e \<Rightarrow> Inl e
      | Inr original_image \<Rightarrow>
          (case load_image files encrypted_image_path of
             Inl e \<Rightarrow> Inl e
           | Inr encrypted_image \<Rightarrow>
               (let original_pixels = grey_flat original_image;
                    encrypted_pixels = grey_flat encrypted_image
                in Inr (hist original_pixels, hist encrypted_pixels))))"

section \<open>Lemmas\<close>

lemma plot_histograms_img_eq [simp]: "plot_histograms_img = plot_histograms"
  by (intro ext) (simp add: plot_histograms_img_def plot_histograms_def)

lemma to_grey_le: "to_grey rgb \<le> 255"
proof -
  have b: "unat (rgb ! i) < 2 ^ LENGTH(8)" for i by (rule unsigned_less)
  have "unat (rgb ! 0) \<le> 255" "unat (rgb ! 1) \<le> 255" "unat (rgb ! 2) \<le> 255"
    using b [of 0] b [of 1] b [of 2] by simp_all
  then have "unat (rgb ! 0) * 19595 + unat (rgb ! 1) * 38470 + unat (rgb ! 2) * 7471 + 32768 < 256 * 65536"
    by linarith
  then show ?thesis unfolding to_grey_def by (simp add: less_Suc_eq_le [symmetric] div_less_iff_less_mult)
qed

lemma grey_flat_le: "v \<in> set (grey_flat px) \<Longrightarrow> v \<le> 255"
  by (auto simp: grey_flat_def to_grey_le)

text \<open>Every grey level has a bin of its own.\<close>

lemma hist_bin_id: "v \<le> 255 \<Longrightarrow> hist_bin v = v"
  by (cases "v = 255") (simp_all add: hist_bin_def)

lemma bin_count_id: "(\<And>v. v \<in> set vs \<Longrightarrow> v \<le> 255) \<Longrightarrow> bin_count vs b = length (filter (\<lambda>v. v = b) vs)"
  unfolding bin_count_def by (rule arg_cong [where f = length], rule filter_cong) (simp_all add: hist_bin_id)

lemma count_in_set:
  "(\<Sum>k \<in> K. length (filter (\<lambda>v. v = k) vs)) = length (filter (\<lambda>v. v \<in> K) vs)" if "finite K"
proof (induction vs)
  case Nil
  then show ?case by simp
next
  case (Cons a vs)
  have "(\<Sum>k \<in> K. length (filter (\<lambda>v. v = k) (a # vs))) =
        (\<Sum>k \<in> K. (if a = k then 1 else 0) + length (filter (\<lambda>v. v = k) vs))"
    by (rule sum.cong) simp_all
  also have "\<dots> = (if a \<in> K then 1 else 0) + length (filter (\<lambda>v. v \<in> K) vs)"
    using that Cons.IH by (simp add: sum.distrib)
  finally show ?case by simp
qed

lemma sum_hist: "(\<And>v. v \<in> set vs \<Longrightarrow> v \<le> 255) \<Longrightarrow> sum_list (hist vs) = length vs"
proof -
  assume le: "\<And>v. v \<in> set vs \<Longrightarrow> v \<le> 255"
  have "sum_list (hist vs) = (\<Sum>k \<in> {0..<256}. bin_count vs k)"
    by (simp add: hist_def interv_sum_list_conv_sum_set_nat)
  also have "\<dots> = (\<Sum>k \<in> {0..<256}. length (filter (\<lambda>v. v = k) vs))" using le by (simp add: bin_count_id)
  also have "\<dots> = length (filter (\<lambda>v. v \<in> {0..<256}) vs)" by (rule count_in_set) simp
  also have "\<dots> = length vs"
  proof -
    have "\<forall>v \<in> set vs. v \<in> {0..<256}" using le by fastforce
    then show ?thesis by (simp only: filter_True)
  qed
  finally show ?thesis .
qed

text \<open>Channels that move by at most one move the grey value by at most one.\<close>

lemma to_grey_close:
  assumes "\<forall>c < 3. unat (q ! c) \<le> unat (p ! c) + 1"
  shows "to_grey q \<le> to_grey p + 1"
proof -
  let ?N = "\<lambda>r :: u8 list. unat (r ! 0) * 19595 + unat (r ! 1) * 38470 + unat (r ! 2) * 7471 + 32768"
  have "unat (q ! 0) \<le> unat (p ! 0) + 1" "unat (q ! 1) \<le> unat (p ! 1) + 1" "unat (q ! 2) \<le> unat (p ! 2) + 1"
    using assms by simp_all
  then have "?N q \<le> ?N p + 65536" by linarith
  then have "?N q div 65536 \<le> (?N p + 65536) div 65536" by (rule div_le_mono)
  then show ?thesis by (simp add: to_grey_def)
qed

text \<open>A grey value that moves by at most one lands in one of the three neighbouring bins.\<close>

lemma count_window:
  "list_all2 (\<lambda>a b. b \<le> a + 1 \<and> a \<le> b + 1) xs ys \<Longrightarrow>
     length (filter (\<lambda>v. v = k) ys) \<le> length (filter (\<lambda>v. v \<in> {k - 1..k + 1}) xs)" for k :: nat
proof (induction rule: list_all2_induct)
  case (Cons x xs y ys)
  have "y = k \<Longrightarrow> x \<in> {k - 1..k + 1}" using Cons.hyps(1) by auto
  then show ?case using Cons.IH by auto
qed simp

text \<open>Hence each bar of the second histogram is at most the three neighbouring bars of the first.\<close>

lemma hist_window:
  assumes "list_all2 (\<lambda>a b. b \<le> a + 1 \<and> a \<le> b + 1) xs ys"
    and "\<And>v. v \<in> set xs \<Longrightarrow> v \<le> 255" "\<And>v. v \<in> set ys \<Longrightarrow> v \<le> 255" "b < 256"
  shows "hist ys ! b \<le> (\<Sum>k \<in> {b - 1..b + 1} \<inter> {..<256}. hist xs ! k)"
proof -
  have "hist ys ! b = length (filter (\<lambda>v. v = b) ys)"
    using assms(4) bin_count_id [of ys, OF assms(3)] by (simp add: hist_def)
  also have "\<dots> \<le> length (filter (\<lambda>v. v \<in> {b - 1..b + 1}) xs)" by (rule count_window [OF assms(1)])
  also have "\<dots> = length (filter (\<lambda>v. v \<in> {b - 1..b + 1} \<inter> {..<256}) xs)"
    by (intro arg_cong [where f = length] filter_cong) (auto dest: assms(2))
  also have "\<dots> = (\<Sum>k \<in> {b - 1..b + 1} \<inter> {..<256}. length (filter (\<lambda>v. v = k) xs))"
    by (rule count_in_set [symmetric]) simp
  also have "\<dots> = (\<Sum>k \<in> {b - 1..b + 1} \<inter> {..<256}. hist xs ! k)"
    using bin_count_id [of xs, OF assms(2)] by (intro sum.cong) (simp_all add: hist_def)
  finally show ?thesis .
qed

lemma div2_close: "(a :: nat) div 2 = b div 2 \<Longrightarrow> a \<le> b + 1"
  by presburger

lemma list_all2_concat_rows: "list_all2 (list_all2 P) xss yss \<Longrightarrow> list_all2 P (concat xss) (concat yss)"
  by (induction rule: list_all2_induct) (simp_all add: list_all2_appendI)

text \<open>Two arrays of one shape whose channels agree above the lowest bit have grey values at most one apart.\<close>

lemma grey_flat_close:
  assumes "wf_pixels px" "wf_pixels px'" "img_width px' = img_width px" "img_height px' = img_height px"
    and "\<And>x y c. unat (chan px' x y c) div 2 = unat (chan px x y c) div 2"
  shows "list_all2 (\<lambda>a b. b \<le> a + 1 \<and> a \<le> b + 1) (grey_flat px) (grey_flat px')"
proof -
  let ?R = "\<lambda>p q. to_grey q \<le> to_grey p + 1 \<and> to_grey p \<le> to_grey q + 1"
  have pix: "?R (px ! y ! x) (px' ! y ! x)" for x y
  proof -
    have "unat (px' ! y ! x ! c) div 2 = unat (px ! y ! x ! c) div 2" for c using assms(5) [of x y c] by (simp add: chan_def)
    then have "\<forall>c < 3. unat (px' ! y ! x ! c) \<le> unat (px ! y ! x ! c) + 1"
          "\<forall>c < 3. unat (px ! y ! x ! c) \<le> unat (px' ! y ! x ! c) + 1"
      using div2_close by metis+
    then show ?thesis using to_grey_close by blast
  qed
  have "length px = length px'" using assms(4) by (simp add: img_height_def)
  moreover have "length (px ! y) = length (px' ! y)" if "y < length px" for y
    using that assms(1-4) by (auto simp: wf_pixels_nth img_height_def)
  ultimately have "list_all2 (list_all2 ?R) px px'"
    using pix by (auto intro!: list_all2_all_nthI)
  then have "list_all2 ?R (concat px) (concat px')" by (rule list_all2_concat_rows)
  then show ?thesis by (simp add: grey_flat_def list_all2_map1 list_all2_map2)
qed

lemma length_grey_flat: "wf_pixels px \<Longrightarrow> length (grey_flat px) = img_width px * img_height px"
proof -
  assume "wf_pixels px"
  then have "\<forall>row \<in> set px. length row = img_width px" by (simp add: wf_pixels_def)
  then have "length (concat px) = length px * img_width px" by (rule length_concat_uniform)
  then show ?thesis by (simp add: grey_flat_def img_height_def mult.commute)
qed

text \<open>What two histograms of grey values at most one apart have in common.\<close>

lemma hist_close:
  assumes "list_all2 (\<lambda>a b. b \<le> a + 1 \<and> a \<le> b + 1) xs ys"
    and "\<And>v. v \<in> set xs \<Longrightarrow> v \<le> 255" "\<And>v. v \<in> set ys \<Longrightarrow> v \<le> 255"
  shows "sum_list (hist xs) = length xs \<and> sum_list (hist ys) = sum_list (hist xs) \<and>
         (\<forall>b < 256. hist ys ! b \<le> (\<Sum>k \<in> {b - 1..b + 1} \<inter> {..<256}. hist xs ! k))"
  using sum_hist [OF assms(2)] sum_hist [OF assms(3)] list_all2_lengthD [OF assms(1)] hist_window [OF assms]
  by simp

end
