(* ===== verification/Demo_Main.thy ===== *)
theory Demo_Main
  imports Image_Engine Histogram
begin

text \<open>
  The demo \<open>main\<close> functions at the end of both engine files: they compose the
  engine with file I/O.  Each run is modelled on a file system (see
  \<open>Gui_Common\<close>) and returns the lines it prints, the file system after its
  saves, the exception that ended it, if any (no \<open>try\<close> is around the calls,
  so an exception ends \<open>main\<close>), and the two histograms the final
  \<open>plot_histograms\<close> call shows (see \<open>Histogram\<close>), if it is reached.
\<close>

section \<open>Text demo\<close>

text \<open>The message literal of \<open>main\<close> in \<open>text_steganography.py\<close>.\<close>

definition demo_message :: string where
  "demo_message = ''ome differences may sdlffildsjfd kslsdnfldsnvdklv dsflksdfjkldsjfds sdlkfjsdkfj in the histograms, an effective steganographic technique ensures that these changes remain subtle, preserving the image's appearance while effectively hiding the message.''"

definition text_main ::
  "file_store \<Rightarrow> string list \<times> file_store \<times> py_error option \<times> (nat list \<times> nat list) option" where
  "text_main files =
     (let image_path = ''/content/new-small.png''; message = demo_message; stego = default_config;
          out = [''Embedding message...'']
      in case load_image files image_path of
           Inl e \<Rightarrow> (out, files, Some e, None)
         | Inr pixels \<Rightarrow>
             (case embed_message stego pixels (map of_char message) of
                Inl e \<Rightarrow> (out, files, Some e, None)
              | Inr encrypted_image \<Rightarrow>
                  (let encrypted_image_path = ''encrypted_image.png'';
                       files' = files(encrypted_image_path \<mapsto> encrypted_image);
                       out' = out @ [''Message embedded and saved as '' @ [CHR 0x27] @ ''encrypted_image.png'' @ [CHR 0x27],
                                     ''Extracting message...'']
                   in case load_image files' encrypted_image_path of
                        Inl e \<Rightarrow> (out', files', Some e, None)
                      | Inr encrypted_pixels \<Rightarrow>
                          (case extract_message stego encrypted_pixels (length message) of
                             Inl e \<Rightarrow> (out', files', Some e, None)
                           | Inr extracted_message \<Rightarrow>
                               (let out'' = out' @ [''Extracted message: '' @ map char_of extracted_message, [CHR 0x0A]]
                                in case plot_histograms files' image_path encrypted_image_path of
                                     Inl e \<Rightarrow> (out'', files', Some e, None)
                                   | Inr shown \<Rightarrow> (out'', files', None, Some shown))))))"

section \<open>Image demo\<close>

text \<open>
  \<open>main\<close> of \<open>image_steganography.py\<close>.  The size passed to \<open>extract_image\<close> is
  \<open>Image.open(hidden_image_path).size\<close>, evaluated before \<open>extract_image\<close> opens
  the saved image.
\<close>

definition image_main ::
  "file_store \<Rightarrow> string list \<times> file_store \<times> py_error option \<times> (nat list \<times> nat list) option" where
  "image_main files =
     (let image_path = ''/content/new-large.png''; hidden_image_path = ''/content/new-small.png'';
          stego = default_config_img; out = [''Embedding hidden image...'']
      in case load_image files image_path of
           Inl e \<Rightarrow> (out, files, Some e, None)
         | Inr pixels \<Rightarrow>
             (case load_image files hidden_image_path of
                Inl e \<Rightarrow> (out, files, Some e, None)
              | Inr hidden_pixels \<Rightarrow>
                  (case embed_image stego pixels hidden_pixels of
                     Inl e \<Rightarrow> (out, files, Some e, None)
                   | Inr encrypted_image \<Rightarrow>
                       (let files' = files(''encrypted_image.png'' \<mapsto> encrypted_image);
                            out' = out @ [''Hidden image embedded and saved as '' @ [CHR 0x27] @ ''encrypted_image.png'' @ [CHR 0x27],
                                          ''Extracting hidden image...'']
                        in case load_image files' hidden_image_path of
                             Inl e \<Rightarrow> (out', files', Some e, None)
                           | Inr size_image \<Rightarrow>
                               (case load_image files' ''encrypted_image.png'' of
                                  Inl e \<Rightarrow> (out', files', Some e, None)
                                | Inr encrypted_pixels \<Rightarrow>
                                    (case extract_image stego encrypted_pixels (img_width size_image, img_height size_image) of
                                       Inl e \<Rightarrow> (out', files', Some e, None)
                                     | Inr extracted_image \<Rightarrow>
                                         (let files'' = files'(''extracted_image.png'' \<mapsto> extracted_image);
                                              out'' = out' @ [''Hidden image extracted and saved as '' @ [CHR 0x27] @ ''extracted_image.png'' @ [CHR 0x27]]
                                          in case plot_histograms_img files'' image_path ''encrypted_image.png'' of
                                               Inl e \<Rightarrow> (out'', files'', Some e, None)
                                             | Inr shown \<Rightarrow> (out'', files'', None, Some shown))))))))"

section \<open>Lemmas\<close>

lemma wf_pixels_shape: "wf_pixels px \<Longrightarrow> pixels_shape (img_width px) (img_height px) px"
  by (simp add: wf_pixels_def pixels_shape_def img_height_def)

text \<open>Under the default configuration embedding moves every grey value by at most one.\<close>

lemma default_embed_grey_close:
  assumes "wf_pixels px"
  shows "embed_message default_config px msg = Inr px' \<Longrightarrow>
           list_all2 (\<lambda>a b. b \<le> a + 1 \<and> a \<le> b + 1) (grey_flat px) (grey_flat px')"
    and "embed_image default_config px hidden = Inr px' \<Longrightarrow>
           list_all2 (\<lambda>a b. b \<le> a + 1 \<and> a \<le> b + 1) (grey_flat px) (grey_flat px')"
proof -
  assume e: "embed_message default_config px msg = Inr px'"
  have "\<And>x y c. unat (chan px' x y c) div 2 = unat (chan px x y c) div 2"
    using default_embedding_lsb [OF assms, of msg px'] e by simp
  then show "list_all2 (\<lambda>a b. b \<le> a + 1 \<and> a \<le> b + 1) (grey_flat px) (grey_flat px')"
    using embed_message_shape [OF valid_default_config assms e] assms by (intro grey_flat_close) simp_all
next
  assume e: "embed_image default_config px hidden = Inr px'"
  have "\<And>x y c. unat (chan px' x y c) div 2 = unat (chan px x y c) div 2"
    using default_embedding_lsb [OF assms, of _ _ _ _ _ hidden px'] e by simp
  then show "list_all2 (\<lambda>a b. b \<le> a + 1 \<and> a \<le> b + 1) (grey_flat px) (grey_flat px')"
    using embed_image_shape [OF valid_default_config assms e] assms by (intro grey_flat_close) simp_all
qed

text \<open>Each demo runs to its end on a carrier with room for the payload.\<close>

lemma text_main_runs:
  assumes "files ''/content/new-small.png'' = Some px" "wf_pixels px"
    and "length demo_message * 8 \<le> 3 * img_width px * img_height px"
  shows "\<exists>px'. text_main files =
           ([''Embedding message...'', ''Message embedded and saved as '' @ [CHR 0x27] @ ''encrypted_image.png'' @ [CHR 0x27],
             ''Extracting message...'', ''Extracted message: '' @ demo_message, [CHR 0x0A]],
            files(''encrypted_image.png'' \<mapsto> px'), None, Some (hist (grey_flat px), hist (grey_flat px')))"
proof -
  let ?msg = "map of_char demo_message :: nat list"
  have c: "valid_config default_config" "16 \<le> threshold default_config" "non_edge_bits default_config dvd 8"
    by (rule valid_default_config) (simp_all add: default_config_def)
  have small: "\<forall>c \<in> set ?msg. c < 256" by auto
  have cap: "length ?msg * 8 \<le> 3 * non_edge_bits default_config * img_width px * img_height px"
    using assms(3) by (simp add: default_config_def)
  obtain px' where e: "embed_message default_config px ?msg = Inr px'"
    and x: "extract_message default_config px' (length ?msg) = Inr ?msg"
    using flat_text_roundtrip [OF c assms(2) small cap] by auto
  have "text_main files =
           ([''Embedding message...'', ''Message embedded and saved as '' @ [CHR 0x27] @ ''encrypted_image.png'' @ [CHR 0x27],
             ''Extracting message...'', ''Extracted message: '' @ demo_message, [CHR 0x0A]],
            files(''encrypted_image.png'' \<mapsto> px'), None, Some (hist (grey_flat px), hist (grey_flat px')))"
    using assms(1) e x by (simp add: text_main_def load_image_def comp_def plot_histograms_def)
  then show ?thesis by blast
qed

lemma image_main_runs:
  assumes "files ''/content/new-large.png'' = Some px" "files ''/content/new-small.png'' = Some hidden"
    and "wf_pixels px" "wf_pixels hidden"
    and "img_width hidden * img_height hidden * 8 * 3 \<le> 3 * img_width px * img_height px"
  shows "\<exists>px'. image_main files =
           ([''Embedding hidden image...'', ''Hidden image embedded and saved as '' @ [CHR 0x27] @ ''encrypted_image.png'' @ [CHR 0x27],
             ''Extracting hidden image...'', ''Hidden image extracted and saved as '' @ [CHR 0x27] @ ''extracted_image.png'' @ [CHR 0x27]],
            files(''encrypted_image.png'' \<mapsto> px', ''extracted_image.png'' \<mapsto> hidden), None,
            Some (hist (grey_flat px), hist (grey_flat px')))"
proof -
  let ?w = "img_width hidden" and ?h = "img_height hidden"
  have c: "valid_config default_config" "16 \<le> threshold default_config" "non_edge_bits default_config dvd 8 * ?w * ?h"
    by (rule valid_default_config) (simp_all add: default_config_def)
  have cap: "?w * ?h * 8 * 3 \<le> 3 * non_edge_bits default_config * img_width px * img_height px"
    using assms(5) by (simp add: default_config_def)
  obtain px' where e: "embed_image default_config px hidden = Inr px'"
    and x: "extract_image default_config px' (?w, ?h) = Inr hidden"
    using flat_image_roundtrip [OF c assms(3) wf_pixels_shape [OF assms(4)] cap] by auto
  have n: "''/content/new-small.png'' \<noteq> ''encrypted_image.png''" by simp
  have "image_main files =
           ([''Embedding hidden image...'', ''Hidden image embedded and saved as '' @ [CHR 0x27] @ ''encrypted_image.png'' @ [CHR 0x27],
             ''Extracting hidden image...'', ''Hidden image extracted and saved as '' @ [CHR 0x27] @ ''extracted_image.png'' @ [CHR 0x27]],
            files(''encrypted_image.png'' \<mapsto> px', ''extracted_image.png'' \<mapsto> hidden), None,
            Some (hist (grey_flat px), hist (grey_flat px')))"
    using assms(1,2) e x n by (simp add: image_main_def load_image_def plot_histograms_def)
  then show ?thesis by blast
qed

end
