(* ===== verification/Spec2Isabelle.thy ===== *)
theory Spec2Isabelle
  imports Gui_Buttons Demo_Main
begin

text \<open>
  \<^bold>\<open>Edge-driven LSB steganography: a verification development.\<close>

  The repository hides a payload (a text message, or the raw bytes of a second
  image) in the low bits of the colour channels of a carrier image.  The carrier is
  cut into blocks of \<open>block_width \<times> block_height\<close> pixels; a block whose red
  plane has a strong gradient is an \<^emph>\<open>edge block\<close> and takes \<open>edge_bits\<close> bits per
  channel, any other block takes \<open>non_edge_bits\<close>.  The extractor walks the same
  blocks in the same order, classifies them again on the embedded image, and reads
  the same number of bits back.  Two near-identical copies of the engine exist:
  \<open>src/Embedd Text/text_steganography.py\<close> (class \<open>EdgeDetectStego\<close>, methods
  \<open>embed_message\<close>, \<open>extract_message\<close>, \<open>is_edge_block\<close>, \<open>embed_bits\<close>,
  \<open>extract_bits\<close>) and \<open>src/Embedd Image/image_steganography.py\<close> (the same class
  with \<open>embed_image\<close> and \<open>extract_image\<close>).  The two \<open>*_gui.py\<close> files are Tk front
  ends: their button handlers validate what the user selected and typed, and
  start a thread that calls the engine on the selected file and saves the result
  under \<open>assets/\<close>.

  \<^bold>\<open>Theories and what they model.\<close>
  \<^item> \<open>Stego_Prelude\<close>: types (\<open>u8 = 8 word\<close>; \<open>pixels\<close>, the array \<open>np.array(img)\<close>
    as a list of rows of pixels of channels; bit strings as \<open>bool list\<close>), the
    Python errors (\<open>py_error\<close>), a fold and a map that stop at the first exception
    (\<open>fold_err\<close>, \<open>map_err\<close>), \<open>range\<close> with a step (\<open>range_list\<close>, terminating by
    the measure \<open>stop - start\<close>; \<open>py_range\<close> raises on step 0), \<open>int(s, 2)\<close>
    (\<open>py_int_base2\<close>) and \<open>f"{v:0{w}b}"\<close> (\<open>format_bin\<close>) with their inverse laws,
    and the integer and word lemmas on bit masks.
  \<^item> \<open>Stego_Pixels\<close>: the record \<open>config\<close> (the five fields of \<open>__init__\<close>), the
    array's shape, \<open>embed_bits\<close> and \<open>extract_bits\<close> (identical in both files); a
    write changes only the addressed channel, a read as wide as the write returns it.
  \<^item> \<open>Edge_Classifier\<close>: \<open>is_edge_block\<close> of the text file and
    \<open>is_edge_block_img\<close> of the image file (its \<open>>=\<close> guard, proved equal),
    \<open>block_depth\<close>; the cells the classifier reads, the threshold test and the
    effect of the \<open>uint8\<close> wrap-around.
  \<^item> \<open>Block_Walker\<close>: the loop nest both engines share, as lists of block origins,
    pixels and slots (\<open>walk\<close>, a channel paired with its block's depth); the walk
    covers every channel exactly once and a block's footprint is disjoint from
    every earlier block.
  \<^item> \<open>Payload_Codec\<close>: message and image to bit string and back, with round trips.
  \<^item> \<open>Slot_Engine\<close>: the state \<open>embed_state\<close> (the array and \<open>bit_index\<close>), the
    channel-level loop bodies \<open>embed_channel\<close> and \<open>extract_channel\<close>, and the flat
    loops over a walk; the round trip over any walk of distinct in-range slots,
    for every prefix that ends on a chunk boundary.
  \<^item> \<open>Text_Engine\<close>: \<open>embed_message\<close> and \<open>extract_message\<close> with their nested
    loops, guards and cursor as written; the refinement to the flat loops
    (embedding classifies every block on the original carrier), totality, and
    the round trip.
  \<^item> \<open>Image_Engine\<close>: \<open>embed_image\<close> and \<open>extract_image\<close> with the per-pixel cursor
    check and the row-level \<open>break\<close>; a successful embedding equals the text
    engine's walk, the extractor reads the text extractor's bits and possibly
    more, the round trip; with flat blocks of depth \<open>d\<close> the embedder succeeds
    or raises according to the payload's length modulo \<open>3 d\<close>.  The image
    file's own module constants and \<open>__init__\<close> defaults, \<open>embed_bits\<close> and
    \<open>extract_bits\<close> (\<open>default_config_img\<close>, \<open>embed_bits_img\<close>,
    \<open>extract_bits_img\<close>) are the ones its loops call; they are proved equal to the
    text file's.
  \<^item> \<open>Py_Builtins\<close>: the string builtins the GUIs apply to what the user types and
    to the dialog results: \<open>strip\<close>, \<open>isdigit\<close>, \<open>int(s)\<close> in base 10, \<open>split\<close>,
    \<open>os.path.basename\<close>, on Latin-1 strings, with \<open>str(n)\<close> (\<open>dec_string\<close>) and the
    law that \<open>int\<close> reads a decimal rendering back.
  \<^item> \<open>Gui_Common\<close>: label texts (\<open>file_label\<close>, \<open>status_text\<close>, one constructor
    per f-string), the file system as a map from paths to arrays
    (\<open>load_image\<close> raises on a missing path) and the save paths.
  \<^item> \<open>Text_GUI\<close>: \<open>TextSteganographyGUI\<close> as a record of its widgets and attributes;
    the handlers \<open>select_encode_file\<close>, \<open>select_decode_file\<close>, \<open>start_encoding\<close>,
    \<open>start_decoding\<close> and the thread bodies \<open>encode_message\<close> and \<open>decode_message\<close>
    (\<open>encode_message_job\<close>, \<open>decode_message_job\<close>); a step function over user
    events and worker runs, its runs, the reachable states as an inductive
    predicate, the invariant, and that pending workers finish and answer.
  \<^item> \<open>Image_GUI\<close>: \<open>ImageSteganographyGUI\<close> in the same way, with the size parser
    \<open>parse_size\<close> (\<open>map(int, size.split('x'))\<close> unpacked into two names) and
    workers that read the path attributes when they run.
  \<^item> \<open>Histogram\<close>: \<open>plot_histograms\<close> of both scripts up to the drawing: the
    grey conversion of PIL's \<open>convert("L")\<close> (\<open>to_grey\<close>, ITU-R 601 weights in
    16-bit fixed point, as PIL computes it), the flattening \<open>np.array(...).flatten()\<close>
    (\<open>grey_flat\<close>) and the 256 bins of \<open>plt.hist(..., bins=256, range=(0, 255))\<close>
    (\<open>hist_bin\<close>, \<open>hist\<close>); the bins count every value once, and values that
    move by at most one move a bar's mass to at most the adjacent bars.
  \<^item> \<open>Demo_Main\<close>: the two demo \<open>main\<close> functions (\<open>text_main\<close>,
    \<open>image_main\<close>) composing the engines with file loads, saves and the final
    \<open>plot_histograms\<close>, with the lines they print and the two histograms shown.
  \<^item> \<open>Widgets\<close>: \<open>RoundedButton\<close> (identical in both GUI files) as a record of
    its canvas: size, items (\<open>rounded_rectangle\<close>'s polygon, the caption) and
    the \<open><Button-1>\<close> bindings \<open>__init__\<close> makes; \<open>on_click\<close>; Tk's delivery
    of a click (\<open>canvas_event\<close>); the outline lies on its bounding box inside
    the canvas with the caption at its centre.  The image GUI file's copy
    (\<open>rounded_button_init_img\<close>) is proved equal to the text GUI file's.
  \<^item> \<open>Gui_Buttons\<close>: the buttons of \<open>create_encode_tab\<close> and
    \<open>create_decode_tab\<close> of both GUIs with the methods they are bound to, and a
    click on a button as the GUI events of the commands it calls.
  \<^item> this theory: the claims, which span components, and the concrete runs that
    show where the source departs from its specification.

  \<^bold>\<open>Results.\<close>  Both engines round-trip when the extractor classifies every
  block as the embedder did and the payload ends on a slice boundary (C1, C5);
  for thresholds of at least 16, the default among them, all blocks are flat and
  the round trip holds outright when the depth divides the payload (C2, C6), with
  truncated prefixes for shorter lengths.  The text embedder never raises (C3)
  and refines the flat loops over the walk (C4).  The image embedder checks its
  cursor once per pixel: with flat blocks of depth \<open>d\<close> it raises exactly when the
  payload's length modulo \<open>3 d\<close> lies in \<open>1..2 d\<close> (C11).  Under the default
  configuration channel values change in their least significant bit only (C15),
  so no pixel's grey level moves by more than one (C16).  Through the GUIs, a user
  session of select, type, encode, run, select, type, decode, run returns the
  stripped message, or writes the hidden image back (C7, C8); the demo scripts
  print the message back and save the hidden image (C17, C18).  Both GUIs keep
  their invariants in every reachable state (C9, C10), so no image worker reports an
  \<open>AttributeError\<close>, and every accepted click of either GUI gets its answer once
  the pending workers have run (C13, C14).  The pixel helpers, the codecs and the
  traversal are correct on their own (C25, C26, C27, C28), and the
  capacity lies between the specification's bounds (C29).  The source departs
  from the specification where the theorems show it: the squared gradient wraps
  in \<open>uint8\<close>, so the default threshold never detects an edge (C12); a zero block
  dimension raises from \<open>range\<close> (C30); an over-long payload is truncated
  silently (C31); a code point above 255 can never be read back (C32).  In the
  GUIs, a cancelled dialog shows "No file selected" while the old path is still
  used (C20), a superscript digit leaves the decoding status "in progress" with
  no worker (C21), the image encoder uses paths selected after the click (C19), and
  negative sizes pass the validation (C22).  Every \<open>RoundedButton\<close> binds its
  click twice, on the canvas and on the caption, so a click on the caption calls
  the command twice (C23): on the ENCODE buttons it queues two identical
  encoding threads (C24).

  \<^bold>\<open>Modelling choices.\<close>  Channel values are \<open>8 word\<close>; the gradient arithmetic of
  \<open>is_edge_block\<close> wraps modulo 256 as \<open>numpy\<close>'s \<open>uint8\<close> does.  \<open>embed_bits\<close>
  computes in Python integers (\<open>numpy\<close> 1 promotes the \<open>uint8\<close> value when it meets
  the negative \<open>~mask\<close>) and stores the result back modulo 256; under \<open>numpy\<close> 2
  the same expression raises \<open>OverflowError\<close> on every call, which is not
  modelled.  The threshold is an integer; \<open>np.sqrt(m) > t\<close>, which \<open>numpy\<close>
  computes in \<open>float16\<close> for a \<open>uint8\<close> argument, is modelled as
  \<open>t < 0 \<or> t * t < m\<close>: for a byte \<open>m\<close> and an integer \<open>t\<close> the rounded
  root is above \<open>t\<close> exactly when \<open>m > t\<^sup>2\<close>.  \<open>img.size\<close> is read from the
  array's shape.  \<open>chan\<close> and \<open>set_chan\<close> do not raise \<open>IndexError\<close> out of
  range (a read is unspecified, a write does nothing); the engines' bounds
  guards keep every access in range, so no theorem depends on it.  Every
  loop of the source is a fold over a finite list, so every function of the model
  is total and no fuel is needed.  Errors (\<open>ValueError\<close> from \<open>range\<close> with step
  0, from \<open>int('', 2)\<close> and from \<open>reshape\<close>, \<open>FileNotFoundError\<close> from
  \<open>Image.open\<close>, \<open>AttributeError\<close>) are values of \<open>py_error + _\<close>.  Python
  strings are lists of 8-bit characters (the Latin-1 part of Unicode), message
  payloads lists of code points.  In the GUIs a file is the array
  \<open>np.array(Image.open(p).convert("RGB"))\<close> reads from it, and \<open>save\<close> of a PNG
  stores the array unchanged; \<open>plot_histograms\<close> converts that RGB array to
  grey with PIL's formula for \<open>convert("L")\<close>.  Each worker thread runs its body as one step, at
  any point between user events, in any order (\<open>RunTextWorker i\<close> runs the
  \<open>i\<close>-th pending one); the Tk loop runs handlers one at a time.  A decoding job
  of the image GUI with a width or height that is not positive is outside the
  model (its step is \<open>None\<close>).  Tk delivers a click on a canvas to the
  bindings of the item under the pointer and then to the canvas's own, as the Tk
  canvas manual states; which item is under the pointer is a parameter of the
  click, since it depends on font metrics.  A click that opens file dialogs
  takes the user's answers in order, a missing answer being a cancel.

  \<^bold>\<open>Not modelled.\<close>  Widget layout and styling (\<open>style_tabs\<close>, the notebook
  and frames of \<open>create_widgets\<close>, the labels' fonts and colours, \<open>pack\<close>),
  which only draw, and the pixels Tk renders for a smoothed polygon;
  interleaving inside a worker body and races between the worker threads and Tk
  on the label widgets; image decoding and colour conversion of non-RGB or
  truncated files (\<open>ImageFile.LOAD_TRUNCATED_IMAGES\<close>); \<open>reshape\<close> with negative
  sizes and the save of an image with no pixels; code points above 255 in GUI
  strings; the \<open>matplotlib\<close> calls of \<open>plot_histograms\<close> that lay out and show the
  figure (the bar heights it computes are modelled).
\<close>

section \<open>The text engine\<close>

text \<open>
  C1.  Text round trip.  Embedding a message whose code points fit in a byte with a
  valid configuration and extracting \<open>len(message)\<close> characters from the result
  gives the message back, provided (a) the extractor, which classifies the blocks
  of the embedded image, assigns every block the depth the embedder assigned on
  the carrier, and (b) the payload ends exactly where a channel's slice ends.
\<close>

theorem text_roundtrip:
  assumes "valid_config cfg" "wf_pixels px" "\<forall>c \<in> set msg. c < 256"
    and "embed_message cfg px msg = Inr px'"
    and "\<forall>x y. (x, y) \<in> set (block_origins cfg px) \<longrightarrow> block_depth cfg px' x y = block_depth cfg px x y"
    and "chunk_aligned 0 (length msg * 8) (map snd (walk cfg px (block_depth cfg px)))"
  shows "extract_message cfg px' (length msg) = Inr msg"
proof -
  obtain st' where e: "embed_walk (message_to_bits msg) (walk cfg px (block_depth cfg px)) \<lparr>pix = px, bit_index = 0\<rparr> = Inr st'"
    and r: "embed_message cfg px msg = Inr (pix st')"
    using embed_message_succeeds [OF assms(1,2)] by blast
  have "px' = pix st'" using r assms(4) by simp
  then show ?thesis using extract_after_embed_walk [OF assms(1-3) e] assms(5,6) by simp
qed

theorem text_roundtrip_witness:
  "extract_message default_config [[[0, 1, 0], [0, 0, 0], [0, 1, 0]]] 1 = Inr [65]"
proof -
  let ?P = "[[[0, 0, 0], [0, 0, 0], [0, 0, 0]]] :: pixels" and ?P' = "[[[0, 1, 0], [0, 0, 0], [0, 1, 0]]] :: pixels"
  have w: "wf_pixels ?P" by (simp add: wf_pixels_def img_width_def)
  have e: "embed_message default_config ?P [65] = Inr ?P'" by code_simp
  have s: "\<forall>x y. (x, y) \<in> set (block_origins default_config ?P) \<longrightarrow>
             block_depth default_config ?P' x y = block_depth default_config ?P x y"
    by (simp add: block_depth_def is_edge_block_def img_width_def default_config_def)
  have a: "chunk_aligned 0 (length [65::nat] * 8) (map snd (walk default_config ?P (block_depth default_config ?P)))"
    by code_simp
  show ?thesis
    using text_roundtrip [OF valid_default_config w _ e s a] by simp
qed

text \<open>
  C2.  With a configuration whose threshold is at least 16 (the default one among
  them) every block is flat; when its depth divides 8, every message of at most
  \<open>3 \<times> non_edge_bits \<times> W \<times> H\<close> bits is embedded without error, and extracting
  any \<open>k \<le> len(message)\<close> characters returns the message's first \<open>k\<close> characters:
  the whole message for \<open>k = len(message)\<close>, a truncated prefix and no error for
  smaller \<open>k\<close> (the specification's scenarios; the 9 \<open>\<times>\<close> 9 grey carrier is the
  witness).
\<close>

theorem flat_config_text_roundtrip:
  assumes "valid_config cfg" "16 \<le> threshold cfg" "non_edge_bits cfg dvd 8"
    and "wf_pixels px" "\<forall>c \<in> set msg. c < 256"
    and "length msg * 8 \<le> 3 * non_edge_bits cfg * img_width px * img_height px"
  shows "\<exists>px'. embed_message cfg px msg = Inr px' \<and>
               (\<forall>k \<le> length msg. extract_message cfg px' k = Inr (take k msg))"
  by (rule flat_text_roundtrip [OF assms])

theorem flat_config_text_roundtrip_witness:
  "\<exists>px'. embed_message default_config (replicate 9 (replicate 9 [128, 128, 128])) [72, 105] = Inr px' \<and>
         extract_message default_config px' 2 = Inr [72, 105] \<and>
         extract_message default_config px' 1 = Inr [72]"
proof -
  have t: "16 \<le> threshold default_config" "non_edge_bits default_config dvd 8"
    by (simp_all add: default_config_def)
  have w: "wf_pixels (replicate 9 (replicate 9 [128, 128, 128]))" by code_simp
  have c: "length [72::nat, 105] * 8 \<le> 3 * non_edge_bits default_config
             * img_width (replicate 9 (replicate 9 [128, 128, 128]))
             * img_height (replicate 9 (replicate 9 [128, 128, 128]))"
    by code_simp
  show ?thesis using flat_config_text_roundtrip [OF valid_default_config t w _ c] by fastforce
qed

text \<open>
  C3.  With a valid configuration \<open>embed_message\<close> never raises (every slice handed
  to \<open>int(bits, 2)\<close> is non-empty) and returns an array of the carrier's shape,
  whatever the message and however long.
\<close>

theorem embed_message_total:
  assumes "valid_config cfg" "wf_pixels px"
  shows "\<exists>px'. embed_message cfg px msg = Inr px' \<and> wf_pixels px' \<and>
               img_width px' = img_width px \<and> img_height px' = img_height px"
proof -
  obtain st' where e: "embed_walk (message_to_bits msg) (walk cfg px (block_depth cfg px)) \<lparr>pix = px, bit_index = 0\<rparr> = Inr st'"
    and r: "embed_message cfg px msg = Inr (pix st')"
    using embed_message_succeeds [OF assms] by blast
  have "wf_pixels (pix st') \<and> img_width (pix st') = img_width px \<and> img_height (pix st') = img_height px"
    using embed_walk_shape [OF e] assms(2) by simp
  then show ?thesis using r by blast
qed

theorem embed_message_total_witness:
  "\<exists>px'. embed_message default_config [[[7, 7, 7]]] [72, 105] = Inr px' \<and> wf_pixels px' \<and>
         img_width px' = 1 \<and> img_height px' = 1"
proof -
  have w: "wf_pixels [[[7, 7, 7]]]" by (simp add: wf_pixels_def img_width_def)
  show ?thesis
    using embed_message_total [OF valid_default_config w, of "[72, 105]"]
    by (simp add: img_width_def img_height_def)
qed

text \<open>
  C4.  Refinement.  For a valid configuration, \<open>embed_message\<close> is the flat loop
  over the walk with every block classified on the \<^emph>\<open>original\<close> carrier (the
  classifier never sees a cell an earlier block has written), and
  \<open>extract_message\<close> is the flat loop over the walk classified on the array it
  is given, followed by the decoder.
\<close>

theorem engines_refine_walk:
  assumes "valid_config cfg" "wf_pixels px"
  shows "embed_message cfg px msg =
           (case embed_walk (message_to_bits msg) (walk cfg px (block_depth cfg px)) \<lparr>pix = px, bit_index = 0\<rparr> of
              Inl e \<Rightarrow> Inl e | Inr st \<Rightarrow> Inr (pix st)) \<and>
         extract_message cfg px n =
           (case extract_walk (n * 8) px (walk cfg px (block_depth cfg px)) ([], 0) of
              (message_bits, _) \<Rightarrow> bits_to_message message_bits (n * 8))"
proof
  show "embed_message cfg px msg =
          (case embed_walk (message_to_bits msg) (walk cfg px (block_depth cfg px)) \<lparr>pix = px, bit_index = 0\<rparr> of
             Inl e \<Rightarrow> Inl e | Inr st \<Rightarrow> Inr (pix st))"
    by (rule embed_message_walk [OF assms])
  have "0 < block_width cfg" "0 < block_height cfg" using assms(1) by (simp_all add: valid_config_def)
  then show "extract_message cfg px n =
           (case extract_walk (n * 8) px (walk cfg px (block_depth cfg px)) ([], 0) of
              (message_bits, _) \<Rightarrow> bits_to_message message_bits (n * 8))"
    by (rule extract_message_walk)
qed

theorem engines_refine_walk_witness:
  "embed_message default_config [[[1, 2, 3]]] [0] =
     (case embed_walk (message_to_bits [0]) (walk default_config [[[1, 2, 3]]] (block_depth default_config [[[1, 2, 3]]]))
             \<lparr>pix = [[[1, 2, 3]]], bit_index = 0\<rparr> of
        Inl e \<Rightarrow> Inl e | Inr st \<Rightarrow> Inr (pix st)) \<and>
   extract_message default_config [[[1, 2, 3]]] 1 =
     (case extract_walk (1 * 8) [[[1, 2, 3]]] (walk default_config [[[1, 2, 3]]] (block_depth default_config [[[1, 2, 3]]])) ([], 0) of
        (message_bits, _) \<Rightarrow> bits_to_message message_bits (1 * 8))"
proof -
  have w: "wf_pixels [[[1, 2, 3]]]" by (simp add: wf_pixels_def img_width_def)
  show ?thesis by (rule engines_refine_walk [OF valid_default_config w])
qed

section \<open>The image engine\<close>

text \<open>
  C5.  Image round trip.  When \<open>embed_image\<close> hides a \<open>w \<times> h\<close> RGB image without
  raising, the extractor classifies every block as the embedder did, and the
  image's bit string ends on a slice boundary, \<open>extract_image\<close> with size
  \<open>(w, h)\<close> returns the hidden image.
\<close>

theorem image_roundtrip:
  assumes "valid_config cfg" "wf_pixels px" "pixels_shape w h hidden"
    and "embed_image cfg px hidden = Inr px'"
    and "\<forall>x y. (x, y) \<in> set (block_origins cfg px) \<longrightarrow> block_depth cfg px' x y = block_depth cfg px x y"
    and "chunk_aligned 0 (w * h * 8 * 3) (map snd (walk cfg px (block_depth cfg px)))"
  shows "extract_image cfg px' (w, h) = Inr hidden"
proof -
  obtain st' where e: "embed_walk (image_to_bits hidden) (walk cfg px (block_depth cfg px)) \<lparr>pix = px, bit_index = 0\<rparr> = Inr st'"
    and p: "px' = pix st'"
    using embed_image_walk [OF assms(1,2,4)] by blast
  show ?thesis using extract_after_embed_image [OF assms(1-3) e] assms(5,6) p by simp
qed

theorem image_roundtrip_witness:
  "extract_image default_config
     [[[8, 8, 8], [8, 8, 8], [8, 9, 8]], [[8, 8, 8], [8, 8, 9], [8, 8, 8]], [[8, 8, 8], [8, 9, 9], [9, 9, 9]]]
     (1, 1) = Inr [[[1, 2, 3]]]"
proof -
  let ?P = "replicate 3 (replicate 3 [9, 9, 9]) :: pixels"
  let ?P' = "[[[8, 8, 8], [8, 8, 8], [8, 9, 8]], [[8, 8, 8], [8, 8, 9], [8, 8, 8]], [[8, 8, 8], [8, 9, 9], [9, 9, 9]]] :: pixels"
  have w: "wf_pixels ?P" by code_simp
  have sh: "pixels_shape 1 1 [[[1, 2, 3]]]" by (simp add: pixels_shape_def)
  have e: "embed_image default_config ?P [[[1, 2, 3]]] = Inr ?P'" by code_simp
  have s: "\<forall>x y. (x, y) \<in> set (block_origins default_config ?P) \<longrightarrow>
             block_depth default_config ?P' x y = block_depth default_config ?P x y"
    by (simp add: block_depth_def is_edge_block_def img_width_def img_height_def default_config_def)
  have a: "chunk_aligned 0 (1 * 1 * 8 * 3) (map snd (walk default_config ?P (block_depth default_config ?P)))"
    by code_simp
  show ?thesis by (rule image_roundtrip [OF valid_default_config w sh e s a])
qed

text \<open>
  C6.  With a threshold of at least 16 and a depth that divides \<open>8 w h\<close>, every
  \<open>w \<times> h\<close> image that fits the carrier is embedded without error by
  \<open>embed_image\<close> and extracted back by \<open>extract_image\<close>.
\<close>

theorem flat_config_image_roundtrip:
  assumes "valid_config cfg" "16 \<le> threshold cfg" "non_edge_bits cfg dvd 8 * w * h"
    and "wf_pixels px" "pixels_shape w h hidden"
    and "w * h * 8 * 3 \<le> 3 * non_edge_bits cfg * img_width px * img_height px"
  shows "\<exists>px'. embed_image cfg px hidden = Inr px' \<and> extract_image cfg px' (w, h) = Inr hidden"
  by (rule flat_image_roundtrip [OF assms])

theorem flat_config_image_roundtrip_witness:
  "\<exists>px'. embed_image default_config (replicate 3 (replicate 3 [9, 9, 9])) [[[1, 2, 3]]] = Inr px' \<and>
         extract_image default_config px' (1, 1) = Inr [[[1, 2, 3]]]"
proof -
  have t: "16 \<le> threshold default_config" "non_edge_bits default_config dvd 8 * 1 * 1"
    by (simp_all add: default_config_def)
  have w: "wf_pixels (replicate 3 (replicate 3 [9, 9, 9]))" by code_simp
  have sh: "pixels_shape 1 1 [[[1, 2, 3]]]" by (simp add: pixels_shape_def)
  have c: "1 * 1 * 8 * 3 \<le> 3 * non_edge_bits default_config
             * img_width (replicate 3 (replicate 3 [9, 9, 9]))
             * img_height (replicate 3 (replicate 3 [9, 9, 9]))"
    by code_simp
  show ?thesis by (rule flat_config_image_roundtrip [OF valid_default_config t w sh c])
qed

text \<open>
  C11.  \<open>embed_image\<close> checks the cursor once per pixel, not before each channel.
  With every block flat at depth \<open>d\<close> (threshold at least 16) and room for the
  payload of \<open>L\<close> bits, it raises \<open>ValueError\<close> (\<open>int('', 2)\<close> of an empty
  slice) exactly when \<open>L mod 3d\<close> is between 1 and \<open>2 d\<close>, so that the payload
  ends inside a pixel before its last channel; otherwise it returns an image.
\<close>

theorem image_embed_raises:
  assumes "valid_config cfg" "16 \<le> threshold cfg" "wf_pixels px"
    and "length (image_to_bits hidden) \<le> 3 * non_edge_bits cfg * img_width px * img_height px"
  shows "(0 < length (image_to_bits hidden) mod (3 * non_edge_bits cfg) \<and>
          length (image_to_bits hidden) mod (3 * non_edge_bits cfg) \<le> 2 * non_edge_bits cfg \<longrightarrow>
            embed_image cfg px hidden = Inl EmptyBinLiteral) \<and>
         (\<not> (0 < length (image_to_bits hidden) mod (3 * non_edge_bits cfg) \<and>
             length (image_to_bits hidden) mod (3 * non_edge_bits cfg) \<le> 2 * non_edge_bits cfg) \<longrightarrow>
            (\<exists>px'. embed_image cfg px hidden = Inr px'))"
  using embed_image_flat_raises [OF assms] embed_image_flat_ok [OF assms(1,2), of hidden px] by auto

theorem image_embed_raises_witness:
  "embed_image (default_config\<lparr>non_edge_bits := 5\<rparr>) [replicate 5 [0, 0, 0]] [[[1, 2, 3]]] = Inl EmptyBinLiteral \<and>
   (\<exists>px'. embed_image (default_config\<lparr>non_edge_bits := 5\<rparr>) [replicate 5 [0, 0, 0]]
            [[[1, 2, 3], [4, 5, 6], [7, 8, 9]]] = Inr px')"
proof -
  let ?c = "default_config\<lparr>non_edge_bits := 5\<rparr>" and ?P = "[replicate 5 [0, 0, 0]] :: pixels"
  have h: "valid_config ?c" "16 \<le> threshold ?c" "wf_pixels ?P"
    by (simp_all add: valid_config_def default_config_def) code_simp
  have a: "length (image_to_bits [[[1, 2, 3]]]) \<le> 3 * non_edge_bits ?c * img_width ?P * img_height ?P"
          "0 < length (image_to_bits [[[1, 2, 3]]]) mod (3 * non_edge_bits ?c) \<and>
           length (image_to_bits [[[1, 2, 3]]]) mod (3 * non_edge_bits ?c) \<le> 2 * non_edge_bits ?c"
    by code_simp+
  have b: "length (image_to_bits [[[1, 2, 3], [4, 5, 6], [7, 8, 9]]]) \<le> 3 * non_edge_bits ?c * img_width ?P * img_height ?P"
          "\<not> (0 < length (image_to_bits [[[1, 2, 3], [4, 5, 6], [7, 8, 9]]]) mod (3 * non_edge_bits ?c) \<and>
           length (image_to_bits [[[1, 2, 3], [4, 5, 6], [7, 8, 9]]]) mod (3 * non_edge_bits ?c) \<le> 2 * non_edge_bits ?c)"
    by code_simp+
  show ?thesis
    using image_embed_raises [OF h a(1)] a(2) image_embed_raises [OF h b(1)] b(2) by blast
qed

section \<open>What the default configuration changes\<close>

text \<open>
  C15.  Under the default configuration every block takes one bit per channel, so
  both embedders change each channel value in its least significant bit only:
  the value divided by two is unchanged, and no value moves by more than one.
  This is the imperceptibility the demo's histograms are meant to show.
\<close>

theorem default_embedding_moves_lsb_only:
  assumes "wf_pixels px"
  shows "(embed_message default_config px msg = Inr px' \<longrightarrow>
            unat (chan px' x y c) div 2 = unat (chan px x y c) div 2) \<and>
         (embed_image default_config px hidden = Inr px'' \<longrightarrow>
            unat (chan px'' x y c) div 2 = unat (chan px x y c) div 2)"
  by (rule default_embedding_lsb [OF assms])

theorem default_embedding_moves_lsb_only_witness:
  "\<forall>x y c.
     unat (chan [[[8, 9, 8], [8, 9, 8], [8, 8, 9]], [[9, 9, 9], [9, 9, 9], [9, 9, 9]], [[9, 9, 9], [9, 9, 9], [9, 9, 9]]] x y c) div 2
       = unat (chan (replicate 3 (replicate 3 [9, 9, 9])) x y c) div 2 \<and>
     unat (chan [[[8, 8, 8], [8, 8, 8], [8, 9, 8]], [[8, 8, 8], [8, 8, 9], [8, 8, 8]], [[8, 8, 8], [8, 9, 9], [9, 9, 9]]] x y c) div 2
       = unat (chan (replicate 3 (replicate 3 [9, 9, 9])) x y c) div 2"
proof (intro allI)
  fix x y c
  let ?P = "replicate 3 (replicate 3 [9, 9, 9]) :: pixels"
  let ?T = "[[[8, 9, 8], [8, 9, 8], [8, 8, 9]], [[9, 9, 9], [9, 9, 9], [9, 9, 9]], [[9, 9, 9], [9, 9, 9], [9, 9, 9]]] :: pixels"
  let ?I = "[[[8, 8, 8], [8, 8, 8], [8, 9, 8]], [[8, 8, 8], [8, 8, 9], [8, 8, 8]], [[8, 8, 8], [8, 9, 9], [9, 9, 9]]] :: pixels"
  have w: "wf_pixels ?P" by code_simp
  have e: "embed_message default_config ?P [72] = Inr ?T" by code_simp
  have i: "embed_image default_config ?P [[[1, 2, 3]]] = Inr ?I" by code_simp
  show "unat (chan ?T x y c) div 2 = unat (chan ?P x y c) div 2 \<and> unat (chan ?I x y c) div 2 = unat (chan ?P x y c) div 2"
    using default_embedding_moves_lsb_only [OF w, of "[72]" ?T x y c "[[[1, 2, 3]]]" ?I] e i by simp
qed

text \<open>
  C16.  With the default configuration an embedding moves the grey level
  (PIL's \<open>convert("L")\<close>, the value \<open>plot_histograms\<close> bins) of every pixel
  by at most one, for text and for image payloads alike.
\<close>

theorem default_embedding_grey_shift:
  assumes "wf_pixels px"
  shows "(embed_message default_config px msg = Inr px' \<longrightarrow>
            list_all2 (\<lambda>a b. b \<le> a + 1 \<and> a \<le> b + 1) (grey_flat px) (grey_flat px')) \<and>
         (embed_image default_config px hidden = Inr px'' \<longrightarrow>
            list_all2 (\<lambda>a b. b \<le> a + 1 \<and> a \<le> b + 1) (grey_flat px) (grey_flat px''))"
  using default_embed_grey_close [OF assms] by blast

theorem default_embedding_grey_shift_witness:
  "list_all2 (\<lambda>a b. b \<le> a + 1 \<and> a \<le> b + 1) (grey_flat (replicate 3 (replicate 3 [9, 9, 9])))
     (grey_flat [[[8, 9, 8], [8, 9, 8], [8, 8, 9]], [[9, 9, 9], [9, 9, 9], [9, 9, 9]], [[9, 9, 9], [9, 9, 9], [9, 9, 9]]]) \<and>
   list_all2 (\<lambda>a b. b \<le> a + 1 \<and> a \<le> b + 1) (grey_flat (replicate 3 (replicate 3 [9, 9, 9])))
     (grey_flat [[[8, 8, 8], [8, 8, 8], [8, 9, 8]], [[8, 8, 8], [8, 8, 9], [8, 8, 8]], [[8, 8, 8], [8, 9, 9], [9, 9, 9]]])"
proof -
  let ?P = "replicate 3 (replicate 3 [9, 9, 9]) :: pixels"
  have w: "wf_pixels ?P" by code_simp
  have e: "embed_message default_config ?P [72] =
             Inr [[[8, 9, 8], [8, 9, 8], [8, 8, 9]], [[9, 9, 9], [9, 9, 9], [9, 9, 9]], [[9, 9, 9], [9, 9, 9], [9, 9, 9]]]"
    by code_simp
  have i: "embed_image default_config ?P [[[1, 2, 3]]] =
             Inr [[[8, 8, 8], [8, 8, 8], [8, 9, 8]], [[8, 8, 8], [8, 8, 9], [8, 8, 8]], [[8, 8, 8], [8, 9, 9], [9, 9, 9]]]"
    by code_simp
  show ?thesis using default_embedding_grey_shift [OF w, of "[72]" _ "[[[1, 2, 3]]]"] e i by blast
qed

section \<open>The demo scripts\<close>

text \<open>
  C17.  The text demo \<open>main\<close> embeds its 250-character message in
  \<open>/content/new-small.png\<close>, saves \<open>encrypted_image.png\<close>, extracts 250
  characters from the saved file and prints the message back, whenever the
  carrier has room for 2000 bits at one bit per channel.
\<close>

theorem text_main_prints_message:
  assumes "files ''/content/new-small.png'' = Some px" "wf_pixels px"
    and "length demo_message * 8 \<le> 3 * img_width px * img_height px"
  shows "\<exists>px'. text_main files =
           ([''Embedding message...'', ''Message embedded and saved as '' @ [CHR 0x27] @ ''encrypted_image.png'' @ [CHR 0x27],
             ''Extracting message...'', ''Extracted message: '' @ demo_message, [CHR 0x0A]],
            files(''encrypted_image.png'' \<mapsto> px'), None, Some (hist (grey_flat px), hist (grey_flat px')))"
  using assms by (rule text_main_runs)

theorem text_main_prints_message_witness:
  "\<exists>px'. text_main (Map.empty(''/content/new-small.png'' \<mapsto> replicate 26 (replicate 26 [0, 0, 0]))) =
           ([''Embedding message...'', ''Message embedded and saved as '' @ [CHR 0x27] @ ''encrypted_image.png'' @ [CHR 0x27],
             ''Extracting message...'', ''Extracted message: '' @ demo_message, [CHR 0x0A]],
            Map.empty(''/content/new-small.png'' \<mapsto> replicate 26 (replicate 26 [0, 0, 0]), ''encrypted_image.png'' \<mapsto> px'), None,
            Some (hist (grey_flat (replicate 26 (replicate 26 [0, 0, 0]))), hist (grey_flat px')))"
proof -
  let ?P = "replicate 26 (replicate 26 [0, 0, 0]) :: pixels"
  have w: "wf_pixels ?P" by code_simp
  have c: "length demo_message * 8 \<le> 3 * img_width ?P * img_height ?P"
    by code_simp
  show ?thesis using text_main_prints_message [OF _ w c, of "Map.empty(''/content/new-small.png'' \<mapsto> ?P)"] by simp
qed

text \<open>
  C18.  The image demo \<open>main\<close> embeds \<open>/content/new-small.png\<close> in
  \<open>/content/new-large.png\<close> and saves \<open>extracted_image.png\<close> equal to the hidden
  image, using the hidden file's own size for the extraction, whenever the cover
  has room for its bits at one bit per channel.
\<close>

theorem image_main_extracts_hidden:
  assumes "files ''/content/new-large.png'' = Some px" "files ''/content/new-small.png'' = Some hidden"
    and "wf_pixels px" "wf_pixels hidden"
    and "img_width hidden * img_height hidden * 8 * 3 \<le> 3 * img_width px * img_height px"
  shows "\<exists>px'. image_main files =
           ([''Embedding hidden image...'', ''Hidden image embedded and saved as '' @ [CHR 0x27] @ ''encrypted_image.png'' @ [CHR 0x27],
             ''Extracting hidden image...'', ''Hidden image extracted and saved as '' @ [CHR 0x27] @ ''extracted_image.png'' @ [CHR 0x27]],
            files(''encrypted_image.png'' \<mapsto> px', ''extracted_image.png'' \<mapsto> hidden), None,
            Some (hist (grey_flat px), hist (grey_flat px')))"
  using assms by (rule image_main_runs)

theorem image_main_extracts_hidden_witness:
  "\<exists>px'. image_main (Map.empty(''/content/new-large.png'' \<mapsto> replicate 3 (replicate 3 [9, 9, 9]),
                                 ''/content/new-small.png'' \<mapsto> [[[1, 2, 3]]])) =
           ([''Embedding hidden image...'', ''Hidden image embedded and saved as '' @ [CHR 0x27] @ ''encrypted_image.png'' @ [CHR 0x27],
             ''Extracting hidden image...'', ''Hidden image extracted and saved as '' @ [CHR 0x27] @ ''extracted_image.png'' @ [CHR 0x27]],
            Map.empty(''/content/new-large.png'' \<mapsto> replicate 3 (replicate 3 [9, 9, 9]),
                      ''/content/new-small.png'' \<mapsto> [[[1, 2, 3]]], ''encrypted_image.png'' \<mapsto> px',
                      ''extracted_image.png'' \<mapsto> [[[1, 2, 3]]]), None,
            Some (hist (grey_flat (replicate 3 (replicate 3 [9, 9, 9]))), hist (grey_flat px')))"
proof -
  let ?P = "replicate 3 (replicate 3 [9, 9, 9]) :: pixels" and ?H = "[[[1, 2, 3]]] :: pixels"
  have h: "wf_pixels ?P" "wf_pixels ?H" "img_width ?H * img_height ?H * 8 * 3 \<le> 3 * img_width ?P * img_height ?P"
    by code_simp+
  show ?thesis
    using image_main_extracts_hidden [OF _ _ h, of "Map.empty(''/content/new-large.png'' \<mapsto> ?P, ''/content/new-small.png'' \<mapsto> ?H)"]
    by simp
qed

section \<open>Classifier\<close>

text \<open>
  C12.  With the default configuration (threshold 128) no block is ever an edge
  block: the squared gradient is a \<open>uint8\<close> and wraps below 256, so its square
  root never exceeds 16.  The edge depth \<open>edge_bits = 4\<close> is never used.
\<close>

theorem default_config_no_edge_block: "\<not> is_edge_block default_config px x y"
  by (rule is_edge_block_high_threshold) (simp add: default_config_def)

section \<open>The text GUI\<close>

text \<open>
  C7.  End to end through the text GUI: select a carrier, type a message, click
  ENCODE, let the worker run, select the saved \<open>assets/encrypted_image.png\<close>, type
  the stripped message's length in decimal, click DECODE and let that worker run:
  the decode status shows the stripped message, provided it fits the carrier at
  one bit per channel (every block is flat under the default configuration).
\<close>

theorem text_gui_roundtrip:
  assumes "files p = Some px" "p \<noteq> []" "wf_pixels px" "py_strip m \<noteq> []"
    and "length (py_strip m) * 8 \<le> 3 * img_width px * img_height px"
  shows "decode_status_label (text_gui_run (text_gui_init files)
           [SelectEncodeFile p, TypeMessage m, ClickEncode, RunTextWorker 0,
            SelectDecodeFile encrypted_save_path, TypeLength (dec_string (length (py_strip m))),
            ClickDecode, RunTextWorker 0])
         = DecodedMessage (map of_char (py_strip m))"
proof -
  let ?msg = "map of_char (py_strip m) :: nat list"
  have c: "valid_config default_config" "16 \<le> threshold default_config" "non_edge_bits default_config dvd 8"
    by (rule valid_default_config) (simp_all add: default_config_def)
  have small: "\<forall>c \<in> set ?msg. c < 256" by auto
  have cap: "length ?msg * 8 \<le> 3 * non_edge_bits default_config * img_width px * img_height px"
    using assms(5) by (simp add: default_config_def)
  obtain px' where e: "embed_message default_config px ?msg = Inr px'"
    and x: "extract_message default_config px' (length ?msg) = Inr ?msg"
    using flat_text_roundtrip [OF c assms(3) small cap] by auto
  have enc: "encrypted_save_path \<noteq> []" by (simp add: encrypted_save_path_def)
  show ?thesis
    using assms(1,2,4) e x enc py_int_dec_string [of "length (py_strip m)"]
    by (simp add: text_gui_run_def text_gui_init_def select_encode_file_def select_decode_file_def
                  start_encoding_def start_decoding_def run_text_job_def encode_message_job_def
                  decode_message_job_def load_image_def)
qed

theorem text_gui_roundtrip_witness:
  "decode_status_label (text_gui_run (text_gui_init (Map.empty(''c.png'' \<mapsto> replicate 3 (replicate 3 [9, 9, 9]))))
     [SelectEncodeFile ''c.png'', TypeMessage '' Hi '', ClickEncode, RunTextWorker 0,
      SelectDecodeFile encrypted_save_path, TypeLength ''2'', ClickDecode, RunTextWorker 0])
   = DecodedMessage [72, 105]"
proof -
  let ?P = "replicate 3 (replicate 3 [9, 9, 9]) :: pixels"
  have h: "wf_pixels ?P" "py_strip '' Hi '' \<noteq> []"
    "length (py_strip '' Hi '') * 8 \<le> 3 * img_width ?P * img_height ?P" by code_simp+
  have v: "dec_string (length (py_strip '' Hi '')) = ''2''" "map of_char (py_strip '' Hi '') = [72, 105 :: nat]"
    by code_simp+
  show ?thesis
    using text_gui_roundtrip [of "Map.empty(''c.png'' \<mapsto> ?P)" "''c.png''" ?P "'' Hi ''"] h unfolding v by simp
qed

text \<open>
  C9.  Every reachable state of the text GUI keeps its invariant: the engine keeps
  the default configuration, stored paths are non-empty, a label naming a file
  names the stored path, and every pending encoding has a non-empty stripped
  message and a non-empty path.
\<close>

theorem text_gui_invariant: "text_gui_reachable files s \<Longrightarrow> text_gui_inv s"
  by (induction rule: text_gui_reachable.induct) (simp_all add: text_gui_inv_init text_gui_inv_step)

theorem text_gui_invariant_witness:
  "text_gui_inv (text_gui_run (text_gui_init Map.empty) [SelectEncodeFile ''a.png'', TypeMessage ''Hi'', ClickEncode])"
  by (rule text_gui_invariant [OF text_gui_reachable_run [OF text_gui_reachable.start]])

text \<open>
  C13.  Every accepted click is answered: once the pending workers have run, the
  status label of every job that was pending has left its "in progress" text.
\<close>

theorem text_jobs_answered:
  "j \<in> set (text_jobs s) \<Longrightarrow> job_answered j (text_gui_run s (replicate (length (text_jobs s)) (RunTextWorker 0)))"
  by (simp add: text_gui_run_workers fold_run_text_job_answers)

theorem text_jobs_answered_witness:
  "job_answered (DecodeMessageJob ''a.png'' 2)
     (text_gui_run ((text_gui_init Map.empty)\<lparr>text_jobs := [DecodeMessageJob ''a.png'' 2]\<rparr>) [RunTextWorker 0])"
  using text_jobs_answered [of "DecodeMessageJob ''a.png'' 2" "(text_gui_init Map.empty)\<lparr>text_jobs := [DecodeMessageJob ''a.png'' 2]\<rparr>"]
  by simp

text \<open>
  C20.  Cancelling the file dialog resets the label to "No file selected" but keeps
  the previously stored path, so a following ENCODE click encodes into that file
  although the label says no file is selected.
\<close>

theorem cancelled_selection_keeps_path:
  assumes "p \<noteq> []" "py_strip m \<noteq> []"
  shows "encode_file_label (text_gui_run s [SelectEncodeFile p, SelectEncodeFile [], TypeMessage m, ClickEncode]) = NoFileSelected \<and>
         text_jobs (text_gui_run s [SelectEncodeFile p, SelectEncodeFile [], TypeMessage m, ClickEncode]) =
           text_jobs s @ [EncodeMessageJob p (py_strip m)] \<and>
         encode_status_label (text_gui_run s [SelectEncodeFile p, SelectEncodeFile [], TypeMessage m, ClickEncode]) = EncodingInProgress"
  using assms by (simp add: text_gui_run_def select_encode_file_def start_encoding_def)

theorem cancelled_selection_keeps_path_witness:
  "encode_file_label (text_gui_run (text_gui_init Map.empty) [SelectEncodeFile ''a.png'', SelectEncodeFile [], TypeMessage ''Hi'', ClickEncode]) = NoFileSelected \<and>
   text_jobs (text_gui_run (text_gui_init Map.empty) [SelectEncodeFile ''a.png'', SelectEncodeFile [], TypeMessage ''Hi'', ClickEncode]) =
     [EncodeMessageJob ''a.png'' ''Hi'']"
proof -
  have h: "py_strip ''Hi'' = ''Hi''" by code_simp
  show ?thesis using cancelled_selection_keeps_path [of "''a.png''" "''Hi''" "text_gui_init Map.empty"] h
    by (simp add: text_gui_init_def)
qed

text \<open>
  C21.  A length made of the superscript two passes \<open>isdigit()\<close> but makes
  \<open>int()\<close> raise outside any \<open>try\<close>: the exception escapes the Tk callback after
  the status label was set to "Decoding in progress...", no worker is started
  and no dialog is shown, so the label stays "in progress".
\<close>

theorem superscript_length_uncaught:
  assumes "decode_file_path s = Some p"
  shows "py_isdigit [CHR 0xB2] \<and>
         decode_status_label (text_gui_run s [TypeLength [CHR 0xB2], ClickDecode]) = DecodingInProgress \<and>
         text_jobs (text_gui_run s [TypeLength [CHR 0xB2], ClickDecode]) = text_jobs s \<and>
         error_dialogs (text_gui_run s [TypeLength [CHR 0xB2], ClickDecode]) = error_dialogs s \<and>
         uncaught (text_gui_run s [TypeLength [CHR 0xB2], ClickDecode]) = uncaught s @ [IntLiteral [CHR 0xB2]]"
proof -
  have d: "py_isdigit [CHR 0xB2]" "py_strip [CHR 0xB2] = [CHR 0xB2]" "py_int [CHR 0xB2] = Inl (IntLiteral [CHR 0xB2])"
    by code_simp+
  show ?thesis using assms d by (simp add: text_gui_run_def start_decoding_def Let_def)
qed

theorem superscript_length_uncaught_witness:
  "decode_status_label (text_gui_run ((text_gui_init Map.empty)\<lparr>decode_file_path := Some ''s.png''\<rparr>) [TypeLength [CHR 0xB2], ClickDecode]) = DecodingInProgress \<and>
   text_jobs (text_gui_run ((text_gui_init Map.empty)\<lparr>decode_file_path := Some ''s.png''\<rparr>) [TypeLength [CHR 0xB2], ClickDecode]) = []"
  using superscript_length_uncaught [of "(text_gui_init Map.empty)\<lparr>decode_file_path := Some ''s.png''\<rparr>" "''s.png''"]
  by (simp add: text_gui_init_def)

section \<open>The image GUI\<close>

text \<open>
  C8.  End to end through the image GUI: select a cover and a hidden image, click
  ENCODE, run the worker, select the saved image, type \<open>"<w>x<h>"\<close>, click DECODE
  and run the worker: \<open>assets/extracted_image.png\<close> holds the hidden image and the
  status names it, provided the hidden image fits the cover at one bit per
  channel.
\<close>

theorem image_gui_roundtrip:
  assumes "files p = Some px" "files q = Some hidden" "p \<noteq> []" "q \<noteq> []"
    and "wf_pixels px" "pixels_shape w h hidden" "0 < w" "0 < h"
    and "w * h * 8 * 3 \<le> 3 * img_width px * img_height px"
  shows "\<exists>t. image_gui_run (image_gui_init files)
              [SelectCoverImage p, SelectHiddenImage q, ClickEncodeImage, RunImageWorker 0,
               SelectEncryptedImage encrypted_save_path, TypeSize (dec_string w @ CHR ''x'' # dec_string h),
               ClickDecodeImage, RunImageWorker 0] = Some t \<and>
             image_files t extracted_save_path = Some hidden \<and> img_decode_status_label t = DecodingSaved extracted_save_path"
proof -
  have c: "valid_config default_config" "16 \<le> threshold default_config" "non_edge_bits default_config dvd 8 * w * h"
    by (rule valid_default_config) (simp_all add: default_config_def)
  have cap: "w * h * 8 * 3 \<le> 3 * non_edge_bits default_config * img_width px * img_height px"
    using assms(9) by (simp add: default_config_def)
  obtain px' where e: "embed_image default_config px hidden = Inr px'"
    and x: "extract_image default_config px' (w, h) = Inr hidden"
    using flat_image_roundtrip [OF c assms(5,6) cap] by auto
  have enc: "encrypted_save_path \<noteq> []" by (simp add: encrypted_save_path_def)
  show ?thesis
    using assms(1-4,7,8) e x enc parse_size_dec_string [of w h]
    by (simp add: image_gui_init_def select_cover_image_def select_hidden_image_def select_encrypted_image_def
                  start_encoding_img_def start_decoding_img_def run_image_job_def encode_image_job_def
                  decode_image_job_def load_image_def)
qed

theorem image_gui_roundtrip_witness:
  "\<exists>t. image_gui_run (image_gui_init (Map.empty(''c.png'' \<mapsto> replicate 3 (replicate 3 [9, 9, 9]), ''h.png'' \<mapsto> [[[1, 2, 3]]])))
         [SelectCoverImage ''c.png'', SelectHiddenImage ''h.png'', ClickEncodeImage, RunImageWorker 0,
          SelectEncryptedImage encrypted_save_path, TypeSize ''1x1'', ClickDecodeImage, RunImageWorker 0] = Some t \<and>
       image_files t extracted_save_path = Some [[[1, 2, 3]]] \<and> img_decode_status_label t = DecodingSaved extracted_save_path"
proof -
  let ?P = "replicate 3 (replicate 3 [9, 9, 9]) :: pixels"
  let ?F = "Map.empty(''c.png'' \<mapsto> ?P, ''h.png'' \<mapsto> [[[1, 2, 3]]])"
  have h: "wf_pixels ?P" "pixels_shape 1 1 [[[1, 2, 3]]]" "1 * 1 * 8 * 3 \<le> 3 * img_width ?P * img_height ?P"
    by code_simp+
  have f: "?F ''c.png'' = Some ?P" "?F ''h.png'' = Some [[[1, 2, 3]]]" by simp_all
  have v: "dec_string 1 @ CHR ''x'' # dec_string 1 = ''1x1''" by code_simp
  have p: "''c.png'' \<noteq> []" "''h.png'' \<noteq> []" "(0::nat) < 1" by simp_all
  from image_gui_roundtrip [OF f p(1,2) h(1,2) p(3,3) h(3)] show ?thesis unfolding v .
qed

text \<open>
  C10.  Every reachable state of the image GUI keeps its invariant; in particular
  every pending worker finds the path attributes it reads set and non-empty, and
  no status label ever shows an \<open>AttributeError\<close> (the engines raise only
  \<open>ValueError\<close>s, C12).
\<close>

theorem image_gui_invariant: "image_gui_reachable files s \<Longrightarrow> image_gui_inv s"
  by (induction rule: image_gui_reachable.induct) (auto intro: image_gui_inv_init image_gui_inv_step)

theorem image_gui_invariant_witness:
  "\<exists>t. image_gui_run (image_gui_init Map.empty) [SelectCoverImage ''c.png'', SelectHiddenImage ''h.png'', ClickEncodeImage] = Some t
       \<and> image_gui_inv t"
proof -
  obtain t where r: "image_gui_run (image_gui_init Map.empty) [SelectCoverImage ''c.png'', SelectHiddenImage ''h.png'', ClickEncodeImage] = Some t"
    by simp
  show ?thesis using r image_gui_invariant [OF image_gui_reachable_run [OF image_gui_reachable.start r]] by blast
qed

text \<open>
  C14.  Every accepted click of the image GUI is answered: when each pending
  decoding job has a positive size, running the first pending worker once per
  job succeeds, leaves no job pending, and every job that was pending has moved
  its status label off its "in progress" text.
\<close>

theorem image_jobs_answered:
  assumes "\<forall>j \<in> set (image_jobs s). img_job_in_model j" "j \<in> set (image_jobs s)"
  shows "\<exists>t. image_gui_run s (replicate (length (image_jobs s)) (RunImageWorker 0)) = Some t \<and>
             image_jobs t = [] \<and> img_job_answered j t"
  using image_gui_run_workers [OF assms(1)] assms(2) by blast

theorem image_jobs_answered_witness:
  "\<exists>t. image_gui_run ((image_gui_init Map.empty)\<lparr>image_jobs := [EncodeImageJob, DecodeImageJob (2, 3)]\<rparr>)
          [RunImageWorker 0, RunImageWorker 0] = Some t \<and>
        image_jobs t = [] \<and> img_job_answered (DecodeImageJob (2, 3)) t"
  using image_jobs_answered [of "(image_gui_init Map.empty)\<lparr>image_jobs := [EncodeImageJob, DecodeImageJob (2, 3)]\<rparr>"
                                "DecodeImageJob (2, 3)"]
  by (simp add: numeral_2_eq_2)

text \<open>
  C19.  The encoding worker reads the cover and hidden paths when it runs, not when
  ENCODE was clicked: a cover selected between the click and the worker's run is
  the one that is encoded.
\<close>

theorem encode_image_reads_current_paths:
  assumes "image_jobs s = []" "cover_image_path s \<noteq> None" "hidden_image_path s = Some q" "c \<noteq> []"
  shows "\<exists>t. image_gui_run s [ClickEncodeImage, SelectCoverImage c, RunImageWorker 0] = Some t \<and>
             (image_files t, img_encode_status_label t) = encode_image_job (img_stego s) (image_files s) (Some c) (Some q)"
  using assms
  by (auto simp: start_encoding_img_def select_cover_image_def run_image_job_def case_prod_unfold)

theorem encode_image_reads_current_paths_witness:
  "\<exists>t. image_gui_run ((image_gui_init Map.empty)\<lparr>cover_image_path := Some ''a.png'', hidden_image_path := Some ''h.png''\<rparr>)
         [ClickEncodeImage, SelectCoverImage ''c.png'', RunImageWorker 0] = Some t \<and>
       (image_files t, img_encode_status_label t) = encode_image_job default_config Map.empty (Some ''c.png'') (Some ''h.png'')"
  using encode_image_reads_current_paths [of "(image_gui_init Map.empty)\<lparr>cover_image_path := Some ''a.png'', hidden_image_path := Some ''h.png''\<rparr>" "''h.png''" "''c.png''"]
  by (simp add: image_gui_init_def)

text \<open>
  C22.  The size validation accepts a negative width: \<open>"-2x3"\<close> starts a decoding
  worker for size \<open>(-2, 3)\<close>.
\<close>

theorem negative_size_accepted:
  assumes "encrypted_image_path s = Some p"
  shows "image_gui_run s [TypeSize (CHR ''-'' # dec_string w @ CHR ''x'' # dec_string h), ClickDecodeImage] =
         Some (s\<lparr>decode_size_entry := CHR ''-'' # dec_string w @ CHR ''x'' # dec_string h,
                 img_decode_status_label := DecodingInProgress,
                 image_jobs := image_jobs s @ [DecodeImageJob (- int w, int h)]\<rparr>)"
  using assms parse_size_neg_width [of w h] by (simp add: start_decoding_img_def)

theorem negative_size_accepted_witness:
  "image_gui_run ((image_gui_init Map.empty)\<lparr>encrypted_image_path := Some ''e.png''\<rparr>) [TypeSize ''-2x3'', ClickDecodeImage] =
   Some ((image_gui_init Map.empty)\<lparr>encrypted_image_path := Some ''e.png'', decode_size_entry := ''-2x3'',
           img_decode_status_label := DecodingInProgress, image_jobs := [DecodeImageJob (-2, 3)]\<rparr>)"
proof -
  have d: "CHR ''-'' # dec_string 2 @ CHR ''x'' # dec_string 3 = ''-2x3''" by code_simp
  show ?thesis using negative_size_accepted [of "(image_gui_init Map.empty)\<lparr>encrypted_image_path := Some ''e.png''\<rparr>" "''e.png''" 2 3]
    unfolding d by (simp add: image_gui_init_def)
qed

section \<open>Pixel operations\<close>

text \<open>
  C25.  Writing a non-empty slice of at most eight bits into a channel with
  \<open>embed_bits\<close> succeeds; reading that channel back with \<open>extract_bits\<close> at the
  slice's width returns the slice, and every other channel of the array keeps its
  value.
\<close>

theorem embed_bits_read_back:
  assumes "wf_pixels px" "x < img_width px" "y < img_height px" "c < 3"
    and "bits \<noteq> []" "length bits \<le> 8"
  shows "\<exists>px'. embed_bits px x y bits c = Inr px' \<and>
                extract_bits px' x y (length bits) c = bits \<and>
                (\<forall>x' y' c'. (x', y', c') \<noteq> (x, y, c) \<longrightarrow> chan px' x' y' c' = chan px x' y' c')"
proof -
  obtain px' where e: "embed_bits px x y bits c = Inr px'"
    using assms(5) embed_bits_Cons by blast
  have "extract_bits px' x y (length bits) c = bits"
    using assms e by (rule extract_embed_bits_same)
  moreover have "\<forall>x' y' c'. (x', y', c') \<noteq> (x, y, c) \<longrightarrow> chan px' x' y' c' = chan px x' y' c'"
    using e embed_bits_other by blast
  ultimately show ?thesis using e by blast
qed

theorem embed_bits_read_back_witness:
  "\<exists>px'. embed_bits [[[200, 10, 10]]] 0 0 [True, False, True] 0 = Inr px' \<and>
          extract_bits px' 0 0 3 0 = [True, False, True]"
proof -
  have h: "wf_pixels [[[200, 10, 10]]]" "0 < img_width [[[200, 10, 10]]]" "0 < img_height [[[200, 10, 10]]]"
    by (simp_all add: wf_pixels_def img_width_def img_height_def)
  have "\<exists>px'. embed_bits [[[200, 10, 10]]] 0 0 [True, False, True] 0 = Inr px' \<and>
          extract_bits px' 0 0 (length [True, False, True]) 0 = [True, False, True] \<and>
          (\<forall>x' y' c'. (x', y', c') \<noteq> (0, 0, 0) \<longrightarrow> chan px' x' y' c' = chan [[[200, 10, 10]]] x' y' c')"
    by (rule embed_bits_read_back [OF h]) simp_all
  then show ?thesis by (simp add: numeral_3_eq_3) blast
qed

section \<open>Payload codec\<close>

text \<open>
  C26.  Encoding a message whose code points all fit in a byte with
  \<open>''.join(f'{ord(c):08b}' ...)\<close> and decoding \<open>8 * len(message)\<close> bits with
  \<open>chr(int(bits[i:i+8], 2))\<close> gives the message back.
\<close>

theorem message_codec_roundtrip:
  "\<forall>c \<in> set msg. c < 256 \<Longrightarrow> bits_to_message (message_to_bits msg) (length msg * 8) = Inr msg"
  using bits_to_message_to_bits [of msg "[]"] by simp

theorem message_codec_roundtrip_witness:
  "bits_to_message (message_to_bits [65, 66]) 16 = Inr [65, 66]"
  using message_codec_roundtrip [of "[65, 66]"] by simp

section \<open>Image payloads\<close>

text \<open>
  C27.  Encoding a secondary image with \<open>''.join(f'{pixel:08b}' ...)\<close> and decoding
  with the image's width and height gives the image back.
\<close>

theorem image_codec_roundtrip:
  "pixels_shape w h hidden \<Longrightarrow> bits_to_image (image_to_bits hidden) (w, h) = Inr hidden"
  using bits_to_image_to_bits [of w h hidden "[]"] by simp

theorem image_codec_roundtrip_witness:
  "bits_to_image (image_to_bits [[[1, 2, 3], [250, 0, 17]]]) (2, 1) = Inr [[[1, 2, 3], [250, 0, 17]]]"
  using image_codec_roundtrip [of 2 1 "[[[1, 2, 3], [250, 0, 17]]]"] by (simp add: pixels_shape_def)

section \<open>The traversal\<close>

text \<open>
  C28.  For positive block dimensions the walk both engines follow visits every
  channel of every pixel of the array exactly once.
\<close>

theorem walk_exact_cover:
  assumes "0 < block_width cfg" "0 < block_height cfg"
  shows "distinct (map fst (walk cfg px d)) \<and>
         set (map fst (walk cfg px d)) = {(i, j, c). i < img_width px \<and> j < img_height px \<and> c < 3}"
  using distinct_walk [OF assms] set_map_fst_walk [OF assms] by blast

theorem walk_exact_cover_witness:
  "distinct (map fst (walk default_config [[[0, 0, 0], [0, 0, 0]]] (\<lambda>_ _. 1))) \<and>
   set (map fst (walk default_config [[[0, 0, 0], [0, 0, 0]]] (\<lambda>_ _. 1))) = {(i, j, c). i < 2 \<and> j < 1 \<and> c < 3}"
  using walk_exact_cover [of default_config "[[[0, 0, 0], [0, 0, 0]]]" "\<lambda>_ _. 1"]
  by (simp add: default_config_def img_width_def img_height_def numeral_2_eq_2)

text \<open>
  C29.  Capacity accounting: the number of bits the walk offers (the sum of the
  depths of all visited channels) lies between \<open>3 \<times> non_edge_bits \<times> W \<times> H\<close> and
  \<open>3 \<times> edge_bits \<times> W \<times> H\<close>.
\<close>

theorem capacity_bounds:
  assumes "valid_config cfg" "non_edge_bits cfg \<le> edge_bits cfg"
  shows "3 * non_edge_bits cfg * img_width px * img_height px \<le> sum_list (map snd (walk cfg px (block_depth cfg px))) \<and>
         sum_list (map snd (walk cfg px (block_depth cfg px))) \<le> 3 * edge_bits cfg * img_width px * img_height px"
proof -
  let ?ds = "map snd (walk cfg px (block_depth cfg px))"
  have b: "0 < block_width cfg" "0 < block_height cfg" using assms(1) by (simp_all add: valid_config_def)
  have "non_edge_bits cfg \<le> d \<and> d \<le> edge_bits cfg" if "d \<in> set ?ds" for d
  proof -
    from that obtain s where "(s, d) \<in> set (walk cfg px (block_depth cfg px))" by auto
    from walk_depths [OF this] obtain x y where "d = block_depth cfg px x y" by auto
    then show ?thesis using block_depth_cases [of cfg px x y] assms(2) by auto
  qed
  then have "\<forall>d \<in> set ?ds. non_edge_bits cfg \<le> d \<and> d \<le> edge_bits cfg" by blast
  then have "length ?ds * non_edge_bits cfg \<le> sum_list ?ds \<and> sum_list ?ds \<le> length ?ds * edge_bits cfg"
    by (rule sum_list_bounds)
  moreover have "length ?ds = 3 * img_width px * img_height px" using length_walk [OF b] by simp
  ultimately show ?thesis by (simp add: ac_simps)
qed

theorem capacity_bounds_witness:
  "3 * 1 * 2 * 1 \<le> sum_list (map snd (walk default_config [[[0, 0, 0], [0, 0, 0]]]
                                   (block_depth default_config [[[0, 0, 0], [0, 0, 0]]]))) \<and>
   sum_list (map snd (walk default_config [[[0, 0, 0], [0, 0, 0]]]
                       (block_depth default_config [[[0, 0, 0], [0, 0, 0]]]))) \<le> 3 * 4 * 2 * 1"
  using capacity_bounds [OF valid_default_config, of "[[[0, 0, 0], [0, 0, 0]]]"]
  by (simp add: default_config_def img_width_def img_height_def)

section \<open>Errors\<close>

text \<open>
  C30.  A zero block height, or a zero block width on a non-empty carrier, makes
  \<open>range(0, n, 0)\<close> raise \<open>ValueError\<close> in both engines.
\<close>

theorem zero_block_dimension_error:
  assumes "block_height cfg = 0 \<or> (block_width cfg = 0 \<and> 0 < img_height px)"
  shows "embed_message cfg px msg = Inl RangeZeroStep \<and> extract_message cfg px n = Inl RangeZeroStep"
proof (cases "block_height cfg = 0")
  case True
  then show ?thesis by (simp add: embed_message_def extract_message_def Let_def py_range_def)
next
  case False
  then have "range_list 0 (img_height px) (block_height cfg) = 0 # range_list (block_height cfg) (img_height px) (block_height cfg)"
    using assms by (simp add: range_list_Cons)
  then show ?thesis using assms False
    by (simp add: embed_message_def extract_message_def Let_def py_range_def)
qed

theorem zero_block_dimension_error_witness:
  "embed_message (default_config\<lparr>block_width := 0\<rparr>) [[[0, 0, 0]]] [65] = Inl RangeZeroStep \<and>
   extract_message (default_config\<lparr>block_width := 0\<rparr>) [[[0, 0, 0]]] 1 = Inl RangeZeroStep"
  using zero_block_dimension_error [of "default_config\<lparr>block_width := 0\<rparr>" "[[[0, 0, 0]]]" "[65]" 1]
  by (simp add: default_config_def img_height_def)

text \<open>
  C31.  A message longer than the carrier's capacity is embedded without any
  error and its excess bits are dropped: two messages whose bit strings both
  reach the capacity (the depths summed over the walk) and agree up to it give
  the same image.
\<close>

theorem over_capacity_silent:
  assumes "valid_config cfg" "wf_pixels px"
    and "sum_list (map snd (walk cfg px (block_depth cfg px))) \<le> length (message_to_bits msg)"
    and "sum_list (map snd (walk cfg px (block_depth cfg px))) \<le> length (message_to_bits msg')"
    and "take (sum_list (map snd (walk cfg px (block_depth cfg px)))) (message_to_bits msg) =
         take (sum_list (map snd (walk cfg px (block_depth cfg px)))) (message_to_bits msg')"
  shows "\<exists>px'. embed_message cfg px msg = Inr px' \<and> embed_message cfg px msg' = Inr px'"
proof -
  have "embed_walk (message_to_bits msg) (walk cfg px (block_depth cfg px)) \<lparr>pix = px, bit_index = 0\<rparr> =
        embed_walk (message_to_bits msg') (walk cfg px (block_depth cfg px)) \<lparr>pix = px, bit_index = 0\<rparr>"
    using assms(3,4,5) by (intro embed_walk_prefix_bits walk_depths_pos [OF assms(1)]) simp_all
  then show ?thesis using embed_message_succeeds [OF assms(1,2), of msg] embed_message_succeeds [OF assms(1,2), of msg']
    by auto
qed

theorem over_capacity_silent_witness:
  "embed_message default_config [[[0, 0, 0]]] [65] = embed_message default_config [[[0, 0, 0]]] [64] \<and>
   (\<exists>px'. embed_message default_config [[[0, 0, 0]]] [65] = Inr px')"
proof -
  let ?P = "[[[0, 0, 0]]] :: pixels"
  have w: "wf_pixels ?P" by code_simp
  have c: "sum_list (map snd (walk default_config ?P (block_depth default_config ?P))) \<le> length (message_to_bits [65])"
          "sum_list (map snd (walk default_config ?P (block_depth default_config ?P))) \<le> length (message_to_bits [64])"
          "take (sum_list (map snd (walk default_config ?P (block_depth default_config ?P)))) (message_to_bits [65]) =
           take (sum_list (map snd (walk default_config ?P (block_depth default_config ?P)))) (message_to_bits [64])"
    by code_simp+
  show ?thesis using over_capacity_silent [OF valid_default_config w c] by auto
qed

text \<open>
  C32.  A character whose code point does not fit in a byte is formatted with
  more than eight bits by \<open>f'{ord(c):08b}'\<close>, while the decoder cuts eight-bit
  chunks and returns characters below 256 only.  A message holding such a
  character embeds without error, and no carrier and no length extract it.
\<close>

theorem wide_code_point_breaks_codec:
  assumes "valid_config cfg" "wf_pixels px" "\<exists>c \<in> set msg. 256 \<le> c"
  shows "(\<exists>px'. embed_message cfg px msg = Inr px') \<and> (\<forall>q n. extract_message cfg q n \<noteq> Inr msg)"
  using embed_message_succeeds [OF assms(1,2), of msg] extract_message_bytes assms(3) by fastforce

theorem wide_code_point_breaks_codec_witness:
  "(\<exists>px'. embed_message default_config [[[0, 0, 0]]] [256, 65] = Inr px') \<and>
   extract_message default_config [[[0, 0, 0]]] 2 \<noteq> Inr [256, 65]"
proof -
  have w: "wf_pixels ([[[0, 0, 0]]] :: pixels)" by code_simp
  show ?thesis using wide_code_point_breaks_codec [OF valid_default_config w, of "[256, 65]"] by auto
qed

end
